(* ===== verification/Proxy_Prelude.thy ===== *)
theory Proxy_Prelude
  imports Main "HOL-Library.Word" "HOL-Library.Sublist" "HOL-Library.Multiset"
begin

text \<open>
  Shared vocabulary of the development: the outcome of a fallible Rust call
  (\<open>Ok\<close>, \<open>Err\<close> or a panic), state-passing programs over it with the
  combinators the source uses (\<open>?\<close>, \<open>map\<close>, \<open>map_err\<close>), a proof calculus for
  such programs (\<open>evolves\<close>: the states before and after are related by a
  reflexive and transitive relation, an invariant being one), and the small
  list and string functions of the Rust standard library that several
  components use.
\<close>

named_theorems prog_simps \<open>unfolding of program combinators applied to a state\<close>
named_theorems evolve \<open>introduction rules for the relation between states\<close>

section \<open>Base types\<close>

type_synonym byte = "8 word"
type_synonym bytes = "byte list"

section \<open>Outcomes\<close>

text \<open>\<open>Result\<close> of Rust, with the unwinding of a panic as a third case.\<close>

datatype ('a, 'e) result = Ok 'a | Err 'e | Panic string

definition is_ok :: "('a, 'e) result \<Rightarrow> bool" where
  "is_ok r = (case r of Ok _ \<Rightarrow> True | _ \<Rightarrow> False)"

definition is_err :: "('a, 'e) result \<Rightarrow> bool" where
  "is_err r = (case r of Err _ \<Rightarrow> True | _ \<Rightarrow> False)"

definition res_map_err :: "('e \<Rightarrow> 'f) \<Rightarrow> ('a, 'e) result \<Rightarrow> ('a, 'f) result" where
  "res_map_err f r = (case r of Ok a \<Rightarrow> Ok a | Err e \<Rightarrow> Err (f e) | Panic m \<Rightarrow> Panic m)"

definition res_map_ok :: "('a \<Rightarrow> 'b) \<Rightarrow> ('a, 'e) result \<Rightarrow> ('b, 'e) result" where
  "res_map_ok f r = (case r of Ok a \<Rightarrow> Ok (f a) | Err e \<Rightarrow> Err e | Panic m \<Rightarrow> Panic m)"

lemma is_ok_simps [simp]: "is_ok (Ok a)" "\<not> is_ok (Err e)" "\<not> is_ok (Panic m)"
  by (simp_all add: is_ok_def)

lemma is_err_simps [simp]: "\<not> is_err (Ok a)" "is_err (Err e)" "\<not> is_err (Panic m)"
  by (simp_all add: is_err_def)

lemma is_ok_iff: "is_ok r \<longleftrightarrow> (\<exists>a. r = Ok a)"
  by (cases r) simp_all

lemma run_ok: "is_ok (fst (m :: ('a, 'e) result \<times> 's)) \<Longrightarrow> \<exists>a w'. m = (Ok a, w')"
  by (metis is_ok_iff prod.collapse)

lemma res_map_err_simps [simp]:
  "res_map_err f (Ok a) = Ok a" "res_map_err f (Err e) = Err (f e)"
  "res_map_err f (Panic m) = Panic m"
  by (simp_all add: res_map_err_def)

lemma res_map_ok_simps [simp]:
  "res_map_ok f (Ok a) = Ok (f a)" "res_map_ok f (Err e) = Err e"
  "res_map_ok f (Panic m) = Panic m"
  by (simp_all add: res_map_ok_def)

lemma res_map_err_eq_Ok [simp]: "res_map_err f r = Ok a \<longleftrightarrow> r = Ok a"
  by (cases r) simp_all

lemma res_map_err_eq_Panic [simp]: "res_map_err f r = Panic m \<longleftrightarrow> r = Panic m"
  by (cases r) simp_all

lemma res_map_err_eq_Err: "res_map_err f r = Err e \<longleftrightarrow> (\<exists>d. r = Err d \<and> e = f d)"
  by (cases r) auto

lemma is_ok_res_map_err [simp]: "is_ok (res_map_err f r) = is_ok r"
  by (cases r) simp_all

lemma res_map_ok_eq_Ok: "res_map_ok f r = Ok b \<longleftrightarrow> (\<exists>a. r = Ok a \<and> b = f a)"
  by (cases r) auto

section \<open>State-passing programs\<close>

type_synonym ('s, 'a, 'e) prog = "'s \<Rightarrow> ('a, 'e) result \<times> 's"

definition ok :: "'a \<Rightarrow> ('s, 'a, 'e) prog" where
  "ok a s = (Ok a, s)"

definition err :: "'e \<Rightarrow> ('s, 'a, 'e) prog" where
  "err e s = (Err e, s)"

definition lift_res :: "('a, 'e) result \<Rightarrow> ('s, 'a, 'e) prog" where
  "lift_res r s = (r, s)"

text \<open>Sequencing with the early return of the question-mark operator.\<close>

definition and_then :: "('s, 'a, 'e) prog \<Rightarrow> ('a \<Rightarrow> ('s, 'b, 'e) prog) \<Rightarrow> ('s, 'b, 'e) prog" where
  "and_then m f s = (case m s of (r, s') \<Rightarrow>
     (case r of Ok a \<Rightarrow> f a s' | Err e \<Rightarrow> (Err e, s') | Panic p \<Rightarrow> (Panic p, s')))"

definition map_err :: "('e \<Rightarrow> 'f) \<Rightarrow> ('s, 'a, 'e) prog \<Rightarrow> ('s, 'a, 'f) prog" where
  "map_err f m s = (case m s of (r, s') \<Rightarrow> (res_map_err f r, s'))"

definition map_ok :: "('a \<Rightarrow> 'b) \<Rightarrow> ('s, 'a, 'e) prog \<Rightarrow> ('s, 'b, 'e) prog" where
  "map_ok f m s = (case m s of (r, s') \<Rightarrow> (res_map_ok f r, s'))"

lemmas [prog_simps] = ok_def err_def lift_res_def

lemma and_then_Ok_iff:
  "and_then m f s = (Ok b, t) \<longleftrightarrow> (\<exists>a u. m s = (Ok a, u) \<and> f a u = (Ok b, t))"
  by (auto simp: and_then_def split: prod.splits result.splits)

lemma map_err_Ok_iff: "map_err f m s = (Ok a, t) \<longleftrightarrow> m s = (Ok a, t)"
  by (auto simp: map_err_def split: prod.splits)

lemma map_ok_Ok_iff: "map_ok f m s = (Ok b, t) \<longleftrightarrow> (\<exists>a. m s = (Ok a, t) \<and> b = f a)"
  by (auto simp: map_ok_def res_map_ok_eq_Ok split: prod.splits)

lemma snd_map_err [simp]: "snd (map_err f m s) = snd (m s)"
  by (simp add: map_err_def split: prod.splits)

lemma snd_map_ok [simp]: "snd (map_ok f m s) = snd (m s)"
  by (simp add: map_ok_def split: prod.splits)

lemma fst_map_err [simp]: "fst (map_err f m s) = res_map_err f (fst (m s))"
  by (simp add: map_err_def split: prod.splits)

lemma fst_map_ok [simp]: "fst (map_ok f m s) = res_map_ok f (fst (m s))"
  by (simp add: map_ok_def split: prod.splits)

lemmas prog_Ok_iff = and_then_Ok_iff map_err_Ok_iff map_ok_Ok_iff

subsection \<open>Relations between the states before and after\<close>

text \<open>
  \<open>evolves R m\<close>: running \<open>m\<close> leads from any state to an \<open>R\<close>-related one.
  An invariant \<open>I\<close> is the relation ``\<open>I\<close> holds after if it held before''.
\<close>

definition evolves :: "('s \<Rightarrow> 's \<Rightarrow> bool) \<Rightarrow> ('s, 'a, 'e) prog \<Rightarrow> bool" where
  "evolves R m \<longleftrightarrow> (\<forall>s. R s (snd (m s)))"

abbreviation preserves :: "('s \<Rightarrow> bool) \<Rightarrow> ('s, 'a, 'e) prog \<Rightarrow> bool" where
  "preserves I m \<equiv> evolves (\<lambda>s t. I s \<longrightarrow> I t) m"

lemma evolvesI: "(\<And>s. R s (snd (m s))) \<Longrightarrow> evolves R m"
  by (simp add: evolves_def)

lemma evolvesD: "evolves R m \<Longrightarrow> R s (snd (m s))"
  by (simp add: evolves_def)

lemma evolves_Ok: "evolves R m \<Longrightarrow> m s = (r, t) \<Longrightarrow> R s t"
  by (metis evolvesD snd_conv)

lemma preservesD: "preserves I m \<Longrightarrow> I s \<Longrightarrow> I (snd (m s))"
  by (simp add: evolves_def)

lemma evolves_mono: "evolves R m \<Longrightarrow> (\<And>s t. R s t \<Longrightarrow> Q s t) \<Longrightarrow> evolves Q m"
  by (simp add: evolves_def)

lemma preserves_conj: "preserves I m \<Longrightarrow> preserves J m \<Longrightarrow> preserves (\<lambda>s. I s \<and> J s) m"
  by (simp add: evolves_def)

lemma evolves_map_err [evolve]: "evolves R m \<Longrightarrow> evolves R (map_err f m)"
  by (simp add: evolves_def)

lemma evolves_map_ok [evolve]: "evolves R m \<Longrightarrow> evolves R (map_ok f m)"
  by (simp add: evolves_def)

lemma evolves_if [evolve]:
  "evolves R m \<Longrightarrow> evolves R n \<Longrightarrow> evolves R (if c then m else n)"
  by simp

lemma evolves_case_option [evolve]:
  "evolves R m \<Longrightarrow> (\<And>a. evolves R (f a)) \<Longrightarrow>
   evolves R (case x of None \<Rightarrow> m | Some a \<Rightarrow> f a)"
  by (cases x) simp_all

lemma evolves_let [evolve]: "evolves R (f a) \<Longrightarrow> evolves R (let x = a in f x)"
  by (simp add: Let_def)

text \<open>A relation that is reflexive and transitive carries over sequencing.\<close>

locale step_rel =
  fixes R :: "'s \<Rightarrow> 's \<Rightarrow> bool"
  assumes refl: "R s s"
    and trans: "R s t \<Longrightarrow> R t u \<Longrightarrow> R s u"
begin

lemma pure_ok: "evolves R (ok a)"
  by (simp add: evolves_def ok_def refl)

lemma pure_err: "evolves R (err e)"
  by (simp add: evolves_def err_def refl)

lemma pure_lift_res: "evolves R (lift_res r)"
  by (simp add: evolves_def lift_res_def refl)

lemma seq: "evolves R m \<Longrightarrow> (\<And>a. evolves R (f a)) \<Longrightarrow> evolves R (and_then m f)"
proof (rule evolvesI)
  fix s assume m: "evolves R m" and f: "\<And>a. evolves R (f a)"
  obtain r t where ms: "m s = (r, t)" by (cases "m s")
  with m have st: "R s t" by (rule evolves_Ok)
  show "R s (snd (and_then m f s))"
  proof (cases r)
    case (Ok a)
    have "R t (snd (f a t))" using f by (rule evolvesD)
    with st have "R s (snd (f a t))" by (rule trans)
    with ms Ok show ?thesis by (simp add: and_then_def)
  qed (use ms st in \<open>simp_all add: and_then_def\<close>)
qed

lemmas pure_rules = pure_ok pure_err pure_lift_res seq

end

section \<open>Rows in an order chosen by somebody else\<close>

text \<open>
  \<open>arrange p xs\<close> is \<open>xs\<close> in the order the index list \<open>p\<close> proposes; a
  proposal that is no permutation of the indices leaves the order as it is.
  Every reordering of \<open>xs\<close> is reached by some proposal.
\<close>

definition arrange :: "nat list \<Rightarrow> 'a list \<Rightarrow> 'a list" where
  "arrange p xs = (if sort p = [0..<length xs] then map (\<lambda>i. xs ! i) p else xs)"

lemma mset_arrange [simp]: "mset (arrange p xs) = mset xs"
proof (cases "sort p = [0..<length xs]")
  case True
  then have "mset p = mset [0..<length xs]" by (metis mset_sort)
  then have "mset (map ((!) xs) p) = mset (map ((!) xs) [0..<length xs])"
    by (simp only: mset_map)
  then show ?thesis using True by (simp add: arrange_def map_nth)
qed (simp add: arrange_def)

lemma set_arrange [simp]: "set (arrange p xs) = set xs"
  by (metis mset_arrange set_mset_mset)

lemma length_arrange [simp]: "length (arrange p xs) = length xs"
  by (metis mset_arrange size_mset)

lemma arrange_Nil [simp]: "arrange p [] = []"
  by (metis length_0_conv length_arrange list.size(3))

lemma arrange_single [simp]: "arrange p [x] = [x]"
  by (metis mset_arrange mset_single_iff_right)

lemma arrange_eq_Nil [simp]: "arrange p xs = [] \<longleftrightarrow> xs = []"
  by (metis length_0_conv length_arrange)

section \<open>First element\<close>

definition first_row :: "'a list \<Rightarrow> 'a option" where
  "first_row xs = (case xs of [] \<Rightarrow> None | x # _ \<Rightarrow> Some x)"

lemma first_row_simps [simp]: "first_row [] = None" "first_row (x # xs) = Some x"
  by (simp_all add: first_row_def)

lemma first_row_None [simp]: "first_row xs = None \<longleftrightarrow> xs = []"
  by (cases xs) simp_all

lemma first_row_in: "first_row xs = Some x \<Longrightarrow> x \<in> set xs"
  by (cases xs) auto

lemma first_row_sort_key_min:
  "first_row (sort_key k xs) = Some x \<Longrightarrow> y \<in> set xs \<Longrightarrow> k x \<le> (k y :: 'b::linorder)"
proof -
  assume fst: "first_row (sort_key k xs) = Some x" and y: "y \<in> set xs"
  have srt: "sorted (map k (sort_key k xs))" by simp
  from fst obtain zs where zs: "sort_key k xs = x # zs"
    by (cases "sort_key k xs") auto
  have "y \<in> set (sort_key k xs)" using y by simp
  with srt zs show "k x \<le> k y" by auto
qed

section \<open>Updating the rows a predicate selects\<close>

definition update_rows :: "('a \<Rightarrow> bool) \<Rightarrow> ('a \<Rightarrow> 'a) \<Rightarrow> 'a list \<Rightarrow> 'a list" where
  "update_rows P f xs = map (\<lambda>x. if P x then f x else x) xs"

lemma update_rows_simps [simp]:
  "update_rows P f [] = []"
  "update_rows P f (x # xs) = (if P x then f x else x) # update_rows P f xs"
  by (simp_all add: update_rows_def)

lemma map_update_rows: "(\<And>x. k (f x) = k x) \<Longrightarrow> map k (update_rows P f xs) = map k xs"
  by (simp add: update_rows_def)

lemma length_update_rows [simp]: "length (update_rows P f xs) = length xs"
  by (simp add: update_rows_def)

lemma set_update_rows: "set (update_rows P f xs) = (\<lambda>x. if P x then f x else x) ` set xs"
  by (simp add: update_rows_def)

lemma update_rows_mem: "t \<in> set xs \<Longrightarrow> P t \<Longrightarrow> f t \<in> set (update_rows P f xs)"
  by (force simp: set_update_rows)

lemma update_rows_none: "(\<And>x. x \<in> set xs \<Longrightarrow> \<not> P x) \<Longrightarrow> update_rows P f xs = xs"
  by (simp add: update_rows_def map_idI)

lemma distinct_keys_same:
  "distinct (map k xs) \<Longrightarrow> x \<in> set xs \<Longrightarrow> y \<in> set xs \<Longrightarrow> k x = k y \<Longrightarrow> x = y"
  by (simp add: distinct_map inj_on_def)

lemma update_key_row:
  assumes "distinct (map k xs)" "t \<in> set xs"
  shows "update_rows (\<lambda>r. k r = k t) f xs = map (\<lambda>r. if r = t then f t else r) xs"
  unfolding update_rows_def
proof (rule map_cong[OF HOL.refl])
  fix r assume "r \<in> set xs"
  with assms distinct_keys_same[of k xs r t]
  show "(if k r = k t then f r else r) = (if r = t then f t else r)" by auto
qed

lemma filter_key_single:
  "distinct (map k xs) \<Longrightarrow> x \<in> set xs \<Longrightarrow> filter (\<lambda>y. k y = k x) xs = [x]"
proof (induction xs)
  case (Cons a xs)
  show ?case
  proof (cases "x = a")
    case True
    with Cons.prems have "\<forall>y\<in>set xs. k y \<noteq> k x" by (metis distinct.simps(2) imageI list.set_map list.simps(9))
    with True show ?thesis by (simp add: filter_empty_conv)
  next
    case False
    with Cons.prems have x: "x \<in> set xs" by simp
    with Cons.prems have "k a \<noteq> k x" by (metis distinct.simps(2) imageI list.set_map list.simps(9))
    with x Cons show ?thesis by simp
  qed
qed simp

section \<open>Strings\<close>

text \<open>\<open>str::contains\<close> and the decimal rendering of the formatting macros.\<close>

definition str_contains :: "string \<Rightarrow> string \<Rightarrow> bool" where
  "str_contains s pat = sublist pat s"

lemma str_contains_infix: "str_contains (a @ s @ b) s"
  by (auto simp: str_contains_def)

definition digit_char :: "nat \<Rightarrow> char" where
  "digit_char d = char_of (48 + d)"

fun show_nat :: "nat \<Rightarrow> string" where
  "show_nat n = (if n < 10 then [digit_char n] else show_nat (n div 10) @ [digit_char (n mod 10)])"

declare show_nat.simps [simp del]

definition show_int :: "int \<Rightarrow> string" where
  "show_int i = (if i < 0 then ''-'' @ show_nat (nat (- i)) else show_nat (nat i))"

definition bytes_of_string :: "string \<Rightarrow> bytes" where
  "bytes_of_string s = map (\<lambda>c. word_of_nat (of_char c)) s"

lemma bytes_of_string_inj: "bytes_of_string s = bytes_of_string t \<longleftrightarrow> s = t"
proof
  assume "bytes_of_string s = bytes_of_string t"
  then have "map unat (bytes_of_string s) = map unat (bytes_of_string t)" by simp
  then have "map (\<lambda>c. unat (word_of_nat (of_char c) :: byte)) s =
      map (\<lambda>c. unat (word_of_nat (of_char c) :: byte)) t"
    by (simp add: bytes_of_string_def comp_def)
  moreover have "unat (word_of_nat (of_char c) :: byte) = of_char c" for c :: char
    by (simp add: unat_of_nat take_bit_eq_mod)
  ultimately have "map (of_char :: char \<Rightarrow> nat) s = map of_char t" by simp
  then show "s = t" by (simp add: inj_map_eq_map inj_on_def)
qed simp

lemma length_bytes_of_string [simp]: "length (bytes_of_string s) = length s"
  by (simp add: bytes_of_string_def)

end
