(* ===== verification/Entities.thy ===== *)
theory Entities
  imports Proxy_Prelude
begin

text \<open>
  The crate \<open>entity\<close>: task states and task types with their \<open>i32\<close> codes
  (\<open>entity/src/common.rs\<close>), and the row type of each of the four tables
  (\<open>tasks.rs\<close>, \<open>resource_info.rs\<close>, \<open>worker_info.rs\<close>, \<open>workers_state.rs\<close>).
  Time stamps are \<open>i64\<close> in the source and \<open>int\<close> here; the one place that
  computes with them writes its wrap-around out.
\<close>

section \<open>Task states and task types\<close>

datatype task_state = Undefined | Init | Running | Error | Completed

datatype task_type = C2

definition state_num :: "task_state \<Rightarrow> int" where
  "state_num s = (case s of Undefined \<Rightarrow> 0 | Init \<Rightarrow> 1 | Running \<Rightarrow> 2 | Error \<Rightarrow> 3 | Completed \<Rightarrow> 4)"

text \<open>The derived \<open>TryFrom\<close>: the error carries the number that is no discriminant.\<close>

definition state_try_from :: "int \<Rightarrow> (task_state, int) result" where
  "state_try_from n =
     (if n = 0 then Ok Undefined else if n = 1 then Ok Init else if n = 2 then Ok Running
      else if n = 3 then Ok Error else if n = 4 then Ok Completed else Err n)"

definition type_num :: "task_type \<Rightarrow> int" where
  "type_num t = (case t of C2 \<Rightarrow> 0)"

definition type_try_from :: "int \<Rightarrow> (task_type, int) result" where
  "type_try_from n = (if n = 0 then Ok C2 else Err n)"

definition task_type_to_string :: "task_type \<Rightarrow> string" where
  "task_type_to_string t = (case t of C2 \<Rightarrow> ''C2'')"

definition task_type_fmt :: "task_type \<Rightarrow> string" where
  "task_type_fmt t = ''C2''"

lemma state_try_from_num: "state_try_from (state_num s) = Ok s"
  by (cases s) (simp_all add: state_num_def state_try_from_def)

lemma type_try_from_num: "type_try_from (type_num t) = Ok t"
  by (cases t) (simp add: type_num_def type_try_from_def)

lemma state_num_inj [simp]: "state_num a = state_num b \<longleftrightarrow> a = b"
  by (cases a; cases b) (simp_all add: state_num_def)

lemma state_try_from_Ok: "state_try_from n = Ok s \<Longrightarrow> state_num s = n"
  by (auto simp: state_try_from_def state_num_def split: if_splits)

lemma state_try_from_Err: "state_try_from n = Err m \<longleftrightarrow> m = n \<and> (n < 0 \<or> 4 < n)"
  by (auto simp: state_try_from_def)

text \<open>States compare by their code, as the stored integers do.\<close>

instantiation task_state :: linorder
begin

definition less_eq_task_state :: "task_state \<Rightarrow> task_state \<Rightarrow> bool" where
  "less_eq_task_state a b \<longleftrightarrow> state_num a \<le> state_num b"

definition less_task_state :: "task_state \<Rightarrow> task_state \<Rightarrow> bool" where
  "less_task_state a b \<longleftrightarrow> state_num a < state_num b"

instance
  by standard (auto simp: less_eq_task_state_def less_task_state_def)

end

lemma past_Init_iff: "Init < s \<longleftrightarrow> s = Running \<or> s = Error \<or> s = Completed"
  by (cases s) (simp_all add: less_task_state_def state_num_def)

section \<open>Rows\<close>

record task =
  tk_id :: string
  tk_miner :: string
  tk_resource_id :: string
  tk_proof :: bytes
  tk_worker_id :: string
  tk_type :: task_type
  tk_error_msg :: string
  tk_comment :: string
  tk_state :: task_state
  tk_create_at :: int
  tk_start_at :: int
  tk_complete_at :: int

record resource_info =
  ri_id :: string
  ri_data :: bytes
  ri_create_at :: int

record worker_info =
  wi_id :: string

record worker_state =
  ws_id :: string
  ws_worker_id :: string
  ws_ips :: string
  ws_support_types :: string
  ws_update_at :: int
  ws_create_at :: int

text \<open>The part of a task row that no worker and no client may change after creation.\<close>

definition task_core :: "task \<Rightarrow> string \<times> string \<times> string \<times> task_type \<times> string \<times> int" where
  "task_core t = (tk_id t, tk_miner t, tk_resource_id t, tk_type t, tk_comment t, tk_create_at t)"

lemma task_core_id: "task_core t = task_core u \<Longrightarrow> tk_id t = tk_id u"
  by (simp add: task_core_def)

end
