(* ===== verification/Storage.thy ===== *)
theory Storage
  imports Entities
begin

text \<open>
  The outside world of the proxy: four SQL tables, a file system, a clock, a
  source of random ids, and the ways a statement or a file operation can fail.
  The tables are bags of rows and a statement of the query builder is read as
  the SQL it spells out (filter, order, limit, insert under a primary key,
  update and delete of the selected rows). What SQL and the operating system
  leave open is decided by the oracle record \<open>env\<close>: the time, fresh ids, whether
  a statement fails and with which message, and the order among rows that the
  query does not order. An oracle is asked at a tick that grows with every
  effect, so no two answers are tied to each other.
\<close>

section \<open>World and oracles\<close>

record world =
  wi_tab :: "worker_info list"
  task_tab :: "task list"
  ws_tab :: "worker_state list"
  res_tab :: "resource_info list"
  files :: "string \<rightharpoonup> bytes"
  dirs :: "string set"
  tick :: nat

text \<open>What the network does to one remote call; a lost reply leaves the call executed.\<close>

datatype delivery = Delivered | RequestLost string | ReplyLost string

record env =
  clk :: "nat \<Rightarrow> int"
  db_fault :: "nat \<Rightarrow> string option"
  dup_msg :: "string"
  not_found_prefix :: "string"
  scan :: "nat \<Rightarrow> nat list"
  uuid4 :: "nat \<Rightarrow> string"
  io_fault :: "nat \<Rightarrow> (string \<times> nat option) option"
  enoent :: "string"
  net :: "nat \<Rightarrow> delivery"
  conn_closed :: "string"

type_synonym 'a db = "(world, 'a, string) prog"

definition bump :: "world \<Rightarrow> world" where
  "bump w = w\<lparr>tick := Suc (tick w)\<rparr>"

lemma bump_simps [simp]:
  "wi_tab (bump w) = wi_tab w" "task_tab (bump w) = task_tab w" "ws_tab (bump w) = ws_tab w"
  "res_tab (bump w) = res_tab w" "files (bump w) = files w" "dirs (bump w) = dirs w" "tick (bump w) = Suc (tick w)"
  by (simp_all add: bump_def)

definition now :: "env \<Rightarrow> (world, int, 'e) prog" where
  "now e w = (Ok (clk e (tick w)), bump w)"

definition new_v4 :: "env \<Rightarrow> (world, string, 'e) prog" where
  "new_v4 e w = (Ok (uuid4 e (tick w)), bump w)"

section \<open>SQL statements\<close>

text \<open>One round trip: it fails as a whole, without effect, or runs.\<close>

definition sql :: "env \<Rightarrow> 'a db \<Rightarrow> 'a db" where
  "sql e f w = (case db_fault e (tick w) of Some m \<Rightarrow> (Err m, bump w) | None \<Rightarrow> f (bump w))"

datatype 'r order_by = NoOrder | Asc "'r \<Rightarrow> int" | Desc "'r \<Rightarrow> int"

definition order_rows :: "'r order_by \<Rightarrow> 'r list \<Rightarrow> 'r list" where
  "order_rows ob rs = (case ob of NoOrder \<Rightarrow> rs | Asc k \<Rightarrow> sort_key k rs | Desc k \<Rightarrow> sort_key (\<lambda>r. - k r) rs)"

definition query :: "env \<Rightarrow> (world \<Rightarrow> 'r list) \<Rightarrow> ('r \<Rightarrow> bool) \<Rightarrow> 'r order_by \<Rightarrow> world \<Rightarrow> 'r list" where
  "query e tab P ob w = order_rows ob (arrange (scan e (tick w)) (filter P (tab w)))"

definition find_all :: "env \<Rightarrow> (world \<Rightarrow> 'r list) \<Rightarrow> ('r \<Rightarrow> bool) \<Rightarrow> 'r order_by \<Rightarrow> 'r list db" where
  "find_all e tab P ob = sql e (\<lambda>w. (Ok (query e tab P ob w), w))"

definition find_one :: "env \<Rightarrow> (world \<Rightarrow> 'r list) \<Rightarrow> ('r \<Rightarrow> bool) \<Rightarrow> 'r order_by \<Rightarrow> 'r option db" where
  "find_one e tab P ob = sql e (\<lambda>w. (Ok (first_row (query e tab P ob w)), w))"

definition count_rows :: "env \<Rightarrow> (world \<Rightarrow> 'r list) \<Rightarrow> ('r \<Rightarrow> bool) \<Rightarrow> nat db" where
  "count_rows e tab P = sql e (\<lambda>w. (Ok (length (filter P (tab w))), w))"

definition insert_row ::
  "env \<Rightarrow> (world \<Rightarrow> 'r list) \<Rightarrow> (('r list \<Rightarrow> 'r list) \<Rightarrow> world \<Rightarrow> world) \<Rightarrow> ('r \<Rightarrow> string) \<Rightarrow> 'r \<Rightarrow> 'r db" where
  "insert_row e tab upd key r = sql e (\<lambda>w.
     if key r \<in> set (map key (tab w)) then (Err (dup_msg e), w)
     else (Ok r, upd (\<lambda>rs. rs @ [r]) w))"

definition update_many ::
  "env \<Rightarrow> (world \<Rightarrow> 'r list) \<Rightarrow> (('r list \<Rightarrow> 'r list) \<Rightarrow> world \<Rightarrow> world) \<Rightarrow> ('r \<Rightarrow> bool) \<Rightarrow> ('r \<Rightarrow> 'r) \<Rightarrow> nat db" where
  "update_many e tab upd P f = sql e (\<lambda>w.
     (Ok (length (filter P (tab w))), upd (update_rows P f) w))"

definition delete_many ::
  "env \<Rightarrow> (world \<Rightarrow> 'r list) \<Rightarrow> (('r list \<Rightarrow> 'r list) \<Rightarrow> world \<Rightarrow> world) \<Rightarrow> ('r \<Rightarrow> bool) \<Rightarrow> nat db" where
  "delete_many e tab upd P = sql e (\<lambda>w.
     (Ok (length (filter P (tab w))), upd (filter (\<lambda>r. \<not> P r)) w))"

text \<open>A transaction: begin and commit are round trips of their own, an error of the
  body or of the commit restores the tables.\<close>

definition rollback :: "world \<Rightarrow> world \<Rightarrow> world" where
  "rollback w0 w = w\<lparr>wi_tab := wi_tab w0, task_tab := task_tab w0, ws_tab := ws_tab w0, res_tab := res_tab w0\<rparr>"

definition transaction :: "env \<Rightarrow> 'a db \<Rightarrow> 'a db" where
  "transaction e body w =
     (case sql e (ok ()) w of
        (Err m, w0) \<Rightarrow> (Err m, w0)
      | (Panic p, w0) \<Rightarrow> (Panic p, w0)
      | (Ok _, w0) \<Rightarrow>
          (case body w0 of
             (Err m, w1) \<Rightarrow> (Err m, rollback w0 w1)
           | (Panic p, w1) \<Rightarrow> (Panic p, rollback w0 w1)
           | (Ok a, w1) \<Rightarrow>
               (case sql e (ok ()) w1 of
                  (Ok _, w2) \<Rightarrow> (Ok a, w2)
                | (Err m, w2) \<Rightarrow> (Err m, rollback w0 w2)
                | (Panic p, w2) \<Rightarrow> (Panic p, rollback w0 w2))))"

lemma rollback_simps [simp]:
  "wi_tab (rollback w0 w) = wi_tab w0" "task_tab (rollback w0 w) = task_tab w0"
  "ws_tab (rollback w0 w) = ws_tab w0" "res_tab (rollback w0 w) = res_tab w0"
  "files (rollback w0 w) = files w" "dirs (rollback w0 w) = dirs w" "tick (rollback w0 w) = tick w"
  by (simp_all add: rollback_def)

lemma set_order_rows [simp]: "set (order_rows ob rs) = set rs"
  by (cases ob) (simp_all add: order_rows_def)

lemma mset_order_rows [simp]: "mset (order_rows ob rs) = mset rs"
  by (cases ob) (simp_all add: order_rows_def)

lemma order_rows_Nil [simp]: "order_rows ob rs = [] \<longleftrightarrow> rs = []"
  by (metis mset_order_rows mset_zero_iff)

lemma order_rows_single [simp]: "order_rows ob [r] = [r]"
  by (cases ob) (simp_all add: order_rows_def)

lemma set_query [simp]: "set (query e tab P ob w) = {r \<in> set (tab w). P r}"
  by (simp add: query_def)

lemma mset_query: "mset (query e tab P ob w) = mset (filter P (tab w))"
  by (simp add: query_def)

lemma query_Nil [simp]: "query e tab P ob w = [] \<longleftrightarrow> (\<forall>r \<in> set (tab w). \<not> P r)"
  by (simp add: query_def filter_empty_conv)

lemma query_single: "filter P (tab w) = [r] \<Longrightarrow> query e tab P ob w = [r]"
  by (simp add: query_def)

lemma query_Asc_sorted: "sorted (map k (query e tab P (Asc k) w))"
  by (simp add: query_def order_rows_def)

lemma query_Desc_sorted: "sorted (map (\<lambda>r. - k r) (query e tab P (Desc k) w))"
  by (simp add: query_def order_rows_def)

lemma query_Asc_first_min:
  "first_row (query e tab P (Asc k) w) = Some r \<Longrightarrow> s \<in> set (tab w) \<Longrightarrow> P s \<Longrightarrow> k r \<le> k s"
  by (auto simp: query_def order_rows_def intro: first_row_sort_key_min)

lemma first_query_Some:
  "first_row (query e tab P ob w) = Some r \<Longrightarrow> r \<in> set (tab w) \<and> P r"
  by (drule first_row_in) simp

lemma find_one_Ok_iff: "find_one e tab P ob w = (Ok x, w') \<longleftrightarrow>
    db_fault e (tick w) = None \<and> w' = bump w \<and> x = first_row (query e tab P ob (bump w))"
  by (auto simp: find_one_def sql_def split: option.splits)

lemma find_all_Ok_iff: "find_all e tab P ob w = (Ok x, w') \<longleftrightarrow>
    db_fault e (tick w) = None \<and> w' = bump w \<and> x = query e tab P ob (bump w)"
  by (auto simp: find_all_def sql_def split: option.splits)

lemma count_rows_Ok_iff: "count_rows e tab P w = (Ok n, w') \<longleftrightarrow>
    db_fault e (tick w) = None \<and> w' = bump w \<and> n = length (filter P (tab (bump w)))"
  by (auto simp: count_rows_def sql_def split: option.splits)

lemma insert_row_Ok_iff: "insert_row e tab upd key r w = (Ok x, w') \<longleftrightarrow>
    db_fault e (tick w) = None \<and> key r \<notin> set (map key (tab (bump w))) \<and> x = r \<and>
    w' = upd (\<lambda>rs. rs @ [r]) (bump w)"
  by (auto simp: insert_row_def sql_def split: option.splits)

lemma update_many_Ok_iff: "update_many e tab upd P f w = (Ok n, w') \<longleftrightarrow>
    db_fault e (tick w) = None \<and> n = length (filter P (tab (bump w))) \<and>
    w' = upd (update_rows P f) (bump w)"
  by (auto simp: update_many_def sql_def split: option.splits)

lemma delete_many_Ok_iff: "delete_many e tab upd P w = (Ok n, w') \<longleftrightarrow>
    db_fault e (tick w) = None \<and> n = length (filter P (tab (bump w))) \<and>
    w' = upd (filter (\<lambda>r. \<not> P r)) (bump w)"
  by (auto simp: delete_many_def sql_def split: option.splits)

lemma now_Ok_iff: "now e w = (Ok n, w') \<longleftrightarrow> n = clk e (tick w) \<and> w' = bump w"
  by (auto simp: now_def)

lemma new_v4_Ok_iff: "new_v4 e w = (Ok n, w') \<longleftrightarrow> n = uuid4 e (tick w) \<and> w' = bump w"
  by (auto simp: new_v4_def)

lemma ok_Ok_iff: "ok a w = (Ok x, w') \<longleftrightarrow> x = a \<and> w' = w"
  by (auto simp: ok_def)

lemma err_Ok_iff: "err m w = (Ok x, w') \<longleftrightarrow> False"
  by (simp add: err_def)

lemma lift_res_Ok_iff: "lift_res r w = (Ok x, w') \<longleftrightarrow> r = Ok x \<and> w' = w"
  by (auto simp: lift_res_def)

lemmas stmt_Ok_iff = prog_Ok_iff find_one_Ok_iff find_all_Ok_iff count_rows_Ok_iff insert_row_Ok_iff
  update_many_Ok_iff delete_many_Ok_iff now_Ok_iff new_v4_Ok_iff ok_Ok_iff err_Ok_iff lift_res_Ok_iff

lemma sql_ok_Ok: "sql e (ok ()) w = (Ok u, w') \<longleftrightarrow> db_fault e (tick w) = None \<and> w' = bump w"
  by (auto simp: sql_def ok_def split: option.splits)

text \<open>A committed transaction is its body, run one tick later.\<close>

lemma transaction_Ok_iff: "transaction e body w = (Ok a, w') \<longleftrightarrow>
    db_fault e (tick w) = None \<and>
    (\<exists>w1. body (bump w) = (Ok a, w1) \<and> db_fault e (tick w1) = None \<and> w' = bump w1)"
  by (auto simp: transaction_def sql_def ok_def split: option.splits prod.splits result.splits)

text \<open>A transaction that does not return \<open>Ok\<close> leaves every table as it was.\<close>

lemma transaction_not_ok:
  assumes "transaction e body w = (r, w')" "\<not> is_ok r"
  shows "wi_tab w' = wi_tab w \<and> task_tab w' = task_tab w \<and> ws_tab w' = ws_tab w \<and> res_tab w' = res_tab w"
  using assms
  by (auto simp: transaction_def sql_def ok_def split: option.splits prod.splits result.splits)

section \<open>Files\<close>

text \<open>
  The calls of \<open>std::fs\<close> and \<open>std::path\<close> the source makes. A path is the text it
  was opened with. A write that fails may leave a prefix of the data behind.
  \<open>exists\<close> and \<open>is_file\<close> answer \<open>false\<close> when the operating system fails.
\<close>

definition fs_exists :: "env \<Rightarrow> string \<Rightarrow> (world, bool, 'e) prog" where
  "fs_exists e p w = (Ok (io_fault e (tick w) = None \<and> (files w p \<noteq> None \<or> p \<in> dirs w)), bump w)"

definition fs_is_file :: "env \<Rightarrow> string \<Rightarrow> (world, bool, 'e) prog" where
  "fs_is_file e p w = (Ok (io_fault e (tick w) = None \<and> files w p \<noteq> None), bump w)"

definition fs_read :: "env \<Rightarrow> string \<Rightarrow> bytes db" where
  "fs_read e p w =
     (case io_fault e (tick w) of
        Some (m, _) \<Rightarrow> (Err m, bump w)
      | None \<Rightarrow> (case files w p of None \<Rightarrow> (Err (enoent e), bump w) | Some d \<Rightarrow> (Ok d, bump w)))"

definition fs_write :: "env \<Rightarrow> string \<Rightarrow> bytes \<Rightarrow> unit db" where
  "fs_write e p d w =
     (if p = [] \<or> p \<in> dirs w then (Err (enoent e), bump w)
      else case io_fault e (tick w) of
        Some (m, None) \<Rightarrow> (Err m, bump w)
      | Some (m, Some k) \<Rightarrow> (Err m, (bump w)\<lparr>files := (files w)(p \<mapsto> take k d)\<rparr>)
      | None \<Rightarrow> (Ok (), (bump w)\<lparr>files := (files w)(p \<mapsto> d)\<rparr>))"

definition fs_create :: "env \<Rightarrow> string \<Rightarrow> unit db" where
  "fs_create e p w =
     (case io_fault e (tick w) of
        Some (m, _) \<Rightarrow> (Err m, bump w)
      | None \<Rightarrow>
          if p = [] \<or> p \<in> dirs w then (Err (enoent e), bump w)
          else (Ok (), (bump w)\<lparr>files := (files w)(p \<mapsto> [])\<rparr>))"

definition fs_remove_file :: "env \<Rightarrow> string \<Rightarrow> unit db" where
  "fs_remove_file e p w =
     (case io_fault e (tick w) of
        Some (m, _) \<Rightarrow> (Err m, bump w)
      | None \<Rightarrow>
          if files w p = None then (Err (enoent e), bump w)
          else (Ok (), (bump w)\<lparr>files := (files w)(p := None)\<rparr>))"

definition path_join :: "string \<Rightarrow> string \<Rightarrow> string" where
  "path_join root p =
     (if prefix ''/'' p then p
      else if root = [] \<or> last root = CHR ''/'' then root @ p
      else root @ ''/'' @ p)"

lemma path_join_absolute: "path_join root (CHR ''/'' # p) = CHR ''/'' # p"
  by (simp add: path_join_def)

lemma path_join_inj: "\<not> prefix ''/'' p \<Longrightarrow> \<not> prefix ''/'' q \<Longrightarrow> path_join root p = path_join root q \<longleftrightarrow> p = q"
  by (simp add: path_join_def)

definition same_tabs :: "world \<Rightarrow> world \<Rightarrow> bool" where
  "same_tabs w w' \<longleftrightarrow> wi_tab w' = wi_tab w \<and> task_tab w' = task_tab w \<and> ws_tab w' = ws_tab w \<and> res_tab w' = res_tab w"

text \<open>File operations do not touch the tables.\<close>

lemma fs_same_tabs [evolve]:
  "evolves same_tabs (fs_exists e p)" "evolves same_tabs (fs_is_file e p)"
  "evolves same_tabs (fs_read e p)" "evolves same_tabs (fs_write e p d)"
  "evolves same_tabs (fs_create e p)" "evolves same_tabs (fs_remove_file e p)"
  by (auto simp: evolves_def same_tabs_def fs_exists_def fs_is_file_def fs_read_def fs_write_def
      fs_create_def fs_remove_file_def split: option.splits)

section \<open>Statements and relations between worlds\<close>

lemma snd_sql: "snd (sql e f w) = (if db_fault e (tick w) = None then snd (f (bump w)) else bump w)"
  by (auto simp: sql_def split: option.splits)

lemma snd_transaction:
  "snd (transaction e m w) \<in>
     {bump w, bump (snd (m (bump w))), rollback (bump w) (snd (m (bump w))),
      rollback (bump w) (bump (snd (m (bump w))))}"
  by (auto simp: transaction_def sql_def ok_def split: option.splits prod.splits result.splits)

text \<open>
  A relation between worlds that every tick and every rollback respects: what it
  takes to show it for a method is one fact for each statement that writes.
\<close>

locale world_rel = step_rel R for R :: "world \<Rightarrow> world \<Rightarrow> bool" +
  assumes bump: "R w (bump w)"
    and rollback: "R w0 w \<Longrightarrow> R w0 (rollback w0 w)"
begin

lemma st_sql: "evolves R f \<Longrightarrow> evolves R (sql e f)"
  using trans[OF bump] by (simp add: evolves_def snd_sql bump)

lemma st_find_all: "evolves R (find_all e t P ob)"
  unfolding find_all_def by (rule st_sql) (simp add: evolves_def refl)

lemma st_find_one: "evolves R (find_one e t P ob)"
  unfolding find_one_def by (rule st_sql) (simp add: evolves_def refl)

lemma st_count: "evolves R (count_rows e t P)"
  unfolding count_rows_def by (rule st_sql) (simp add: evolves_def refl)

lemma st_now: "evolves R (now e)"
  by (simp add: evolves_def now_def bump)

lemma st_new_v4: "evolves R (new_v4 e)"
  by (simp add: evolves_def new_v4_def bump)

lemma st_insert:
  "(\<And>w. key r \<notin> set (map key (tab w)) \<Longrightarrow> R w (upd (\<lambda>rs. rs @ [r]) w)) \<Longrightarrow>
   evolves R (insert_row e tab upd key r)"
  unfolding insert_row_def by (rule st_sql) (simp add: evolves_def refl)

lemma st_update:
  "(\<And>w. R w (upd (update_rows P f) w)) \<Longrightarrow> evolves R (update_many e tab upd P f)"
  unfolding update_many_def by (rule st_sql) (simp add: evolves_def refl)

lemma st_delete:
  "(\<And>w. R w (upd (filter (\<lambda>r. \<not> P r)) w)) \<Longrightarrow> evolves R (delete_many e tab upd P)"
  unfolding delete_many_def by (rule st_sql) (simp add: evolves_def refl)

lemma st_transaction:
  assumes "evolves R m"
  shows "evolves R (transaction e m)"
proof (rule evolvesI)
  fix w
  have m: "R (bump w) (snd (m (bump w)))" using assms by (rule evolvesD)
  have mb: "R (bump w) (bump (snd (m (bump w))))" using m bump by (rule trans)
  have "R (bump w) (snd (transaction e m w))"
    using snd_transaction[of e m w] rollback[OF m] rollback[OF mb] mb refl by auto
  with bump show "R w (snd (transaction e m w))" by (rule trans)
qed

lemmas stmts = pure_rules st_find_all st_find_one st_count st_now st_new_v4 st_transaction

lemmas writes = st_insert st_update st_delete

end

text \<open>What a method leaves alone: everything but one table, or everything but the files.\<close>

definition only_tasks :: "world \<Rightarrow> world \<Rightarrow> bool" where
  "only_tasks w w' \<longleftrightarrow> wi_tab w' = wi_tab w \<and> ws_tab w' = ws_tab w \<and> res_tab w' = res_tab w \<and>
     files w' = files w \<and> dirs w' = dirs w"

definition only_workers :: "world \<Rightarrow> world \<Rightarrow> bool" where
  "only_workers w w' \<longleftrightarrow> wi_tab w' = wi_tab w \<and> task_tab w' = task_tab w \<and> res_tab w' = res_tab w \<and>
     files w' = files w \<and> dirs w' = dirs w"

definition only_res :: "world \<Rightarrow> world \<Rightarrow> bool" where
  "only_res w w' \<longleftrightarrow> wi_tab w' = wi_tab w \<and> task_tab w' = task_tab w \<and> ws_tab w' = ws_tab w \<and>
     files w' = files w \<and> dirs w' = dirs w"

interpretation ot: world_rel only_tasks
  by unfold_locales (auto simp: only_tasks_def)

interpretation ow: world_rel only_workers
  by unfold_locales (auto simp: only_workers_def)

interpretation ors: world_rel only_res
  by unfold_locales (auto simp: only_res_def)

interpretation stabs: world_rel same_tabs
  by unfold_locales (auto simp: same_tabs_def)

definition keyed :: "(world \<Rightarrow> 'r list) \<Rightarrow> ('r \<Rightarrow> string) \<Rightarrow> world \<Rightarrow> bool" where
  "keyed tab key w \<longleftrightarrow> distinct (map key (tab w))"

text \<open>
  The four tables share the laws of a field of the world record with its update;
  what a statement does to the keys of a table is proved once, here.
\<close>

locale sql_table =
  fixes tab :: "world \<Rightarrow> 'r list"
    and upd :: "('r list \<Rightarrow> 'r list) \<Rightarrow> world \<Rightarrow> world"
    and key :: "'r \<Rightarrow> string"
  assumes tab_upd: "tab (upd f w) = f (tab w)"
    and tab_bump: "tab (bump w) = tab w"
    and tab_rollback: "tab (rollback w0 w) = tab w0"
begin

lemma keyed_insert:
  "key r \<notin> set (map key (tab w)) \<Longrightarrow> keyed tab key w \<longrightarrow> keyed tab key (upd (\<lambda>rs. rs @ [r]) w)"
  by (simp add: keyed_def tab_upd)

lemma keyed_update:
  "(\<And>r. key (f r) = key r) \<Longrightarrow> keyed tab key w \<longrightarrow> keyed tab key (upd (update_rows P f) w)"
  by (simp add: keyed_def tab_upd map_update_rows)

lemma keyed_delete: "keyed tab key w \<longrightarrow> keyed tab key (upd (filter Q) w)"
  by (simp add: keyed_def tab_upd distinct_map_filter)

lemma keyed_unique:
  "keyed tab key w \<Longrightarrow> r \<in> set (tab w) \<Longrightarrow> filter (\<lambda>s. key s = key r) (tab w) = [r]"
  unfolding keyed_def by (rule filter_key_single)

lemma lookup_key:
  "keyed tab key w \<Longrightarrow> r \<in> set (tab w) \<Longrightarrow> query e tab (\<lambda>s. key s = key r) ob w = [r]"
  by (simp add: query_single keyed_unique)

end

sublocale sql_table \<subseteq> keep: world_rel "\<lambda>w w'. keyed tab key w \<longrightarrow> keyed tab key w'"
  by unfold_locales (auto simp: keyed_def tab_bump tab_rollback)

interpretation tk: sql_table task_tab task_tab_update tk_id
  by unfold_locales simp_all

interpretation ri: sql_table res_tab res_tab_update ri_id
  by unfold_locales simp_all

interpretation ws: sql_table ws_tab ws_tab_update ws_id
  by unfold_locales simp_all

interpretation wi: sql_table wi_tab wi_tab_update wi_id
  by unfold_locales simp_all

end
