(* ===== verification/Proxy_Utils.thy ===== *)
theory Proxy_Utils
  imports Storage
begin

text \<open>
  The helpers of \<open>gpuproxy/src/utils\<close>: conversions between error types, the
  derivation of resource and task ids, the base64 transport of byte slices and
  the creation of the database file. What other crates compute (addresses,
  serde, version 5 UUIDs, base64, the rendering of a JSON-RPC error on the
  client's side) is a field of the record \<open>ext\<close>, a parameter of the model.
\<close>

section \<open>Error types of the RPC layer\<close>

datatype call_error = InvalidParams string | Failed string

datatype rpc_error = Call call_error

record 'c1 c2_resource =
  prover_id :: bytes
  sector_id :: "64 word"
  c1out :: 'c1

record ('addr, 'c1) ext =
  addr_from_str :: "string \<Rightarrow> ('addr, string) result"
  addr_to_string :: "'addr \<Rightarrow> string"
  addr_payload_bytes :: "'addr \<Rightarrow> bytes"
  c1_from_slice :: "bytes \<Rightarrow> ('c1, string) result"
  c2_from_slice :: "bytes \<Rightarrow> ('c1 c2_resource, string) result"
  c2_to_vec :: "'c1 c2_resource \<Rightarrow> (bytes, string) result"
  uuid_v5 :: "bytes \<Rightarrow> string"
  uuid_parse_str :: "string \<Rightarrow> (string, string) result"
  b64_encode :: "bytes \<Rightarrow> string"
  b64_decode :: "string \<Rightarrow> (bytes, string) result"
  rpc_from_anyhow :: "string \<Rightarrow> rpc_error"
  wire_err :: "rpc_error \<Rightarrow> string"

section \<open>Conversions between results\<close>

definition into_anyhow :: "('e \<Rightarrow> string) \<Rightarrow> ('a, 'e) result \<Rightarrow> ('a, string) result" where
  "into_anyhow display r = res_map_err display r"

definition reverse_map_err :: "('e \<Rightarrow> string) \<Rightarrow> 'e option \<Rightarrow> (bool, rpc_error) result" where
  "reverse_map_err display x = (case x of Some e \<Rightarrow> Err (Call (Failed (display e))) | None \<Rightarrow> Ok True)"

definition if_not_found :: "'a option \<Rightarrow> string \<Rightarrow> ('a, string) result" where
  "if_not_found x str = (case x of Some t \<Rightarrow> Ok t | None \<Rightarrow> Err (''not found '' @ str))"

definition invalid_params :: "('a, string) result \<Rightarrow> ('a, rpc_error) result" where
  "invalid_params r = res_map_err (\<lambda>e. Call (InvalidParams e)) r"

definition internal_call_error :: "('s, 'a, string) prog \<Rightarrow> ('s, 'a, rpc_error) prog" where
  "internal_call_error m = map_err (\<lambda>e. Call (Failed e)) m"

lemma if_not_found_Ok [simp]: "if_not_found x s = Ok t \<longleftrightarrow> x = Some t"
  by (cases x) (simp_all add: if_not_found_def)

lemma invalid_params_Ok [simp]: "invalid_params r = Ok a \<longleftrightarrow> r = Ok a"
  by (simp add: invalid_params_def)

lemma internal_call_error_Ok: "internal_call_error m w = (Ok a, w') \<longleftrightarrow> m w = (Ok a, w')"
  by (simp add: internal_call_error_def map_err_Ok_iff)

lemma snd_internal_call_error [simp]: "snd (internal_call_error m w) = snd (m w)"
  by (simp add: internal_call_error_def)

lemma evolves_internal [evolve]: "evolves R m \<Longrightarrow> evolves R (internal_call_error m)"
  by (simp add: evolves_def)

section \<open>Base64 transport\<close>

definition base64byte_serialize :: "('addr, 'c1) ext \<Rightarrow> bytes \<Rightarrow> string" where
  "base64byte_serialize x b = b64_encode x b"

text \<open>The result of the decoder is unwrapped: text that is no base64 is a panic.\<close>

definition base64byte_deserialize :: "('addr, 'c1) ext \<Rightarrow> string \<Rightarrow> (bytes, string) result" where
  "base64byte_deserialize x s = (case b64_decode x s of Ok b \<Rightarrow> Ok b | Err m \<Rightarrow> Panic m | Panic m \<Rightarrow> Panic m)"

section \<open>Ids\<close>

definition gen_resource_id :: "('addr, 'c1) ext \<Rightarrow> bytes \<Rightarrow> string" where
  "gen_resource_id x resource_bytes = uuid_v5 x resource_bytes"

definition put_i32 :: "int \<Rightarrow> bytes" where
  "put_i32 n = (let w = word_of_int n :: 32 word in
     [ucast (drop_bit 24 w), ucast (drop_bit 16 w), ucast (drop_bit 8 w), ucast w])"

definition task_id_buf :: "('addr, 'c1) ext \<Rightarrow> 'addr \<Rightarrow> task_type \<Rightarrow> bytes \<Rightarrow> bytes" where
  "task_id_buf x addr ty resource_bytes =
     addr_payload_bytes x addr @ put_i32 (type_num ty) @
     bytes_of_string (gen_resource_id x resource_bytes)"

definition gen_task_id :: "('addr, 'c1) ext \<Rightarrow> 'addr \<Rightarrow> task_type \<Rightarrow> bytes \<Rightarrow> string" where
  "gen_task_id x addr ty resource_bytes = uuid_v5 x (task_id_buf x addr ty resource_bytes)"

lemma length_put_i32 [simp]: "length (put_i32 n) = 4"
  by (simp add: put_i32_def Let_def)

lemma put_i32_type [simp]: "put_i32 (type_num t) = put_i32 (type_num u) \<longleftrightarrow> t = u"
  by (cases t; cases u) simp

lemma task_id_buf_inj:
  assumes "length (gen_resource_id x b) = length (gen_resource_id x b')"
  shows "task_id_buf x a t b = task_id_buf x a' t' b' \<longleftrightarrow>
    addr_payload_bytes x a = addr_payload_bytes x a' \<and> t = t' \<and> gen_resource_id x b = gen_resource_id x b'"
  using assms by (auto simp: task_id_buf_def bytes_of_string_inj)

section \<open>The database file\<close>

function trim_start_matches :: "string \<Rightarrow> string \<Rightarrow> string" where
  "trim_start_matches pat s =
     (if pat \<noteq> [] \<and> prefix pat s then trim_start_matches pat (drop (length pat) s) else s)"
  by pat_completeness auto
termination
  by (relation "measure (\<lambda>(pat, s). length s)") (auto simp: prefix_def)

declare trim_start_matches.simps [simp del]

definition db_path_of_url :: "string \<Rightarrow> string" where
  "db_path_of_url url =
     (let sub_url = trim_start_matches ''sqlite:'' (trim_start_matches ''sqlite://'' url)
      in takeWhile (\<lambda>c. c \<noteq> CHR ''?'') sub_url)"

definition ensure_db_file :: "env \<Rightarrow> string \<Rightarrow> unit db" where
  "ensure_db_file e url =
     (if \<not> prefix ''sqlite'' url then ok ()
      else let database = db_path_of_url url in
        if database \<noteq> '':memory:'' then
          and_then (fs_exists e database) (\<lambda>b. if \<not> b then fs_create e database else ok ())
        else ok ())"

lemma trim_start_matches_not_prefix: "pat \<noteq> [] \<Longrightarrow> \<not> prefix pat (trim_start_matches pat s)"
proof (induction pat s rule: trim_start_matches.induct)
  case (1 pat s)
  then show ?case by (cases "prefix pat s") (simp_all add: trim_start_matches.simps[of pat s])
qed

lemma trim_start_matches_suffix: "suffix (trim_start_matches pat s) s"
proof (induction pat s rule: trim_start_matches.induct)
  case (1 pat s)
  show ?case
  proof (cases "pat \<noteq> [] \<and> prefix pat s")
    case True
    with 1 have "suffix (trim_start_matches pat (drop (length pat) s)) (drop (length pat) s)" by simp
    then have "suffix (trim_start_matches pat (drop (length pat) s)) s"
      using suffix_drop suffix_order.order_trans by blast
    with True show ?thesis by (simp add: trim_start_matches.simps[of pat s])
  qed (auto simp: trim_start_matches.simps[of pat s])
qed

end
