(* ===== verification/Db_Ops.thy ===== *)
theory Db_Ops
  imports Proxy_Utils
begin

text \<open>
  \<open>DbOpsImpl\<close> of \<open>gpuproxy/src/proxy_rpc/db_ops.rs\<close>: the repositories of the
  worker identity, the tasks, the reported worker states and the resources,
  one definition per method, each the sequence of statements the method sends.
\<close>

section \<open>Worker identity (\<open>WorkerRepo\<close>)\<close>

definition get_worker_id :: "('addr, 'c1) ext \<Rightarrow> env \<Rightarrow> string db" where
  "get_worker_id x e =
     and_then (find_one e wi_tab (\<lambda>_. True) NoOrder) (\<lambda>worker_info_op.
       case worker_info_op of
         Some worker_info \<Rightarrow> lift_res (uuid_parse_str x (wi_id worker_info))
       | None \<Rightarrow>
           and_then (new_v4 e) (\<lambda>uid.
           and_then (insert_row e wi_tab wi_tab_update wi_id \<lparr>wi_id = uid\<rparr>) (\<lambda>_.
           ok uid)))"

section \<open>Tasks (\<open>TaskRepo\<close>)\<close>

text \<open>\<open>to_string()[1..]\<close> drops the network prefix and panics on the empty string.\<close>

definition miner_noprefix :: "string \<Rightarrow> (string, string) result" where
  "miner_noprefix s = (case s of [] \<Rightarrow> Panic ''byte index 1 is out of bounds'' | _ # r \<Rightarrow> Ok r)"

definition db_add_task ::
  "('addr, 'c1) ext \<Rightarrow> env \<Rightarrow> string \<Rightarrow> 'addr \<Rightarrow> task_type \<Rightarrow> string \<Rightarrow> string \<Rightarrow> string db" where
  "db_add_task x e task_id miner_arg task_type resource_id comment =
     and_then (lift_res (miner_noprefix (addr_to_string x miner_arg))) (\<lambda>miner.
     and_then (now e) (\<lambda>n.
     and_then (insert_row e task_tab task_tab_update tk_id
       \<lparr>tk_id = task_id, tk_miner = miner, tk_resource_id = resource_id, tk_proof = [],
        tk_worker_id = '''', tk_type = task_type, tk_error_msg = '''', tk_comment = comment,
        tk_state = Init, tk_create_at = n, tk_start_at = 0, tk_complete_at = 0\<rparr>) (\<lambda>_.
     ok task_id)))"

definition has_task :: "env \<Rightarrow> string \<Rightarrow> bool db" where
  "has_task e task_id = map_ok (\<lambda>count. count > 0) (count_rows e task_tab (\<lambda>t. tk_id t = task_id))"

definition fetch :: "env \<Rightarrow> string \<Rightarrow> task db" where
  "fetch e tid =
     and_then (find_one e task_tab (\<lambda>t. tk_id t = tid) (Asc tk_create_at)) (\<lambda>row.
     lift_res (if_not_found row tid))"

definition fetch_undo :: "env \<Rightarrow> task list db" where
  "fetch_undo e = find_all e task_tab (\<lambda>t. tk_state t = Init) (Asc tk_create_at)"

text \<open>\<open>select_only\<close> without a column spells \<open>SELECT FROM tasks WHERE ...\<close>, which no database accepts; \<open>syntax_msg\<close> is what it says.\<close>

definition get_status :: "string \<Rightarrow> env \<Rightarrow> string \<Rightarrow> task_state db" where
  "get_status syntax_msg e tid =
     and_then (sql e (err syntax_msg :: task option db)) (\<lambda>row. map_ok tk_state (lift_res (if_not_found row tid)))"

lemma get_status_fails: "\<exists>m. get_status s e tid w = (Err m, bump w)"
  by (auto simp: get_status_def and_then_def sql_def err_def split: option.split)

definition db_update_status_by_id :: "env \<Rightarrow> string list \<Rightarrow> task_state \<Rightarrow> unit db" where
  "db_update_status_by_id e tids status =
     map_ok (\<lambda>_. ()) (update_many e task_tab task_tab_update
       (\<lambda>t. tk_id t \<in> set tids) (\<lambda>t. t\<lparr>tk_state := status\<rparr>))"

definition db_list_task :: "env \<Rightarrow> string option \<Rightarrow> task_state list option \<Rightarrow> task list db" where
  "db_list_task e worker_id_opt state_cod =
     find_all e task_tab
       (\<lambda>t. (case worker_id_opt of None \<Rightarrow> True | Some w \<Rightarrow> tk_worker_id t = w) \<and>
            (case state_cod of None \<Rightarrow> True | Some ss \<Rightarrow> tk_state t \<in> set ss))
       (Desc tk_create_at)"

text \<open>
  \<open>fetch_one_todo\<close>: the row filter of its query, the guard and the effect of its
  conditional update, and the transaction around them.
\<close>

definition is_todo :: "task_type list option \<Rightarrow> task \<Rightarrow> bool" where
  "is_todo types t \<longleftrightarrow> tk_state t = Init \<and>
     (case types of None \<Rightarrow> True | Some ts \<Rightarrow> tk_type t \<in> set ts)"

definition claim_guard :: "task \<Rightarrow> task \<Rightarrow> bool" where
  "claim_guard undo_task t \<longleftrightarrow> tk_id t = tk_id undo_task \<and> tk_state t = Init"

definition claim_row :: "string \<Rightarrow> int \<Rightarrow> task \<Rightarrow> task" where
  "claim_row worker n t = t\<lparr>tk_state := Running, tk_worker_id := worker, tk_start_at := n\<rparr>"

definition fetch_one_todo :: "env \<Rightarrow> string \<Rightarrow> task_type list option \<Rightarrow> task db" where
  "fetch_one_todo e worker_id_arg types =
     transaction e
       (and_then (find_one e task_tab (is_todo types) (Asc tk_create_at)) (\<lambda>undo_task_opt.
        case undo_task_opt of
          None \<Rightarrow> err (not_found_prefix e @ ''no task to do for worker'')
        | Some undo_task \<Rightarrow>
            and_then (now e) (\<lambda>n.
            and_then (update_many e task_tab task_tab_update (claim_guard undo_task)
                        (claim_row worker_id_arg n)) (\<lambda>rows_affected.
            if rows_affected = 0 then err (not_found_prefix e @ ''no task to do for worker.'')
            else
              and_then (find_one e task_tab (\<lambda>t. tk_id t = tk_id undo_task) NoOrder) (\<lambda>row.
              case row of
                Some t \<Rightarrow> ok t
              | None \<Rightarrow> err (not_found_prefix e @ ''task not found: '' @ tk_id undo_task))))))"

definition db_fetch_uncompleted :: "env \<Rightarrow> string \<Rightarrow> task list db" where
  "db_fetch_uncompleted e worker_id_arg =
     find_all e task_tab (\<lambda>t. tk_state t = Running \<and> tk_worker_id t = worker_id_arg) (Asc tk_create_at)"

definition error_row :: "string \<Rightarrow> string \<Rightarrow> task \<Rightarrow> task" where
  "error_row worker msg t = t\<lparr>tk_state := Error, tk_worker_id := worker, tk_error_msg := msg\<rparr>"

definition db_record_error :: "env \<Rightarrow> string \<Rightarrow> string \<Rightarrow> string \<Rightarrow> unit db" where
  "db_record_error e worker_id_arg tid err_msg_str =
     map_ok (\<lambda>_. ()) (update_many e task_tab task_tab_update (\<lambda>t. tk_id t = tid)
       (error_row worker_id_arg err_msg_str))"

definition proof_row :: "string \<Rightarrow> bytes \<Rightarrow> int \<Rightarrow> task \<Rightarrow> task" where
  "proof_row worker proof n t = t\<lparr>tk_state := Completed, tk_worker_id := worker, tk_proof := proof,
     tk_error_msg := '''', tk_complete_at := n\<rparr>"

definition db_record_proof :: "env \<Rightarrow> string \<Rightarrow> string \<Rightarrow> bytes \<Rightarrow> unit db" where
  "db_record_proof e worker_id_arg tid proof_str =
     and_then (now e) (\<lambda>n.
     map_ok (\<lambda>_. ()) (update_many e task_tab task_tab_update (\<lambda>t. tk_id t = tid)
       (proof_row worker_id_arg proof_str n)))"

section \<open>Reported worker states (\<open>WorkerStateRepo\<close>)\<close>

definition db_report_worker_info :: "env \<Rightarrow> string \<Rightarrow> string \<Rightarrow> string \<Rightarrow> unit db" where
  "db_report_worker_info e worker_id_arg ips support_types =
     and_then (find_one e ws_tab (\<lambda>r. ws_worker_id r = worker_id_arg) NoOrder) (\<lambda>workers_state_opt.
     case workers_state_opt of
       Some worker_state \<Rightarrow>
         and_then (now e) (\<lambda>n.
         map_ok (\<lambda>_. ()) (update_many e ws_tab ws_tab_update (\<lambda>r. ws_id r = ws_id worker_state)
           (\<lambda>r. r\<lparr>ws_worker_id := worker_id_arg, ws_ips := ips, ws_support_types := support_types,
                 ws_update_at := n\<rparr>)))
     | None \<Rightarrow>
         and_then (new_v4 e) (\<lambda>new_worker_state_id.
         and_then (now e) (\<lambda>n1.
         and_then (now e) (\<lambda>n2.
         map_ok (\<lambda>_. ()) (insert_row e ws_tab ws_tab_update ws_id
           \<lparr>ws_id = new_worker_state_id, ws_worker_id = worker_id_arg, ws_ips = ips,
            ws_support_types = support_types, ws_update_at = n1, ws_create_at = n2\<rparr>)))))"

definition db_list_worker :: "env \<Rightarrow> worker_state list db" where
  "db_list_worker e = find_all e ws_tab (\<lambda>_. True) (Desc ws_create_at)"

definition db_delete_worker_by_worker_id :: "env \<Rightarrow> string \<Rightarrow> unit db" where
  "db_delete_worker_by_worker_id e worker_id_arg =
     map_ok (\<lambda>_. ()) (delete_many e ws_tab ws_tab_update (\<lambda>r. ws_worker_id r = worker_id_arg))"

definition db_delete_worker_by_id :: "env \<Rightarrow> string \<Rightarrow> unit db" where
  "db_delete_worker_by_id e i =
     map_ok (\<lambda>_. ()) (delete_many e ws_tab ws_tab_update (\<lambda>r. ws_id r = i))"

definition db_get_worker_by_worker_id :: "env \<Rightarrow> string \<Rightarrow> worker_state db" where
  "db_get_worker_by_worker_id e worker_id_arg =
     and_then (find_one e ws_tab (\<lambda>r. ws_worker_id r = worker_id_arg) NoOrder) (\<lambda>row.
     lift_res (if_not_found row (worker_id_arg @ ''worker id'')))"

definition db_get_worker_by_id :: "env \<Rightarrow> string \<Rightarrow> worker_state db" where
  "db_get_worker_by_id e i =
     and_then (find_one e ws_tab (\<lambda>r. ws_id r = i) NoOrder) (\<lambda>row. lift_res (if_not_found row i))"

text \<open>\<open>Utc::now().timestamp() - dur\<close> on \<open>i64\<close>, wrapping as the release profile does.\<close>

definition sub_i64 :: "int \<Rightarrow> int \<Rightarrow> int" where
  "sub_i64 a b = sint (word_of_int (a - b) :: 64 word)"

definition db_get_offline_worker :: "env \<Rightarrow> int \<Rightarrow> worker_state list db" where
  "db_get_offline_worker e dur =
     and_then (now e) (\<lambda>n. let offline_time = sub_i64 n dur in
     find_all e ws_tab (\<lambda>r. ws_update_at r < offline_time) (Desc ws_create_at))"

section \<open>Resources in the database (\<open>ResourceRepo\<close>)\<close>

definition db_has_resource :: "env \<Rightarrow> string \<Rightarrow> bool db" where
  "db_has_resource e resource_id =
     map_ok (\<lambda>count. count > 0) (count_rows e res_tab (\<lambda>r. ri_id r = resource_id))"

definition db_get_resource_info :: "env \<Rightarrow> string \<Rightarrow> bytes db" where
  "db_get_resource_info e resource_id =
     and_then (find_one e res_tab (\<lambda>r. ri_id r = resource_id) NoOrder) (\<lambda>row.
     map_ok ri_data (lift_res (if_not_found row resource_id)))"

definition db_store_resource_info :: "env \<Rightarrow> string \<Rightarrow> bytes \<Rightarrow> string db" where
  "db_store_resource_info e resource_id resource =
     and_then (now e) (\<lambda>n.
     map_ok (\<lambda>_. resource_id) (insert_row e res_tab res_tab_update ri_id
       \<lparr>ri_id = resource_id, ri_data = resource, ri_create_at = n\<rparr>))"

definition db_delete_resource :: "env \<Rightarrow> string \<Rightarrow> unit db" where
  "db_delete_resource e resource_id =
     map_ok (\<lambda>_. ()) (delete_many e res_tab res_tab_update (\<lambda>r. ri_id r = resource_id))"

section \<open>Invariants of the tables\<close>

text \<open>
  \<open>db_inv\<close>: primary keys are unique in every table, no worker id is reported
  twice, and there is at most one worker identity.
\<close>

definition wi_single :: "world \<Rightarrow> bool" where
  "wi_single w \<longleftrightarrow> length (wi_tab w) \<le> 1"

definition db_inv :: "world \<Rightarrow> bool" where
  "db_inv w \<longleftrightarrow> keyed task_tab tk_id w \<and> keyed res_tab ri_id w \<and> keyed ws_tab ws_id w \<and>
     keyed ws_tab ws_worker_id w \<and> wi_single w"

interpretation wsw: sql_table ws_tab ws_tab_update ws_worker_id
  by unfold_locales simp_all

text \<open>The definitions of the methods, unfolded by the proofs about all of them.\<close>

lemmas task_op_defs = db_add_task_def has_task_def fetch_def fetch_undo_def
  db_update_status_by_id_def db_list_task_def fetch_one_todo_def db_fetch_uncompleted_def
  db_record_error_def db_record_proof_def

lemmas ws_op_defs = db_list_worker_def db_delete_worker_by_worker_id_def
  db_delete_worker_by_id_def db_get_worker_by_worker_id_def db_get_worker_by_id_def
  db_get_offline_worker_def

lemmas res_op_defs = db_has_resource_def db_get_resource_info_def db_store_resource_info_def
  db_delete_resource_def

lemmas row_defs = claim_row_def error_row_def proof_row_def

lemma row_ids [simp]:
  "tk_id (claim_row wk n t) = tk_id t" "tk_id (error_row wk m t) = tk_id t"
  "tk_id (proof_row wk p n t) = tk_id t"
  by (simp_all add: row_defs)

lemma row_cores [simp]:
  "task_core (claim_row wk n t) = task_core t" "task_core (error_row wk m t) = task_core t"
  "task_core (proof_row wk p n t) = task_core t" "task_core (t\<lparr>tk_state := s\<rparr>) = task_core t"
  by (simp_all add: row_defs task_core_def)

lemma row_states [simp]:
  "tk_state (claim_row wk n t) = Running" "tk_state (error_row wk m t) = Error"
  "tk_state (proof_row wk p n t) = Completed"
  by (simp_all add: row_defs)

subsection \<open>What each group of methods touches\<close>

lemma task_ops_only_tasks [evolve]:
  "evolves only_tasks (db_add_task x e i a ty r c)"
  "evolves only_tasks (has_task e i)"
  "evolves only_tasks (fetch e i)"
  "evolves only_tasks (fetch_undo e)"
  "evolves only_tasks (db_update_status_by_id e is s)"
  "evolves only_tasks (db_list_task e wo so)"
  "evolves only_tasks (fetch_one_todo e wk types)"
  "evolves only_tasks (db_fetch_uncompleted e wk)"
  "evolves only_tasks (db_record_error e wk i m)"
  "evolves only_tasks (db_record_proof e wk i p)"
  unfolding task_op_defs
  by (intro evolve ot.stmts ot.writes; simp add: only_tasks_def)+

lemma ws_ops_only_workers [evolve]:
  "evolves only_workers (db_report_worker_info e wk ips st)"
  "evolves only_workers (db_list_worker e)"
  "evolves only_workers (db_delete_worker_by_worker_id e wk)"
  "evolves only_workers (db_delete_worker_by_id e i)"
  "evolves only_workers (db_get_worker_by_worker_id e wk)"
  "evolves only_workers (db_get_worker_by_id e i)"
  "evolves only_workers (db_get_offline_worker e d)"
  unfolding ws_op_defs db_report_worker_info_def
  by (intro evolve ow.stmts ow.writes; simp add: only_workers_def)+

lemma res_ops_only_res [evolve]:
  "evolves only_res (db_has_resource e i)"
  "evolves only_res (db_get_resource_info e i)"
  "evolves only_res (db_store_resource_info e i d)"
  "evolves only_res (db_delete_resource e i)"
  unfolding res_op_defs
  by (intro evolve ors.stmts ors.writes; simp add: only_res_def)+

subsection \<open>Keys\<close>

lemma task_ops_keyed [evolve]:
  "preserves (keyed task_tab tk_id) (has_task e i)"
  "preserves (keyed task_tab tk_id) (fetch e i)"
  "preserves (keyed task_tab tk_id) (db_list_task e wo so)"
  "preserves (keyed task_tab tk_id) (db_fetch_uncompleted e wk)"
  "preserves (keyed task_tab tk_id) (db_add_task x e i a ty r c)"
  "preserves (keyed task_tab tk_id) (db_update_status_by_id e is s)"
  "preserves (keyed task_tab tk_id) (fetch_one_todo e wk types)"
  "preserves (keyed task_tab tk_id) (db_record_error e wk i m)"
  "preserves (keyed task_tab tk_id) (db_record_proof e wk i p)"
  unfolding task_op_defs
  by (intro evolve tk.keep.stmts tk.keep.writes tk.keyed_insert tk.keyed_update; simp)+

lemma ws_ops_keyed [evolve]:
  "preserves (keyed ws_tab ws_id) (db_report_worker_info e wk ips st)"
  "preserves (keyed ws_tab ws_id) (db_list_worker e)"
  "preserves (keyed ws_tab ws_id) (db_delete_worker_by_worker_id e wk)"
  "preserves (keyed ws_tab ws_id) (db_delete_worker_by_id e i)"
  "preserves (keyed ws_tab ws_id) (db_get_worker_by_worker_id e wk)"
  "preserves (keyed ws_tab ws_id) (db_get_worker_by_id e i)"
  "preserves (keyed ws_tab ws_id) (db_get_offline_worker e d)"
  unfolding ws_op_defs db_report_worker_info_def
  by (intro evolve ws.keep.stmts ws.keep.writes ws.keyed_insert ws.keyed_update ws.keyed_delete; simp)+

text \<open>
  One row for each reporting worker. The primary key does not give this: an update
  rewrites the row it found, and a row is inserted only for a worker without one.
\<close>

definition one_row_per_worker :: "world \<Rightarrow> bool" where
  "one_row_per_worker w \<longleftrightarrow> keyed ws_tab ws_id w \<and> keyed ws_tab ws_worker_id w"

interpretation orw: world_rel "\<lambda>w w'. one_row_per_worker w \<longrightarrow> one_row_per_worker w'"
  by unfold_locales (auto simp: one_row_per_worker_def keyed_def)

lemma update_found_row:
  assumes "distinct (map ws_id rs)" "r \<in> set rs" "ws_worker_id r = wk"
    and f: "\<And>s. ws_worker_id (f s) = wk"
  shows "map ws_worker_id (update_rows (\<lambda>s. ws_id s = ws_id r) f rs) = map ws_worker_id rs"
  unfolding update_rows_def map_map
proof (rule map_cong[OF HOL.refl])
  fix s assume "s \<in> set rs"
  then show "(ws_worker_id \<circ> (\<lambda>s. if ws_id s = ws_id r then f s else s)) s = ws_worker_id s"
    using assms distinct_keys_same[of ws_id rs s r] by auto
qed

lemma report_one_row: "preserves one_row_per_worker (db_report_worker_info e wk ips st)"
proof (rule evolvesI, rule impI)
  fix w assume inv: "one_row_per_worker w"
  let ?q = "first_row (query e ws_tab (\<lambda>r. ws_worker_id r = wk) NoOrder (bump w))"
  show "one_row_per_worker (snd (db_report_worker_info e wk ips st w))"
  proof (cases ?q)
    case None
    then have new: "\<forall>r\<in>set (ws_tab w). ws_worker_id r \<noteq> wk" by simp
    have q: "find_one e ws_tab (\<lambda>r. ws_worker_id r = wk) NoOrder w =
        (case db_fault e (tick w) of None \<Rightarrow> (Ok None, bump w) | Some m \<Rightarrow> (Err m, bump w))"
      using None by (auto simp: find_one_def sql_def split: option.split simp del: first_row_None)
    from new inv show ?thesis
      by (auto simp: db_report_worker_info_def and_then_def q sql_def now_def new_v4_def
          insert_row_def map_ok_def one_row_per_worker_def keyed_def split: option.splits)
  next
    case (Some r)
    with first_query_Some[OF Some] inv show ?thesis
      by (auto simp: db_report_worker_info_def and_then_def find_one_def sql_def now_def
          update_many_def map_ok_def one_row_per_worker_def keyed_def map_update_rows update_found_row
          split: option.splits)
  qed
qed

lemma ws_ops_one_row [evolve]:
  "preserves one_row_per_worker (db_list_worker e)"
  "preserves one_row_per_worker (db_delete_worker_by_worker_id e v)"
  "preserves one_row_per_worker (db_delete_worker_by_id e i)"
  "preserves one_row_per_worker (db_get_worker_by_worker_id e v)"
  "preserves one_row_per_worker (db_get_worker_by_id e i)"
  "preserves one_row_per_worker (db_get_offline_worker e d)"
  unfolding ws_op_defs
  by (intro evolve orw.stmts orw.writes; simp add: one_row_per_worker_def ws.keyed_delete wsw.keyed_delete)+

text \<open>The worker identity is created once and then read back.\<close>

lemma get_worker_id_single: "preserves wi_single (get_worker_id x e)"
  by (auto simp: evolves_def wi_single_def get_worker_id_def and_then_def find_one_def sql_def new_v4_def
      insert_row_def ok_def lift_res_def split: option.splits)

subsection \<open>The history of task rows\<close>

text \<open>
  \<open>grows\<close>: rows are only appended and the core of a row never changes.
  \<open>stays_past\<close>: a task that has left \<open>Init\<close> towards a worker is not offered again.
\<close>

definition grows :: "world \<Rightarrow> world \<Rightarrow> bool" where
  "grows w w' \<longleftrightarrow> prefix (map task_core (task_tab w)) (map task_core (task_tab w'))"

definition past_ids :: "world \<Rightarrow> string set" where
  "past_ids w = tk_id ` {t \<in> set (task_tab w). Init < tk_state t}"

lemma past_ids_iff: "i \<in> past_ids w \<longleftrightarrow> (\<exists>t \<in> set (task_tab w). tk_id t = i \<and> Init < tk_state t)"
  by (auto simp: past_ids_def)

definition stays_past :: "world \<Rightarrow> world \<Rightarrow> bool" where
  "stays_past w w' \<longleftrightarrow> past_ids w \<subseteq> past_ids w'"

interpretation gr: world_rel grows
  by unfold_locales (auto simp: grows_def)

interpretation sp: world_rel stays_past
  by unfold_locales (auto simp: stays_past_def past_ids_def)

lemma grows_update: "(\<And>t. task_core (f t) = task_core t) \<Longrightarrow> grows w (task_tab_update (update_rows P f) w)"
  by (simp add: grows_def map_update_rows)

lemma grows_insert: "grows w (task_tab_update (\<lambda>ts. ts @ [t]) w)"
  by (simp add: grows_def)

lemma stays_past_update:
  assumes "\<And>t. tk_id (f t) = tk_id t" "\<And>t. P t \<Longrightarrow> Init < tk_state t \<Longrightarrow> Init < tk_state (f t)"
  shows "stays_past w (task_tab_update (update_rows P f) w)"
proof -
  have "tk_id t \<in> past_ids (task_tab_update (update_rows P f) w)"
    if "t \<in> set (task_tab w)" "Init < tk_state t" for t
  proof -
    have "(if P t then f t else t) \<in> set (update_rows P f (task_tab w))"
      using imageI[OF that(1), of "\<lambda>x. if P x then f x else x"] by (simp only: set_update_rows)
    with that(2) assms show ?thesis
      unfolding past_ids_iff by (intro bexI[of _ "if P t then f t else t"]) simp_all
  qed
  then show ?thesis by (auto simp: stays_past_def past_ids_def)
qed

lemma stays_past_insert: "stays_past w (task_tab_update (\<lambda>ts. ts @ [t]) w)"
  by (auto simp: stays_past_def past_ids_def)

lemma task_ops_grow [evolve]:
  "evolves grows (db_add_task x e i a ty r c)"
  "evolves grows (has_task e i)"
  "evolves grows (fetch e i)"
  "evolves grows (db_update_status_by_id e is s)"
  "evolves grows (db_list_task e wo so)"
  "evolves grows (fetch_one_todo e wk types)"
  "evolves grows (db_fetch_uncompleted e wk)"
  "evolves grows (db_record_error e wk i m)"
  "evolves grows (db_record_proof e wk i p)"
  unfolding task_op_defs
  by (intro evolve gr.stmts gr.writes grows_insert grows_update; simp)+

lemma task_ops_stay_past [evolve]:
  "evolves stays_past (db_add_task x e i a ty r c)"
  "evolves stays_past (has_task e i)"
  "evolves stays_past (fetch e i)"
  "evolves stays_past (db_list_task e wo so)"
  "evolves stays_past (fetch_one_todo e wk types)"
  "evolves stays_past (db_fetch_uncompleted e wk)"
  "evolves stays_past (db_record_error e wk i m)"
  "evolves stays_past (db_record_proof e wk i p)"
  unfolding task_op_defs
  by (intro evolve sp.stmts sp.writes stays_past_insert stays_past_update; simp add: past_Init_iff)+

lemma only_workers_grows: "only_workers w w' \<Longrightarrow> grows w w'"
  by (simp add: only_workers_def grows_def)

lemma only_res_grows: "only_res w w' \<Longrightarrow> grows w w'"
  by (simp add: only_res_def grows_def)

lemma same_tabs_grows: "same_tabs w w' \<Longrightarrow> grows w w'"
  by (simp add: same_tabs_def grows_def)

section \<open>Behaviour of the methods\<close>

lemma is_todo_Init: "is_todo types t \<Longrightarrow> tk_state t = Init"
  by (simp add: is_todo_def)

lemma past_not_todo: "keyed task_tab tk_id w \<Longrightarrow> t \<in> set (task_tab w) \<Longrightarrow> is_todo types t \<Longrightarrow> tk_id t \<notin> past_ids w"
  unfolding past_ids_def keyed_def
  by (auto simp: is_todo_def less_task_state_def dest: distinct_keys_same[of tk_id "task_tab w" t])

lemma update_claim:
  assumes "keyed task_tab tk_id w" "u \<in> set (task_tab w)" "tk_state u = Init"
  shows "update_rows (claim_guard u) f (task_tab w) = update_rows (\<lambda>r. tk_id r = tk_id u) f (task_tab w)"
    and "filter (claim_guard u) (task_tab w) = [u]"
proof -
  have g: "claim_guard u r \<longleftrightarrow> tk_id r = tk_id u" if "r \<in> set (task_tab w)" for r
    using that assms distinct_keys_same[of tk_id "task_tab w" r u] by (auto simp: claim_guard_def keyed_def)
  then show "update_rows (claim_guard u) f (task_tab w) = update_rows (\<lambda>r. tk_id r = tk_id u) f (task_tab w)"
    by (auto simp: update_rows_def)
  from g have "filter (claim_guard u) (task_tab w) = filter (\<lambda>r. tk_id r = tk_id u) (task_tab w)"
    by (auto intro: filter_cong)
  with tk.keyed_unique[OF assms(1,2)] show "filter (claim_guard u) (task_tab w) = [u]" by simp
qed

text \<open>What a successful \<open>fetch_one_todo\<close> has done: it took an oldest open task of the
  requested types, wrote the worker and the start time into its row, and nothing else.\<close>

lemma fetch_one_todo_Ok:
  assumes inv: "keyed task_tab tk_id w"
    and run: "fetch_one_todo e wk types w = (Ok t, w')"
  obtains u n where "u \<in> set (task_tab w)" "is_todo types u"
    "\<And>v. v \<in> set (task_tab w) \<Longrightarrow> is_todo types v \<Longrightarrow> tk_create_at u \<le> tk_create_at v"
    "t = claim_row wk n u"
    "task_tab w' = update_rows (\<lambda>r. tk_id r = tk_id u) (claim_row wk n) (task_tab w)"
proof -
  from run obtain u w1 w2 n k r where
    u: "first_row (query e task_tab (is_todo types) (Asc tk_create_at) w1) = Some u"
    and w1: "task_tab w1 = task_tab w"
    and upd: "task_tab w' = update_rows (claim_guard u) (claim_row wk n) (task_tab w1)"
    and r: "first_row (query e task_tab (\<lambda>t. tk_id t = tk_id u) NoOrder w2) = Some r"
    and w2: "task_tab w2 = task_tab w'" and t: "t = r"
    by (auto simp: fetch_one_todo_def transaction_Ok_iff stmt_Ok_iff Let_def
        split: option.splits if_splits)
  have u': "u \<in> set (task_tab w)" "is_todo types u" using first_query_Some[OF u] w1 by auto
  have upd': "task_tab w' = update_rows (\<lambda>r. tk_id r = tk_id u) (claim_row wk n) (task_tab w)"
    using upd update_claim(1)[OF inv u'(1) is_todo_Init[OF u'(2)]] w1 by simp
  have "r \<in> set (task_tab w')" "tk_id r = tk_id u" using first_query_Some[OF r] w2 by auto
  then obtain r0 where r0: "r0 \<in> set (task_tab w)" "r = (if tk_id r0 = tk_id u then claim_row wk n r0 else r0)"
    unfolding upd' set_update_rows by auto
  with \<open>tk_id r = tk_id u\<close> have "tk_id r0 = tk_id u" by (auto split: if_splits)
  with r0 u'(1) inv have "r = claim_row wk n u"
    using distinct_keys_same[of tk_id "task_tab w" r0 u] by (simp add: keyed_def)
  with that u' upd' t show thesis
    using query_Asc_first_min[OF u] w1 by auto
qed

end
