(* ===== verification/Resources.thy ===== *)
theory Resources
  imports Db_Ops
begin

text \<open>
  Where task parameters are kept (\<open>gpuproxy/src/resource/mod.rs\<close>): in files under
  a root directory or in the database. The contract both fulfil is the locale
  \<open>resource_store\<close>, interpreted on both; what the RPC server does with a store
  is proved from the contract.
\<close>

section \<open>The implementations\<close>

text \<open>\<open>FileResource\<close>.\<close>

definition file_has_resource :: "string \<Rightarrow> env \<Rightarrow> string \<Rightarrow> bool db" where
  "file_has_resource root e resource_id = fs_is_file e (path_join root resource_id)"

definition file_get_resource_info :: "string \<Rightarrow> env \<Rightarrow> string \<Rightarrow> bytes db" where
  "file_get_resource_info root e resource_id =
     map_err (\<lambda>_. ''read file: '' @ path_join root resource_id) (fs_read e (path_join root resource_id))"

definition file_store_resource_info :: "string \<Rightarrow> env \<Rightarrow> string \<Rightarrow> bytes \<Rightarrow> string db" where
  "file_store_resource_info root e resource_id resource =
     and_then (fs_write e (path_join root resource_id) resource) (\<lambda>_. ok resource_id)"

definition file_delete_resource :: "string \<Rightarrow> env \<Rightarrow> string \<Rightarrow> unit db" where
  "file_delete_resource root e resource_id = fs_remove_file e (path_join root resource_id)"

text \<open>The \<open>dyn ResourceOp\<close> of the server: \<open>DbResource\<close> forwards to the database.\<close>

datatype backend = DbResource | FileResource string

definition has_resource :: "backend \<Rightarrow> env \<Rightarrow> string \<Rightarrow> bool db" where
  "has_resource b e i = (case b of DbResource \<Rightarrow> db_has_resource e i | FileResource root \<Rightarrow> file_has_resource root e i)"

definition get_resource_info :: "backend \<Rightarrow> env \<Rightarrow> string \<Rightarrow> bytes db" where
  "get_resource_info b e i = (case b of DbResource \<Rightarrow> db_get_resource_info e i | FileResource root \<Rightarrow> file_get_resource_info root e i)"

definition store_resource_info :: "backend \<Rightarrow> env \<Rightarrow> string \<Rightarrow> bytes \<Rightarrow> string db" where
  "store_resource_info b e i d = (case b of DbResource \<Rightarrow> db_store_resource_info e i d | FileResource root \<Rightarrow> file_store_resource_info root e i d)"

definition delete_resource :: "backend \<Rightarrow> env \<Rightarrow> string \<Rightarrow> unit db" where
  "delete_resource b e i = (case b of DbResource \<Rightarrow> db_delete_resource e i | FileResource root \<Rightarrow> file_delete_resource root e i)"

section \<open>The contract of a resource store\<close>

text \<open>
  \<open>look w i\<close> is the content stored under \<open>i\<close>; \<open>good\<close> are the ids the contract
  speaks of. A failed store may damage the entry it was about and no other.
\<close>

locale resource_store =
  fixes has :: "string \<Rightarrow> bool db"
    and get :: "string \<Rightarrow> bytes db"
    and store :: "string \<Rightarrow> bytes \<Rightarrow> string db"
    and delete :: "string \<Rightarrow> unit db"
    and look :: "world \<Rightarrow> string \<Rightarrow> bytes option"
    and good :: "string \<Rightarrow> bool"
    and inv :: "world \<Rightarrow> bool"
  assumes has_true: "good i \<Longrightarrow> has i w = (Ok True, w') \<Longrightarrow> look w i \<noteq> None"
    and get_ok: "good i \<Longrightarrow> inv w \<Longrightarrow> get i w = (Ok d, w') \<Longrightarrow> look w i = Some d"
    and store_ok: "good i \<Longrightarrow> good j \<Longrightarrow> store i d w = (Ok k, w') \<Longrightarrow>
      k = i \<and> look w' j = (if j = i then Some d else look w j)"
    and store_other: "good i \<Longrightarrow> good j \<Longrightarrow> j \<noteq> i \<Longrightarrow> look (snd (store i d w)) j = look w j"
    and delete_ok: "good i \<Longrightarrow> good j \<Longrightarrow> delete i w = (Ok u, w') \<Longrightarrow>
      look w' j = (if j = i then None else look w j)"
    and delete_not_ok: "good j \<Longrightarrow> delete i w = (r, w') \<Longrightarrow> \<not> is_ok r \<Longrightarrow> look w' j = look w j"
    and has_frame: "good j \<Longrightarrow> look (snd (has i w)) j = look w j"
    and get_frame: "good j \<Longrightarrow> look (snd (get i w)) j = look w j"
    and inv_has: "preserves inv (has i)"
    and inv_get: "preserves inv (get i)"
    and inv_store: "preserves inv (store i d)"
    and inv_delete: "preserves inv (delete i)"
begin

text \<open>The server stores a resource only if the store does not have it yet. Afterwards
  it is there, provided that what was there before under this id was the same content.\<close>

lemma store_if_missing:
  assumes "good i" "has i w = (Ok b, w1)"
    and "if b then w2 = w1 else (\<exists>k. store i d w1 = (Ok k, w2))"
    and "look w i = None \<or> look w i = Some d"
  shows "look w2 i = Some d"
proof -
  have w1: "look w1 i = look w i" using has_frame[OF assms(1), of i w] assms(2) by simp
  show ?thesis
  proof (cases b)
    case True
    with assms w1 has_true[of i w w1] show ?thesis by auto
  next
    case False
    with assms(3) obtain k where "store i d w1 = (Ok k, w2)" by auto
    with store_ok[OF assms(1,1)] show ?thesis by auto
  qed
qed

lemma store_get:
  assumes "good i" "inv w" "store i d w = (Ok k, w1)" "get i w1 = (Ok d', w2)"
  shows "d' = d"
proof -
  have "inv w1" using evolves_Ok[OF inv_store assms(3)] assms(2) by simp
  with get_ok[OF assms(1) _ assms(4)] store_ok[OF assms(1,1,3)] show ?thesis by simp
qed

lemma delete_get:
  assumes "good i" "inv w" "delete i w = (Ok u, w1)"
  shows "get i w1 \<noteq> (Ok d, w2)"
proof
  assume g: "get i w1 = (Ok d, w2)"
  have "inv w1" using evolves_Ok[OF inv_delete assms(3)] assms(2) by simp
  with get_ok[OF assms(1) _ g] delete_ok[OF assms(1,1,3)] show False by simp
qed

end

text \<open>Ids that are no absolute paths. Ids made by \<open>gen_resource_id\<close> never are.\<close>

definition rel_id :: "string \<Rightarrow> bool" where
  "rel_id i \<longleftrightarrow> \<not> prefix ''/'' i"

subsection \<open>The database keeps it\<close>

definition res_look :: "world \<Rightarrow> string \<Rightarrow> bytes option" where
  "res_look w = map_of (map (\<lambda>r. (ri_id r, ri_data r)) (res_tab w))"

lemma res_look_eq_None: "res_look w i = None \<longleftrightarrow> i \<notin> ri_id ` set (res_tab w)"
  by (simp add: res_look_def map_of_eq_None_iff image_image)

lemma map_of_filter_keys:
  "map_of (map (\<lambda>r. (k r, v r)) (filter (\<lambda>r. k r \<noteq> i) rs)) j =
     (if j = i then None else map_of (map (\<lambda>r. (k r, v r)) rs) j)"
  by (induction rs) auto

lemma res_look_delete:
  "res_look (res_tab_update (filter (\<lambda>r. ri_id r \<noteq> i)) w) j = (if j = i then None else res_look w j)"
  by (simp add: res_look_def map_of_filter_keys)

lemma res_look_insert:
  "ri_id r \<notin> ri_id ` set (res_tab w) \<Longrightarrow>
   res_look (res_tab_update (\<lambda>rs. rs @ [r]) w) j = (if j = ri_id r then Some (ri_data r) else res_look w j)"
  using res_look_eq_None[of w "ri_id r"] by (auto simp: res_look_def map_add_def split: option.splits)

lemma res_look_bump [simp]: "res_look (bump w) = res_look w"
  by (simp add: res_look_def)

lemma res_look_Some:
  assumes "keyed res_tab ri_id w" "r \<in> set (res_tab w)"
  shows "res_look w (ri_id r) = Some (ri_data r)"
proof -
  have "distinct (map fst (map (\<lambda>r. (ri_id r, ri_data r)) (res_tab w)))"
    using assms(1) by (simp add: keyed_def comp_def)
  with assms(2) show ?thesis by (auto simp: res_look_def intro!: map_of_is_SomeI)
qed

lemma res_ops_keyed [evolve]:
  "preserves (keyed res_tab ri_id) (db_has_resource e i)"
  "preserves (keyed res_tab ri_id) (db_get_resource_info e i)"
  "preserves (keyed res_tab ri_id) (db_store_resource_info e i d)"
  "preserves (keyed res_tab ri_id) (db_delete_resource e i)"
  unfolding res_op_defs
  by (intro evolve ri.keep.stmts ri.keep.writes ri.keyed_insert ri.keyed_delete; simp)+

interpretation dbres: resource_store "db_has_resource e" "db_get_resource_info e"
  "db_store_resource_info e" "db_delete_resource e" res_look rel_id "keyed res_tab ri_id" for e
proof (unfold_locales, goal_cases)
  case (1 i w w')
  then show ?case
    by (auto simp: db_has_resource_def stmt_Ok_iff res_look_eq_None filter_empty_conv)
next
  case (2 i w d w')
  then obtain r where r: "first_row (query e res_tab (\<lambda>r. ri_id r = i) NoOrder (bump w)) = Some r" "d = ri_data r"
    by (auto simp: db_get_resource_info_def stmt_Ok_iff)
  then show ?case using first_query_Some[OF r(1)] res_look_Some[OF 2(2)] by auto
next
  case (3 i j d w k w')
  then show ?case by (auto simp: db_store_resource_info_def stmt_Ok_iff res_look_insert)
next
  case (4 i j d w)
  then show ?case
    by (auto simp: db_store_resource_info_def and_then_def now_def insert_row_def sql_def res_look_insert
        split: option.splits)
next
  case (5 i j w u w')
  then show ?case by (auto simp: db_delete_resource_def stmt_Ok_iff res_look_delete)
next
  case (6 j i w r w')
  then show ?case by (auto simp: db_delete_resource_def map_ok_def delete_many_def sql_def split: option.splits)
next
  case (7 j i w)
  then show ?case by (simp add: db_has_resource_def count_rows_def snd_sql)
next
  case (8 j i w)
  then show ?case
    by (auto simp: db_get_resource_info_def and_then_def find_one_def sql_def lift_res_def map_ok_def
        split: option.splits result.splits)
qed (rule res_ops_keyed)+

subsection \<open>Files keep it, for relative ids\<close>

definition file_look :: "string \<Rightarrow> world \<Rightarrow> string \<Rightarrow> bytes option" where
  "file_look root w i = files w (path_join root i)"

lemmas file_res_defs = file_has_resource_def file_get_resource_info_def file_store_resource_info_def
  file_delete_resource_def

lemmas fs_defs = fs_is_file_def fs_read_def fs_write_def fs_create_def fs_remove_file_def fs_exists_def

interpretation fileres: resource_store "file_has_resource root e" "file_get_resource_info root e"
  "file_store_resource_info root e" "file_delete_resource root e" "file_look root" rel_id
  "keyed res_tab ri_id" for root e
  by unfold_locales
    (auto simp: file_res_defs fs_defs file_look_def rel_id_def path_join_inj prog_Ok_iff
      and_then_def ok_def map_err_def evolves_def keyed_def split: option.splits if_splits)

subsection \<open>Whichever store the server runs on\<close>

definition look_of :: "backend \<Rightarrow> world \<Rightarrow> string \<Rightarrow> bytes option" where
  "look_of b w i = (case b of DbResource \<Rightarrow> res_look w i | FileResource root \<Rightarrow> file_look root w i)"

lemma backend_ops:
  "has_resource DbResource = db_has_resource" "get_resource_info DbResource = db_get_resource_info"
  "store_resource_info DbResource = db_store_resource_info" "delete_resource DbResource = db_delete_resource"
  "look_of DbResource = res_look"
  "has_resource (FileResource root) = file_has_resource root"
  "get_resource_info (FileResource root) = file_get_resource_info root"
  "store_resource_info (FileResource root) = file_store_resource_info root"
  "delete_resource (FileResource root) = file_delete_resource root"
  "look_of (FileResource root) = file_look root"
  by (simp_all add: fun_eq_iff has_resource_def get_resource_info_def store_resource_info_def
      delete_resource_def look_of_def)

interpretation backend_store: resource_store "has_resource b e" "get_resource_info b e"
  "store_resource_info b e" "delete_resource b e" "look_of b" rel_id "keyed res_tab ri_id" for b e
  by (cases b; simp only: backend_ops dbres.resource_store_axioms fileres.resource_store_axioms)

end
