(* ===== verification/Proxy_Rpc.thy ===== *)
theory Proxy_Rpc
  imports Resources
begin

text \<open>
  The JSON-RPC service of \<open>gpuproxy/src/proxy_rpc/rpc.rs\<close>: the handlers of
  \<open>ProxyImpl\<close>, the dispatch over the seventeen methods of the trait \<open>ProxyRpc\<close>
  and the client side \<open>WrapClient\<close>. Byte slices travel as base64 text.
\<close>

type_synonym 'a rpc = "(world, 'a, rpc_error) prog"

section \<open>Handlers of \<open>ProxyImpl\<close>\<close>

definition add_task_inner ::
  "('addr, 'c1) ext \<Rightarrow> env \<Rightarrow> backend \<Rightarrow> 'addr \<Rightarrow> string \<Rightarrow> task_type \<Rightarrow> bytes \<Rightarrow> string rpc" where
  "add_task_inner x e b addr comment task_type resource_bytes =
     (let resource_id = gen_resource_id x resource_bytes;
          task_id = gen_task_id x addr task_type resource_bytes in
      and_then (map_err (rpc_from_anyhow x) (has_resource b e resource_id)) (\<lambda>has.
      and_then (if has then ok () else map_ok (\<lambda>_. ())
                  (internal_call_error (store_resource_info b e resource_id resource_bytes))) (\<lambda>_.
      and_then (map_err (rpc_from_anyhow x) (has_task e task_id)) (\<lambda>known.
      and_then (if known then ok () else map_ok (\<lambda>_. ())
                  (internal_call_error (db_add_task x e task_id addr task_type resource_id comment))) (\<lambda>_.
      ok task_id)))))"

definition submit_c2_task ::
  "('addr, 'c1) ext \<Rightarrow> env \<Rightarrow> backend \<Rightarrow> bytes \<Rightarrow> string \<Rightarrow> string \<Rightarrow> bytes \<Rightarrow> 64 word \<Rightarrow> string rpc" where
  "submit_c2_task x e b phase1_output miner comment prover sector =
     and_then (lift_res (invalid_params (c1_from_slice x phase1_output))) (\<lambda>scp1o.
     and_then (lift_res (invalid_params (addr_from_str x miner))) (\<lambda>addr.
     and_then (lift_res (invalid_params (c2_to_vec x
        \<lparr>prover_id = prover, sector_id = sector, c1out = scp1o\<rparr>))) (\<lambda>resource_bytes.
     add_task_inner x e b addr comment C2 resource_bytes)))"

definition rpc_add_task ::
  "('addr, 'c1) ext \<Rightarrow> env \<Rightarrow> backend \<Rightarrow> string \<Rightarrow> string \<Rightarrow> task_type \<Rightarrow> bytes \<Rightarrow> string rpc" where
  "rpc_add_task x e b miner comment task_type param =
     and_then (lift_res (invalid_params (addr_from_str x miner))) (\<lambda>addr.
     and_then (case task_type of C2 \<Rightarrow> lift_res (invalid_params (c2_from_slice x param))) (\<lambda>_.
     add_task_inner x e b addr comment task_type param))"

definition get_task :: "env \<Rightarrow> string \<Rightarrow> task rpc" where
  "get_task e i = internal_call_error (fetch e i)"

definition fetch_todo :: "env \<Rightarrow> string \<Rightarrow> task_type list option \<Rightarrow> task rpc" where
  "fetch_todo e worker_id_arg types = internal_call_error (fetch_one_todo e worker_id_arg types)"

definition fetch_uncompleted :: "env \<Rightarrow> string \<Rightarrow> task list rpc" where
  "fetch_uncompleted e worker_id_arg = internal_call_error (db_fetch_uncompleted e worker_id_arg)"

definition rpc_get_resource_info :: "env \<Rightarrow> backend \<Rightarrow> string \<Rightarrow> bytes rpc" where
  "rpc_get_resource_info e b resource_id_arg = internal_call_error (get_resource_info b e resource_id_arg)"

definition record_proof :: "env \<Rightarrow> backend \<Rightarrow> string \<Rightarrow> string \<Rightarrow> bytes \<Rightarrow> unit rpc" where
  "record_proof e b worker_id_arg tid proof =
     and_then (internal_call_error (fetch e tid)) (\<lambda>task.
     and_then (internal_call_error (db_record_proof e worker_id_arg tid proof)) (\<lambda>_.
     internal_call_error (delete_resource b e (tk_resource_id task))))"

definition record_error :: "env \<Rightarrow> string \<Rightarrow> string \<Rightarrow> string \<Rightarrow> unit rpc" where
  "record_error e worker_id_arg tid err_msg = internal_call_error (db_record_error e worker_id_arg tid err_msg)"

definition list_task :: "env \<Rightarrow> string option \<Rightarrow> task_state list option \<Rightarrow> task list rpc" where
  "list_task e worker_id_arg state = internal_call_error (db_list_task e worker_id_arg state)"

definition update_status_by_id :: "env \<Rightarrow> string list \<Rightarrow> task_state \<Rightarrow> unit rpc" where
  "update_status_by_id e tids state = internal_call_error (db_update_status_by_id e tids state)"

definition report_worker_info :: "env \<Rightarrow> string \<Rightarrow> string \<Rightarrow> string \<Rightarrow> unit rpc" where
  "report_worker_info e worker_id_arg ips support_types =
     internal_call_error (db_report_worker_info e worker_id_arg ips support_types)"

definition list_worker :: "env \<Rightarrow> worker_state list rpc" where
  "list_worker e = internal_call_error (db_list_worker e)"

definition delete_worker_by_worker_id :: "env \<Rightarrow> string \<Rightarrow> unit rpc" where
  "delete_worker_by_worker_id e worker_id_arg = internal_call_error (db_delete_worker_by_worker_id e worker_id_arg)"

definition delete_worker_by_id :: "env \<Rightarrow> string \<Rightarrow> unit rpc" where
  "delete_worker_by_id e i = internal_call_error (db_delete_worker_by_id e i)"

definition get_worker_by_worker_id :: "env \<Rightarrow> string \<Rightarrow> worker_state rpc" where
  "get_worker_by_worker_id e worker_id_arg = internal_call_error (db_get_worker_by_worker_id e worker_id_arg)"

definition get_worker_by_id :: "env \<Rightarrow> string \<Rightarrow> worker_state rpc" where
  "get_worker_by_id e i = internal_call_error (db_get_worker_by_id e i)"

definition get_offline_worker :: "env \<Rightarrow> int \<Rightarrow> worker_state list rpc" where
  "get_offline_worker e dur = internal_call_error (db_get_offline_worker e dur)"

section \<open>The methods of the trait \<open>ProxyRpc\<close>\<close>

datatype request =
    SubmitC2Task string string string bytes "64 word"
  | AddTask string string task_type string
  | GetTask string
  | FetchTodo string "task_type list option"
  | FetchUncomplete string
  | RecordProof string string string
  | RecordError string string string
  | ListTask "string option" "task_state list option"
  | UpdateStatusById "string list" task_state
  | ReportWorkerInfo string string string
  | GetResourceInfo string
  | ListWorker
  | DeleteWorkerByWorkerId string
  | DeleteWorkerById string
  | GetWorkerByWorkerId string
  | GetWorkerById string
  | GetOfflineWorker int

datatype response =
    RString string
  | RTask task
  | RTasks "task list"
  | RUnit
  | RBytes string
  | RWorker worker_state
  | RWorkers "worker_state list"

fun method_name :: "request \<Rightarrow> string" where
  "method_name (SubmitC2Task _ _ _ _ _) = ''Proof.SubmitC2Task''"
| "method_name (AddTask _ _ _ _) = ''Proof.AddTask''"
| "method_name (GetTask _) = ''Proof.GetTask''"
| "method_name (FetchTodo _ _) = ''Proof.FetchTodo''"
| "method_name (FetchUncomplete _) = ''Proof.FetchUncomplete''"
| "method_name (RecordProof _ _ _) = ''Proof.RecordProof''"
| "method_name (RecordError _ _ _) = ''Proof.RecordError''"
| "method_name (ListTask _ _) = ''Proof.ListTask''"
| "method_name (UpdateStatusById _ _) = ''Proof.UpdateStatusById''"
| "method_name (ReportWorkerInfo _ _ _) = ''Proof.ReportWorkerInfo''"
| "method_name (GetResourceInfo _) = ''Proof.GetResourceInfo''"
| "method_name ListWorker = ''Proof.ListWorker''"
| "method_name (DeleteWorkerByWorkerId _) = ''Proof.DeleteWorkerByWorkerId''"
| "method_name (DeleteWorkerById _) = ''Proof.DeleteWorkerById''"
| "method_name (GetWorkerByWorkerId _) = ''Proof.GetWorkerByWorkerId''"
| "method_name (GetWorkerById _) = ''Proof.GetWorkerById''"
| "method_name (GetOfflineWorker _) = ''Proof.GetOfflineWorker''"

text \<open>Parameters of type \<open>Base64Byte\<close> are decoded before the handler runs; the
  decoder has no error of the RPC layer, only a panic.\<close>

definition b64_param :: "('addr, 'c1) ext \<Rightarrow> string \<Rightarrow> (bytes, rpc_error) result" where
  "b64_param x s = res_map_err (rpc_from_anyhow x) (base64byte_deserialize x s)"

fun serve :: "('addr, 'c1) ext \<Rightarrow> env \<Rightarrow> backend \<Rightarrow> request \<Rightarrow> response rpc" where
  "serve x e b (SubmitC2Task phase1_output miner comment prover sector) =
     and_then (lift_res (b64_param x phase1_output)) (\<lambda>p.
     map_ok RString (submit_c2_task x e b p miner comment prover sector))"
| "serve x e b (AddTask miner comment ty param) =
     and_then (lift_res (b64_param x param)) (\<lambda>p. map_ok RString (rpc_add_task x e b miner comment ty p))"
| "serve x e b (GetTask i) = map_ok RTask (get_task e i)"
| "serve x e b (FetchTodo wk types) = map_ok RTask (fetch_todo e wk types)"
| "serve x e b (FetchUncomplete wk) = map_ok RTasks (fetch_uncompleted e wk)"
| "serve x e b (RecordProof wk tid proof) =
     and_then (lift_res (b64_param x proof)) (\<lambda>p. map_ok (\<lambda>_. RUnit) (record_proof e b wk tid p))"
| "serve x e b (RecordError wk tid m) = map_ok (\<lambda>_. RUnit) (record_error e wk tid m)"
| "serve x e b (ListTask wo so) = map_ok RTasks (list_task e wo so)"
| "serve x e b (UpdateStatusById tids s) = map_ok (\<lambda>_. RUnit) (update_status_by_id e tids s)"
| "serve x e b (ReportWorkerInfo wk ips ts) = map_ok (\<lambda>_. RUnit) (report_worker_info e wk ips ts)"
| "serve x e b (GetResourceInfo i) =
     map_ok (\<lambda>d. RBytes (base64byte_serialize x d)) (rpc_get_resource_info e b i)"
| "serve x e b ListWorker = map_ok RWorkers (list_worker e)"
| "serve x e b (DeleteWorkerByWorkerId wk) = map_ok (\<lambda>_. RUnit) (delete_worker_by_worker_id e wk)"
| "serve x e b (DeleteWorkerById i) = map_ok (\<lambda>_. RUnit) (delete_worker_by_id e i)"
| "serve x e b (GetWorkerByWorkerId wk) = map_ok RWorker (get_worker_by_worker_id e wk)"
| "serve x e b (GetWorkerById i) = map_ok RWorker (get_worker_by_id e i)"
| "serve x e b (GetOfflineWorker dur) = map_ok RWorkers (get_offline_worker e dur)"

fun run_requests :: "('addr, 'c1) ext \<Rightarrow> env \<Rightarrow> backend \<Rightarrow> request list \<Rightarrow> world \<Rightarrow> world" where
  "run_requests x e b [] w = w"
| "run_requests x e b (r # rs) w = run_requests x e b rs (snd (serve x e b r w))"

lemmas handler_defs = submit_c2_task_def rpc_add_task_def get_task_def fetch_todo_def
  fetch_uncompleted_def rpc_get_resource_info_def record_proof_def record_error_def list_task_def
  update_status_by_id_def report_worker_info_def list_worker_def delete_worker_by_worker_id_def
  delete_worker_by_id_def get_worker_by_worker_id_def get_worker_by_id_def get_offline_worker_def

section \<open>The client \<open>WrapClient\<close>\<close>

text \<open>One HTTP exchange. A handler that panics drops the connection.\<close>

definition rpc_call :: "('addr, 'c1) ext \<Rightarrow> env \<Rightarrow> backend \<Rightarrow> request \<Rightarrow> response db" where
  "rpc_call x e b r w =
     (case net e (tick w) of
        RequestLost m \<Rightarrow> (Err m, bump w)
      | ReplyLost m \<Rightarrow> (Err m, snd (serve x e b r (bump w)))
      | Delivered \<Rightarrow>
          (case serve x e b r (bump w) of
             (Ok a, w') \<Rightarrow> (Ok a, w')
           | (Err er, w') \<Rightarrow> (Err (wire_err x er), w')
           | (Panic p, w') \<Rightarrow> (Err (conn_closed e), w')))"

text \<open>The reply has the type of the method (lemma \<open>serve_shape\<close>), so the last case
  of each reader below is never taken.\<close>

definition bad_reply :: "(world, 'a, string) prog" where
  "bad_reply = lift_res (Panic ''unreachable'')"

definition expect_task :: "response \<Rightarrow> task db" where
  "expect_task r = (case r of RTask t \<Rightarrow> ok t | _ \<Rightarrow> bad_reply)"

definition expect_tasks :: "response \<Rightarrow> task list db" where
  "expect_tasks r = (case r of RTasks ts \<Rightarrow> ok ts | _ \<Rightarrow> bad_reply)"

definition expect_string :: "response \<Rightarrow> string db" where
  "expect_string r = (case r of RString s \<Rightarrow> ok s | _ \<Rightarrow> bad_reply)"

definition expect_unit :: "response \<Rightarrow> unit db" where
  "expect_unit r = (case r of RUnit \<Rightarrow> ok () | _ \<Rightarrow> bad_reply)"

definition expect_bytes :: "('addr, 'c1) ext \<Rightarrow> response \<Rightarrow> bytes db" where
  "expect_bytes x r = (case r of RBytes s \<Rightarrow> lift_res (base64byte_deserialize x s) | _ \<Rightarrow> bad_reply)"

definition expect_worker :: "response \<Rightarrow> worker_state db" where
  "expect_worker r = (case r of RWorker v \<Rightarrow> ok v | _ \<Rightarrow> bad_reply)"

definition expect_workers :: "response \<Rightarrow> worker_state list db" where
  "expect_workers r = (case r of RWorkers vs \<Rightarrow> ok vs | _ \<Rightarrow> bad_reply)"

definition wc_submit_c2_task where
  "wc_submit_c2_task x e b phase1_output miner comment prover sector =
     and_then (rpc_call x e b (SubmitC2Task (base64byte_serialize x phase1_output) miner comment prover sector))
       expect_string"

definition wc_add_task where
  "wc_add_task x e b miner comment ty param =
     and_then (rpc_call x e b (AddTask miner comment ty (base64byte_serialize x param))) expect_string"

definition wc_get_task where
  "wc_get_task x e b i = and_then (rpc_call x e b (GetTask i)) expect_task"

definition wc_fetch_one_todo where
  "wc_fetch_one_todo x e b wk types = and_then (rpc_call x e b (FetchTodo wk types)) expect_task"

definition wc_fetch_todo where
  "wc_fetch_todo x e b wk types = and_then (rpc_call x e b (FetchTodo wk types)) expect_task"

definition wc_fetch_uncompleted where
  "wc_fetch_uncompleted x e b wk = and_then (rpc_call x e b (FetchUncomplete wk)) expect_tasks"

definition wc_get_resource_info where
  "wc_get_resource_info x e b i = and_then (rpc_call x e b (GetResourceInfo i)) (expect_bytes x)"

definition wc_record_proof where
  "wc_record_proof x e b wk tid proof =
     and_then (rpc_call x e b (RecordProof wk tid (base64byte_serialize x proof))) expect_unit"

definition wc_record_error where
  "wc_record_error x e b wk tid m = and_then (rpc_call x e b (RecordError wk tid m)) expect_unit"

definition wc_list_task where
  "wc_list_task x e b wo so = and_then (rpc_call x e b (ListTask wo so)) expect_tasks"

definition wc_update_status_by_id where
  "wc_update_status_by_id x e b tids s = and_then (rpc_call x e b (UpdateStatusById tids s)) expect_unit"

definition wc_report_worker_info where
  "wc_report_worker_info x e b wk ips ts = and_then (rpc_call x e b (ReportWorkerInfo wk ips ts)) expect_unit"

definition wc_list_worker where
  "wc_list_worker x e b = and_then (rpc_call x e b ListWorker) expect_workers"

definition wc_delete_worker_by_worker_id where
  "wc_delete_worker_by_worker_id x e b wk = and_then (rpc_call x e b (DeleteWorkerByWorkerId wk)) expect_unit"

definition wc_delete_worker_by_id where
  "wc_delete_worker_by_id x e b i = and_then (rpc_call x e b (DeleteWorkerById i)) expect_unit"

definition wc_get_worker_by_worker_id where
  "wc_get_worker_by_worker_id x e b wk = and_then (rpc_call x e b (GetWorkerByWorkerId wk)) expect_worker"

definition wc_get_worker_by_id where
  "wc_get_worker_by_id x e b i = and_then (rpc_call x e b (GetWorkerById i)) expect_worker"

definition wc_get_offline_worker where
  "wc_get_offline_worker x e b dur = and_then (rpc_call x e b (GetOfflineWorker dur)) expect_workers"

text \<open>\<open>ResourceRepo\<close> over the client: reading only.\<close>

definition wc_has_resource :: "string \<Rightarrow> bool db" where
  "wc_has_resource i = err ''not support set resource in rpc''"

definition wc_repo_get_resource_info where
  "wc_repo_get_resource_info x e b i = and_then (rpc_call x e b (GetResourceInfo i)) (expect_bytes x)"

definition wc_store_resource_info :: "string \<Rightarrow> bytes \<Rightarrow> string db" where
  "wc_store_resource_info i d = err ''not support store resource in rpc''"

definition wc_delete_resource :: "string \<Rightarrow> unit db" where
  "wc_delete_resource i = err ''not support store resource in rpc''"

text \<open>The reply of each method has the type its client reads.\<close>

fun reply_shape :: "request \<Rightarrow> response \<Rightarrow> bool" where
  "reply_shape (SubmitC2Task _ _ _ _ _) a = (\<exists>s. a = RString s)"
| "reply_shape (AddTask _ _ _ _) a = (\<exists>s. a = RString s)"
| "reply_shape (GetTask _) a = (\<exists>t. a = RTask t)"
| "reply_shape (FetchTodo _ _) a = (\<exists>t. a = RTask t)"
| "reply_shape (FetchUncomplete _) a = (\<exists>ts. a = RTasks ts)"
| "reply_shape (ListTask _ _) a = (\<exists>ts. a = RTasks ts)"
| "reply_shape (GetResourceInfo _) a = (\<exists>s. a = RBytes s)"
| "reply_shape ListWorker a = (\<exists>vs. a = RWorkers vs)"
| "reply_shape (GetOfflineWorker _) a = (\<exists>vs. a = RWorkers vs)"
| "reply_shape (GetWorkerByWorkerId _) a = (\<exists>v. a = RWorker v)"
| "reply_shape (GetWorkerById _) a = (\<exists>v. a = RWorker v)"
| "reply_shape _ a = (a = RUnit)"

lemma serve_shape: "serve x e b r w = (Ok a, w') \<Longrightarrow> reply_shape r a"
  by (cases r) (auto simp: prog_Ok_iff)

section \<open>What a request leaves alone\<close>

definition only_store :: "world \<Rightarrow> world \<Rightarrow> bool" where
  "only_store w w' \<longleftrightarrow> wi_tab w' = wi_tab w \<and> task_tab w' = task_tab w \<and> ws_tab w' = ws_tab w \<and> dirs w' = dirs w"

interpretation os: world_rel only_store
  by unfold_locales (auto simp: only_store_def)

lemma only_res_store: "only_res w w' \<Longrightarrow> only_store w w'"
  by (simp add: only_res_def only_store_def)

lemma file_ops_only_store:
  "evolves only_store (file_has_resource root e i)"
  "evolves only_store (file_get_resource_info root e i)"
  "evolves only_store (file_store_resource_info root e i d)"
  "evolves only_store (file_delete_resource root e i)"
  by (auto simp: file_res_defs fs_defs evolves_def only_store_def and_then_def ok_def split: option.splits)

lemma backend_only_store [evolve]:
  "evolves only_store (has_resource b e i)"
  "evolves only_store (get_resource_info b e i)"
  "evolves only_store (store_resource_info b e i d)"
  "evolves only_store (delete_resource b e i)"
  by (auto simp: has_resource_def get_resource_info_def store_resource_info_def delete_resource_def
      file_ops_only_store split: backend.split intro: evolves_mono[OF _ only_res_store] res_ops_only_res)

lemma evolves_case_task_type [evolve]: "evolves R m \<Longrightarrow> evolves R (case t of C2 \<Rightarrow> m)"
  by (cases t) simp

text \<open>What every method of the repositories respects, every request respects.\<close>

lemma handlers_evolve_add:
  assumes "world_rel R"
    and tasks: "\<And>i. evolves R (fetch e i)" "\<And>i. evolves R (has_task e i)"
      "\<And>wo so. evolves R (db_list_task e wo so)" "\<And>wk. evolves R (db_fetch_uncompleted e wk)"
      "\<And>wk ts. evolves R (fetch_one_todo e wk ts)"
      "\<And>wk i m. evolves R (db_record_error e wk i m)"
      "\<And>wk i p. evolves R (db_record_proof e wk i p)"
    and upd: "\<And>is st. r = UpdateStatusById is st \<Longrightarrow> evolves R (db_update_status_by_id e is st)"
    and add: "\<And>a c ty d. evolves R (add_task_inner x e b a c ty d)"
    and storage: "\<And>i. evolves R (get_resource_info b e i)" "\<And>i. evolves R (delete_resource b e i)"
    and wk: "\<And>v ips st. evolves R (db_report_worker_info e v ips st)" "evolves R (db_list_worker e)"
      "\<And>v. evolves R (db_delete_worker_by_worker_id e v)" "\<And>v. evolves R (db_delete_worker_by_id e v)"
      "\<And>v. evolves R (db_get_worker_by_worker_id e v)" "\<And>v. evolves R (db_get_worker_by_id e v)"
      "\<And>dur. evolves R (db_get_offline_worker e dur)"
  shows "evolves R (serve x e b r)"
proof -
  note seq_rules = step_rel.pure_rules[OF world_rel.axioms(1)[OF assms(1)]]
  show ?thesis
    by (cases r; simp only: serve.simps handler_defs; intro evolve seq_rules storage tasks wk add upd; simp)
qed

lemma handlers_evolve:
  assumes "world_rel R"
    and tasks: "\<And>i. evolves R (fetch e i)" "\<And>i. evolves R (has_task e i)"
      "\<And>wo so. evolves R (db_list_task e wo so)" "\<And>wk. evolves R (db_fetch_uncompleted e wk)"
      "\<And>i a ty rr c. evolves R (db_add_task x e i a ty rr c)"
      "\<And>wk ts. evolves R (fetch_one_todo e wk ts)"
      "\<And>wk i m. evolves R (db_record_error e wk i m)"
      "\<And>wk i p. evolves R (db_record_proof e wk i p)"
    and upd: "\<And>is st. r = UpdateStatusById is st \<Longrightarrow> evolves R (db_update_status_by_id e is st)"
    and storage: "\<And>i. evolves R (has_resource b e i)" "\<And>i. evolves R (get_resource_info b e i)"
      "\<And>i d. evolves R (store_resource_info b e i d)" "\<And>i. evolves R (delete_resource b e i)"
    and wk: "\<And>v ips st. evolves R (db_report_worker_info e v ips st)" "evolves R (db_list_worker e)"
      "\<And>v. evolves R (db_delete_worker_by_worker_id e v)" "\<And>v. evolves R (db_delete_worker_by_id e v)"
      "\<And>v. evolves R (db_get_worker_by_worker_id e v)" "\<And>v. evolves R (db_get_worker_by_id e v)"
      "\<And>dur. evolves R (db_get_offline_worker e dur)"
  shows "evolves R (serve x e b r)"
proof -
  have add: "evolves R (add_task_inner x e b a c ty d)" for a c ty d
    unfolding add_task_inner_def
    by (intro evolve step_rel.pure_rules[OF world_rel.axioms(1)[OF assms(1)]] storage tasks)
  show ?thesis
    by (rule handlers_evolve_add[OF assms(1)]; intro tasks storage wk add upd; simp)
qed

lemma only_store_grows: "only_store w w' \<Longrightarrow> grows w w'"
  by (simp add: only_store_def grows_def)

text \<open>Relations that only look at the task table.\<close>

lemma store_evolves:
  assumes "\<And>w w'. only_store w w' \<Longrightarrow> R w w'"
  shows "evolves R (has_resource b e i)" "evolves R (get_resource_info b e i)"
    "evolves R (store_resource_info b e i d)" "evolves R (delete_resource b e i)"
  by (auto intro!: backend_only_store[THEN evolves_mono] assms)

lemma workers_evolve:
  assumes "\<And>w w'. only_workers w w' \<Longrightarrow> R w w'"
  shows "evolves R (db_report_worker_info e v ips st)" "evolves R (db_list_worker e)"
    "evolves R (db_delete_worker_by_worker_id e v)" "evolves R (db_delete_worker_by_id e v)"
    "evolves R (db_get_worker_by_worker_id e v)" "evolves R (db_get_worker_by_id e v)"
    "evolves R (db_get_offline_worker e dur)"
  by (auto intro!: ws_ops_only_workers[THEN evolves_mono] assms)

lemma tasks_evolve:
  assumes "\<And>w w'. only_tasks w w' \<Longrightarrow> R w w'"
  shows "evolves R (fetch e i)" "evolves R (has_task e i)" "evolves R (db_list_task e wo so)"
    "evolves R (db_fetch_uncompleted e v)" "evolves R (db_add_task x e i a ty rr c)"
    "evolves R (fetch_one_todo e v ts)" "evolves R (db_record_error e v i m)"
    "evolves R (db_record_proof e v i p)" "evolves R (db_update_status_by_id e is s)"
  by (auto intro!: task_ops_only_tasks[THEN evolves_mono] assms)

lemma serve_grows: "evolves grows (serve x e b r)"
  by (rule handlers_evolve, rule gr.world_rel_axioms)
    (auto intro: evolve store_evolves[OF only_store_grows] workers_evolve[OF only_workers_grows])

fun claim_safe :: "request \<Rightarrow> bool" where
  "claim_safe (UpdateStatusById _ s) = (Init < s)"
| "claim_safe _ = True"

lemma only_store_past: "only_store w w' \<Longrightarrow> stays_past w w'"
  by (simp add: only_store_def stays_past_def past_ids_def)

lemma only_workers_past: "only_workers w w' \<Longrightarrow> stays_past w w'"
  by (simp add: only_workers_def stays_past_def past_ids_def)

lemma serve_stays_past: "claim_safe r \<Longrightarrow> evolves stays_past (serve x e b r)"
proof (rule handlers_evolve, rule sp.world_rel_axioms)
  fix "is" st assume "claim_safe r" "r = UpdateStatusById is st"
  then show "evolves stays_past (db_update_status_by_id e is st)"
    unfolding db_update_status_by_id_def
    by (intro evolve sp.stmts sp.writes stays_past_update; simp)
qed (auto intro: evolve store_evolves[OF only_store_past] workers_evolve[OF only_workers_past])

subsection \<open>Every request keeps the invariants of the tables\<close>

lemma frame_keyed:
  "only_store w w' \<Longrightarrow> keyed task_tab tk_id w \<longrightarrow> keyed task_tab tk_id w'"
  "only_workers w w' \<Longrightarrow> keyed task_tab tk_id w \<longrightarrow> keyed task_tab tk_id w'"
  "only_tasks w w' \<Longrightarrow> keyed res_tab ri_id w \<longrightarrow> keyed res_tab ri_id w'"
  "only_workers w w' \<Longrightarrow> keyed res_tab ri_id w \<longrightarrow> keyed res_tab ri_id w'"
  "only_store w w' \<Longrightarrow> one_row_per_worker w \<longrightarrow> one_row_per_worker w'"
  "only_tasks w w' \<Longrightarrow> one_row_per_worker w \<longrightarrow> one_row_per_worker w'"
  "only_store w w' \<Longrightarrow> wi_single w \<longrightarrow> wi_single w'"
  "only_workers w w' \<Longrightarrow> wi_single w \<longrightarrow> wi_single w'"
  "only_tasks w w' \<Longrightarrow> wi_single w \<longrightarrow> wi_single w'"
  by (simp_all add: only_store_def only_workers_def only_tasks_def keyed_def one_row_per_worker_def wi_single_def)

lemma serve_keyed_tasks: "preserves (keyed task_tab tk_id) (serve x e b r)"
  by (rule handlers_evolve, rule tk.keep.world_rel_axioms)
    (auto intro: task_ops_keyed store_evolves[OF frame_keyed(1)] workers_evolve[OF frame_keyed(2)])

lemma storage_keyed:
  "preserves (keyed res_tab ri_id) (has_resource b e i)"
  "preserves (keyed res_tab ri_id) (get_resource_info b e i)"
  "preserves (keyed res_tab ri_id) (store_resource_info b e i d)"
  "preserves (keyed res_tab ri_id) (delete_resource b e i)"
  by (rule backend_store.inv_has backend_store.inv_get backend_store.inv_store backend_store.inv_delete)+

lemma serve_keyed_resources: "preserves (keyed res_tab ri_id) (serve x e b r)"
  by (rule handlers_evolve, rule ri.keep.world_rel_axioms)
    (auto intro: storage_keyed tasks_evolve[OF frame_keyed(3)] workers_evolve[OF frame_keyed(4)])

lemma serve_one_row: "preserves one_row_per_worker (serve x e b r)"
  by (rule handlers_evolve, rule orw.world_rel_axioms)
    (auto intro: ws_ops_one_row report_one_row store_evolves[OF frame_keyed(5)] tasks_evolve[OF frame_keyed(6)])

interpretation wis: world_rel "\<lambda>w w'. wi_single w \<longrightarrow> wi_single w'"
  by unfold_locales (auto simp: wi_single_def)

lemma serve_wi_single: "preserves wi_single (serve x e b r)"
  by (rule handlers_evolve, rule wis.world_rel_axioms)
    (auto intro: store_evolves[OF frame_keyed(7)] workers_evolve[OF frame_keyed(8)] tasks_evolve[OF frame_keyed(9)])

lemma db_inv_alt: "db_inv w \<longleftrightarrow> keyed task_tab tk_id w \<and> keyed res_tab ri_id w \<and> one_row_per_worker w \<and> wi_single w"
  by (auto simp: db_inv_def one_row_per_worker_def)

lemma serve_db_inv: "preserves db_inv (serve x e b r)"
  using serve_keyed_tasks[of x e b r] serve_keyed_resources[of x e b r] serve_one_row[of x e b r]
    serve_wi_single[of x e b r]
  by (simp add: evolves_def db_inv_alt)

end
