(* ===== verification/Samples.thy ===== *)
theory Samples
  imports Db_Ops
begin

text \<open>
  Concrete data on which the witnesses evaluate the definitions: an outside world
  without faults, stand-ins for the parameters of the model, and a database with
  a few tasks.
\<close>

definition quiet :: env where
  "quiet = \<lparr>clk = (\<lambda>t. 1000 + int t), db_fault = (\<lambda>_. None), dup_msg = ''UNIQUE constraint failed'',
     not_found_prefix = ''RecordNotFound Error: '', scan = (\<lambda>_. []), uuid4 = (\<lambda>t. ''uuid-'' @ show_nat t),
     io_fault = (\<lambda>_. None), enoent = ''No such file or directory'', net = (\<lambda>_. Delivered),
     conn_closed = ''connection closed before message completed''\<rparr>"

definition char_bytes :: "bytes \<Rightarrow> string" where
  "char_bytes bs = map (\<lambda>b. char_of (unat b)) bs"

text \<open>Addresses are their text, a C1 output is its bytes, and ids are 36 characters long.\<close>

definition demo_ext :: "(string, bytes) ext" where
  "demo_ext = \<lparr>
     addr_from_str = (\<lambda>s. if prefix ''f0'' s then Ok s else Err ''invalid address''),
     addr_to_string = (\<lambda>a. a),
     addr_payload_bytes = bytes_of_string,
     c1_from_slice = (\<lambda>bs. if bs = [] then Err ''EOF while parsing a value'' else Ok bs),
     c2_from_slice = (\<lambda>bs. if bs = [] then Err ''EOF while parsing a value''
        else Ok \<lparr>prover_id = [], sector_id = 0, c1out = bs\<rparr>),
     c2_to_vec = (\<lambda>r. Ok (c1out r)),
     uuid_v5 = (\<lambda>bs. take 36 (char_bytes (rev bs) @ replicate 36 CHR ''-'')),
     uuid_parse_str = Ok,
     b64_encode = (\<lambda>bs. CHR ''b'' # char_bytes bs),
     b64_decode = (\<lambda>s. case s of [] \<Rightarrow> Err ''Invalid byte'' | c # r \<Rightarrow>
        if c = CHR ''b'' then Ok (bytes_of_string r) else Err ''Invalid byte''),
     rpc_from_anyhow = (\<lambda>m. Call (Failed m)),
     wire_err = (\<lambda>er. case er of Call (InvalidParams m) \<Rightarrow> ''Invalid params: '' @ m | Call (Failed m) \<Rightarrow> ''RPC call failed: '' @ m)\<rparr>"

definition mk_task :: "string \<Rightarrow> string \<Rightarrow> task_state \<Rightarrow> string \<Rightarrow> int \<Rightarrow> task" where
  "mk_task i rid st wk created = \<lparr>tk_id = i, tk_miner = ''01000'', tk_resource_id = rid, tk_proof = [],
     tk_worker_id = wk, tk_type = C2, tk_error_msg = '''', tk_comment = '''', tk_state = st,
     tk_create_at = created, tk_start_at = 0, tk_complete_at = 0\<rparr>"

definition empty_world :: world where
  "empty_world = \<lparr>wi_tab = [], task_tab = [], ws_tab = [], res_tab = [], files = Map.empty, dirs = {}, tick = 0\<rparr>"

definition busy_world :: world where
  "busy_world = empty_world\<lparr>
     task_tab := [mk_task ''t1'' ''r1'' Init '''' 20, mk_task ''t2'' ''r2'' Init '''' 10,
       mk_task ''t3'' ''r3'' Running ''w1'' 5, mk_task ''t4'' ''r3'' Init '''' 30],
     res_tab := [\<lparr>ri_id = ''r1'', ri_data = [1], ri_create_at = 20\<rparr>, \<lparr>ri_id = ''r2'', ri_data = [2], ri_create_at = 10\<rparr>,
       \<lparr>ri_id = ''r3'', ri_data = [3], ri_create_at = 5\<rparr>],
     ws_tab := [\<lparr>ws_id = ''s1'', ws_worker_id = ''w1'', ws_ips = ''10.0.0.1'', ws_support_types = '''',
       ws_update_at = 400, ws_create_at = 100\<rparr>, \<lparr>ws_id = ''s2'', ws_worker_id = ''w2'', ws_ips = ''10.0.0.2'',
       ws_support_types = ''C2'', ws_update_at = 990, ws_create_at = 200\<rparr>]\<rparr>"

lemmas demo_defs = quiet_def busy_world_def empty_world_def mk_task_def

lemma quiet_simps [simp]:
  "db_fault quiet t = None" "io_fault quiet t = None" "net quiet t = Delivered" "scan quiet t = []"
  "clk quiet t = 1000 + int t"
  by (simp_all add: quiet_def)

lemma busy_inv: "keyed task_tab tk_id busy_world" "keyed res_tab ri_id busy_world" "db_inv busy_world"
  by (simp_all add: demo_defs keyed_def db_inv_def wi_single_def)

end
