(* ===== verification/Task_Handout.thy ===== *)
theory Task_Handout
  imports Proxy_Rpc Samples
begin

text \<open>
  Who gets which task. The contract of one fetch, the rule that no task is handed
  out twice (for whole runs of requests over a lossy network, and for claimants
  whose statements interleave), and the invariants of the tables under every
  sequence of requests.
\<close>

section \<open>One fetch\<close>

lemma sql_quiet: "db_fault e (tick w) = None \<Longrightarrow> sql e f w = f (bump w)"
  by (simp add: sql_def)

lemma fetch_one_todo_claims:
  assumes "keyed task_tab tk_id w" "fetch_one_todo e wk types w = (Ok t, w')"
  shows "\<exists>u n. u \<in> set (task_tab w) \<and> is_todo types u \<and>
     (\<forall>v \<in> set (task_tab w). is_todo types v \<longrightarrow> tk_create_at u \<le> tk_create_at v) \<and>
     t = u\<lparr>tk_state := Running, tk_worker_id := wk, tk_start_at := n\<rparr> \<and>
     task_tab w' = map (\<lambda>r. if tk_id r = tk_id u then t else r) (task_tab w) \<and> only_tasks w w'"
proof -
  obtain u n where u: "u \<in> set (task_tab w)" "is_todo types u" "t = claim_row wk n u"
    "task_tab w' = update_rows (\<lambda>r. tk_id r = tk_id u) (claim_row wk n) (task_tab w)"
    and least: "\<And>v. v \<in> set (task_tab w) \<Longrightarrow> is_todo types v \<Longrightarrow> tk_create_at u \<le> tk_create_at v"
    by (rule fetch_one_todo_Ok[OF assms]) blast
  have "(if tk_id r = tk_id u then claim_row wk n r else r) = (if tk_id r = tk_id u then t else r)"
    if "r \<in> set (task_tab w)" for r
    using that u(1,3) assms(1) distinct_keys_same[of tk_id "task_tab w" r u] by (auto simp: keyed_def)
  then have "task_tab w' = map (\<lambda>r. if tk_id r = tk_id u then t else r) (task_tab w)"
    using u(4) by (simp add: update_rows_def)
  moreover have "only_tasks w w'"
    using evolves_Ok[OF task_ops_only_tasks(7) assms(2)] .
  ultimately show ?thesis using u least by (auto simp: claim_row_def)
qed

text \<open>C7. A successful \<open>fetch_one_todo\<close> returns an open task of the requested types, none
  older being open; the returned row is marked running for the caller with a start time,
  the table differs from before in that row only, and no other table or file changes.\<close>

theorem fetch_one_todo_contract:
  assumes "keyed task_tab tk_id w" "fetch_one_todo e wk types w = (Ok t, w')"
  shows "\<exists>u n. u \<in> set (task_tab w) \<and> is_todo types u \<and>
     (\<forall>v \<in> set (task_tab w). is_todo types v \<longrightarrow> tk_create_at u \<le> tk_create_at v) \<and>
     t = u\<lparr>tk_state := Running, tk_worker_id := wk, tk_start_at := n\<rparr> \<and>
     task_tab w' = map (\<lambda>r. if tk_id r = tk_id u then t else r) (task_tab w) \<and> only_tasks w w'"
  by (rule fetch_one_todo_claims[OF assms])

theorem fetch_one_todo_contract_witness:
  "\<exists>t w'. fetch_one_todo quiet ''w9'' None busy_world = (Ok t, w') \<and> tk_id t = ''t2'' \<and>
     (\<exists>u n. u \<in> set (task_tab busy_world) \<and> t = u\<lparr>tk_state := Running, tk_worker_id := ''w9'', tk_start_at := n\<rparr>)"
proof -
  have "is_ok (fst (fetch_one_todo quiet ''w9'' None busy_world))" by code_simp
  then obtain t w' where run: "fetch_one_todo quiet ''w9'' None busy_world = (Ok t, w')"
    by (metis is_ok_iff prod.collapse)
  have "tk_id (case fst (fetch_one_todo quiet ''w9'' None busy_world) of Ok t \<Rightarrow> t) = ''t2''" by code_simp
  with run fetch_one_todo_contract[OF busy_inv(1) run] show ?thesis by auto
qed

text \<open>Without a database fault \<open>fetch_one_todo\<close> finds a task exactly if one is open;
  and whatever goes wrong, a fetch that returns no task leaves every table as it was.\<close>

lemma fetch_one_todo_finds:
  assumes quiet: "\<And>t. db_fault e t = None" and inv: "keyed task_tab tk_id w"
    and ex: "u \<in> set (task_tab w)" "is_todo types u"
  shows "is_ok (fst (fetch_one_todo e wk types w))"
proof -
  let ?b = "bump (bump w)"
  have "query e task_tab (is_todo types) (Asc tk_create_at) ?b \<noteq> []" using ex by auto
  then obtain v where v: "first_row (query e task_tab (is_todo types) (Asc tk_create_at) ?b) = Some v"
    by (cases "query e task_tab (is_todo types) (Asc tk_create_at) ?b") auto
  then have v': "v \<in> set (task_tab w)" "is_todo types v" using first_query_Some[OF v] by auto
  let ?r = "claim_row wk (clk e (tick ?b)) v"
  have upd: "filter (claim_guard v) (task_tab w) = [v]"
    by (rule update_claim(2)[OF inv v'(1) is_todo_Init[OF v'(2)]])
  have "tk_id v \<in> tk_id ` set (update_rows (claim_guard v) (claim_row wk (clk e (tick ?b))) (task_tab w))"
    using v'(1) map_update_rows[of tk_id "claim_row wk (clk e (tick ?b))" "claim_guard v" "task_tab w"]
    by (metis image_eqI list.set_map row_ids(1))
  then have reread: "query e task_tab (\<lambda>t. tk_id t = tk_id v) NoOrder
      (bump (task_tab_update (update_rows (claim_guard v) (claim_row wk (clk e (tick ?b)))) (bump (bump ?b)))) \<noteq> []"
    by auto
  then show ?thesis using v upd quiet reread
    by (auto simp: fetch_one_todo_def transaction_def sql_quiet ok_def and_then_def find_one_def now_def
        update_many_def err_def split: option.splits)
qed

theorem fetch_one_todo_total:
  assumes "keyed task_tab tk_id w"
  shows "((\<forall>i. db_fault e i = None) \<longrightarrow>
      is_ok (fst (fetch_one_todo e wk types w)) = (\<exists>u \<in> set (task_tab w). is_todo types u)) \<and>
    (\<not> is_ok (fst (fetch_one_todo e wk types w)) \<longrightarrow> same_tabs w (snd (fetch_one_todo e wk types w)))"
proof (intro conjI impI)
  assume "\<forall>i. db_fault e i = None"
  then show "is_ok (fst (fetch_one_todo e wk types w)) = (\<exists>u \<in> set (task_tab w). is_todo types u)"
    using fetch_one_todo_finds[OF _ assms] fetch_one_todo_claims[OF assms]
    by (metis is_ok_iff prod.collapse)
next
  assume "\<not> is_ok (fst (fetch_one_todo e wk types w))"
  then show "same_tabs w (snd (fetch_one_todo e wk types w))"
    using transaction_not_ok[OF prod.collapse[symmetric]]
    by (simp add: fetch_one_todo_def same_tabs_def)
qed

theorem fetch_one_todo_total_witness:
  "is_ok (fst (fetch_one_todo quiet ''w9'' (Some [C2]) busy_world)) \<and>
   same_tabs busy_world (snd (fetch_one_todo quiet ''w9'' (Some []) busy_world))"
  using fetch_one_todo_total[OF busy_inv(1), of quiet "''w9''" "Some [C2]"]
    fetch_one_todo_total[OF busy_inv(1), of quiet "''w9''" "Some []"]
  by (simp add: busy_world_def mk_task_def is_todo_def)

section \<open>No task is handed out twice\<close>

text \<open>The keys a sequence of requests hands out, one after the other.\<close>

fun claims :: "('r \<Rightarrow> 's \<Rightarrow> 's) \<Rightarrow> ('r \<Rightarrow> 's \<Rightarrow> 'k option) \<Rightarrow> 'r list \<Rightarrow> 's \<Rightarrow> 'k list" where
  "claims step claim [] s = []"
| "claims step claim (r # rs) s =
     (case claim r s of None \<Rightarrow> [] | Some k \<Rightarrow> [k]) @ claims step claim rs (step r s)"

text \<open>
  What a queue must promise for that: a key is handed out only if it is not taken,
  is taken afterwards, and taken keys stay taken.
\<close>

locale claim_queue =
  fixes step :: "'r \<Rightarrow> 's \<Rightarrow> 's"
    and claim :: "'r \<Rightarrow> 's \<Rightarrow> 'k option"
    and taken :: "'s \<Rightarrow> 'k set"
    and safe :: "'r \<Rightarrow> bool"
    and inv :: "'s \<Rightarrow> bool"
  assumes inv_step: "inv s \<Longrightarrow> inv (step r s)"
    and taken_mono: "safe r \<Longrightarrow> taken s \<subseteq> taken (step r s)"
    and claim_fresh: "inv s \<Longrightarrow> claim r s = Some k \<Longrightarrow> k \<notin> taken s"
    and claim_taken: "inv s \<Longrightarrow> claim r s = Some k \<Longrightarrow> k \<in> taken (step r s)"
begin

lemma claims_fresh:
  "list_all safe rs \<Longrightarrow> inv s \<Longrightarrow> set (claims step claim rs s) \<inter> taken s = {}"
proof (induction rs arbitrary: s)
  case (Cons r rs)
  then have "set (claims step claim rs (step r s)) \<inter> taken (step r s) = {}" by (simp add: inv_step)
  with taken_mono[of r s] Cons.prems have "set (claims step claim rs (step r s)) \<inter> taken s = {}" by auto
  with claim_fresh[OF Cons.prems(2)] show ?case by (auto split: option.splits)
qed simp

lemma claims_distinct: "list_all safe rs \<Longrightarrow> inv s \<Longrightarrow> distinct (claims step claim rs s)"
proof (induction rs arbitrary: s)
  case (Cons r rs)
  then have IH: "distinct (claims step claim rs (step r s))" by (simp add: inv_step)
  have "set (claims step claim rs (step r s)) \<inter> taken (step r s) = {}"
    using Cons.prems by (simp add: claims_fresh inv_step)
  with IH claim_taken[OF Cons.prems(2), of r] show ?case by (auto split: option.splits)
qed simp

end

text \<open>The queue as its clients see it through \<open>WrapClient\<close>: an exchange may lose its
  request or its reply, and hands out the task of a \<open>FetchTodo\<close> that comes back.\<close>

definition exchange :: "('addr, 'c1) ext \<Rightarrow> env \<Rightarrow> backend \<Rightarrow> request \<Rightarrow> world \<Rightarrow> world" where
  "exchange x e b r w = snd (rpc_call x e b r w)"

definition handed_out :: "('addr, 'c1) ext \<Rightarrow> env \<Rightarrow> backend \<Rightarrow> request \<Rightarrow> world \<Rightarrow> string option" where
  "handed_out x e b r w =
     (case r of
        FetchTodo wk types \<Rightarrow> (case fst (wc_fetch_one_todo x e b wk types w) of Ok t \<Rightarrow> Some (tk_id t) | _ \<Rightarrow> None)
      | _ \<Rightarrow> None)"

lemma rpc_call_snd:
  "snd (rpc_call x e b r w) = bump w \<or> snd (rpc_call x e b r w) = snd (serve x e b r (bump w))"
  by (auto simp: rpc_call_def split: delivery.splits result.splits prod.splits)

lemma rpc_call_Ok: "rpc_call x e b r w = (Ok a, w') \<Longrightarrow> serve x e b r (bump w) = (Ok a, w')"
  by (auto simp: rpc_call_def split: delivery.splits result.splits prod.splits)

lemma rpc_call_evolves:
  assumes "world_rel R" "evolves R (serve x e b r)"
  shows "evolves R (rpc_call x e b r)"
proof (rule evolvesI)
  fix w
  have "R w (bump w)" using assms(1) by (rule world_rel.bump)
  moreover have "R (bump w) (snd (serve x e b r (bump w)))" using assms(2) by (rule evolvesD)
  ultimately show "R w (snd (rpc_call x e b r w))"
    using rpc_call_snd[of x e b r w] step_rel.trans[OF world_rel.axioms(1)[OF assms(1)]] by metis
qed

lemma handed_out_Some:
  assumes "handed_out x e b r w = Some k"
  obtains wk types t w' where "r = FetchTodo wk types" "tk_id t = k"
    "fetch_one_todo e wk types (bump w) = (Ok t, w')" "exchange x e b r w = w'"
proof -
  from assms obtain wk types t where r: "r = FetchTodo wk types" "tk_id t = k"
    and ok: "fst (wc_fetch_one_todo x e b wk types w) = Ok t"
    by (auto simp: handed_out_def split: request.splits result.splits)
  from ok obtain w'' where "wc_fetch_one_todo x e b wk types w = (Ok t, w'')" by (metis prod.collapse)
  then obtain a w' where call: "rpc_call x e b r w = (Ok a, w')" and a: "expect_task a w' = (Ok t, w'')"
    by (auto simp: wc_fetch_one_todo_def and_then_Ok_iff r)
  from rpc_call_Ok[OF call] have "\<exists>s. a = RTask s \<and> fetch_one_todo e wk types (bump w) = (Ok s, w')"
    by (auto simp: r map_ok_Ok_iff fetch_todo_def internal_call_error_Ok)
  with a have "fetch_one_todo e wk types (bump w) = (Ok t, w')"
    by (auto simp: expect_task_def ok_def)
  with r call that show thesis by (simp add: exchange_def)
qed

interpretation handout: claim_queue "exchange x e b" "handed_out x e b" past_ids claim_safe
  "keyed task_tab tk_id" for x e b
proof (unfold_locales, goal_cases)
  case (1 w r)
  then show ?case
    using evolvesD[OF rpc_call_evolves[OF tk.keep.world_rel_axioms serve_keyed_tasks], of w x e b r]
    by (simp add: exchange_def)
next
  case (2 r w)
  then show ?case
    using evolvesD[OF rpc_call_evolves[OF sp.world_rel_axioms serve_stays_past], of r w x e b]
    by (simp add: exchange_def stays_past_def)
next
  case (3 w r k)
  from 3(2) obtain wk types t w' where f: "tk_id t = k" "fetch_one_todo e wk types (bump w) = (Ok t, w')"
    by (rule handed_out_Some) blast
  have "keyed task_tab tk_id (bump w)" using 3(1) by (simp add: keyed_def)
  from fetch_one_todo_Ok[OF this f(2)] obtain u n where "u \<in> set (task_tab w)" "is_todo types u" "t = claim_row wk n u"
    by (metis bump_simps(2))
  with past_not_todo[OF 3(1)] f(1) show ?case by auto
next
  case (4 w r k)
  from 4(2) obtain wk types t w' where f: "tk_id t = k" "fetch_one_todo e wk types (bump w) = (Ok t, w')"
    "exchange x e b r w = w'"
    by (rule handed_out_Some) blast
  have "keyed task_tab tk_id (bump w)" using 4(1) by (simp add: keyed_def)
  from fetch_one_todo_claims[OF this f(2)] obtain u n where u: "u \<in> set (task_tab w)"
    "t = u\<lparr>tk_state := Running, tk_worker_id := wk, tk_start_at := n\<rparr>"
    "task_tab w' = map (\<lambda>r. if tk_id r = tk_id u then t else r) (task_tab w)"
    by auto
  then have "t \<in> set (task_tab w')" by force
  moreover have "Init < tk_state t" using u(2) by (simp add: past_Init_iff)
  ultimately show ?case using f(1,3) unfolding past_ids_iff by blast
qed

text \<open>C1. Over any sequence of remote calls of any clients, with any losses of requests and
  replies and any database faults, no task is handed out twice, unless somebody
  resets the state of tasks by \<open>UpdateStatusById\<close>.\<close>

theorem no_task_handed_out_twice:
  assumes "db_inv w" "list_all claim_safe rs"
  shows "distinct (claims (exchange x e b) (handed_out x e b) rs w)"
  using assms(1) by (intro handout.claims_distinct[OF assms(2)]) (simp add: db_inv_def)

definition demo_requests :: "request list" where
  "demo_requests = [FetchTodo ''w1'' None, FetchTodo ''w2'' (Some [C2]), RecordError ''w1'' ''t2'' ''gpu lost'', FetchTodo ''w1'' None]"

theorem no_task_handed_out_twice_witness:
  "claims (exchange demo_ext quiet DbResource) (handed_out demo_ext quiet DbResource) demo_requests busy_world
     = [''t2'', ''t1'', ''t4''] \<and>
   distinct (claims (exchange demo_ext quiet DbResource) (handed_out demo_ext quiet DbResource) demo_requests busy_world)"
proof
  show "claims (exchange demo_ext quiet DbResource) (handed_out demo_ext quiet DbResource) demo_requests busy_world
     = [''t2'', ''t1'', ''t4'']" by code_simp
  show "distinct (claims (exchange demo_ext quiet DbResource) (handed_out demo_ext quiet DbResource) demo_requests busy_world)"
    by (rule no_task_handed_out_twice[OF busy_inv(3)]) (simp add: demo_requests_def)
qed

section \<open>Interleaved statements\<close>

text \<open>
  The same rule when the database does not serialise transactions: any number of
  claimants run \<open>fetch_one_todo\<close> and the statements of different claimants
  interleave. A claimant has picked a row (\<open>Picked\<close>), has updated it and is to commit
  (\<open>Holding\<close>, with the row as it was), or is done. A claim can be undone by a rollback.
\<close>

datatype pc = Idle | Picked task | Holding task | Finished task | GaveUp

record race =
  rw :: world
  pcs :: "nat \<Rightarrow> pc"

definition holds :: "race \<Rightarrow> nat \<Rightarrow> string \<Rightarrow> bool" where
  "holds s i k \<longleftrightarrow> (\<exists>u. (pcs s i = Holding u \<or> pcs s i = Finished u) \<and> tk_id u = k)"

inductive race_step :: "env \<Rightarrow> (nat \<Rightarrow> string) \<Rightarrow> (nat \<Rightarrow> task_type list option) \<Rightarrow> race \<Rightarrow> race \<Rightarrow> bool"
  for e who types where
  pick: "pcs s i = Idle \<Longrightarrow>
     find_one e task_tab (is_todo (types i)) (Asc tk_create_at) (rw s) = (Ok (Some u), w') \<Longrightarrow>
     race_step e who types s (s\<lparr>rw := w', pcs := (pcs s)(i := Picked u)\<rparr>)"
| none: "pcs s i = Idle \<Longrightarrow>
     find_one e task_tab (is_todo (types i)) (Asc tk_create_at) (rw s) = (Ok None, w') \<Longrightarrow>
     race_step e who types s (s\<lparr>rw := w', pcs := (pcs s)(i := GaveUp)\<rparr>)"
| won: "pcs s i = Picked u \<Longrightarrow>
     update_many e task_tab task_tab_update (claim_guard u) (claim_row (who i) n) (rw s) = (Ok k, w') \<Longrightarrow>
     k \<noteq> 0 \<Longrightarrow>
     race_step e who types s (s\<lparr>rw := w', pcs := (pcs s)(i := Holding u)\<rparr>)"
| lost: "pcs s i = Picked u \<Longrightarrow>
     update_many e task_tab task_tab_update (claim_guard u) (claim_row (who i) n) (rw s) = (Ok 0, w') \<Longrightarrow>
     race_step e who types s (s\<lparr>rw := w', pcs := (pcs s)(i := GaveUp)\<rparr>)"
| commit: "pcs s i = Holding u \<Longrightarrow>
     race_step e who types s (s\<lparr>pcs := (pcs s)(i := Finished u)\<rparr>)"
| undo: "pcs s i = Holding u \<Longrightarrow>
     race_step e who types s
       (s\<lparr>rw := task_tab_update (update_rows (\<lambda>t. tk_id t = tk_id u) (\<lambda>_. u)) (rw s), pcs := (pcs s)(i := GaveUp)\<rparr>)"
| fault: "pcs s i = Idle \<or> pcs s i = Picked u \<Longrightarrow>
     race_step e who types s (s\<lparr>rw := bump (rw s), pcs := (pcs s)(i := GaveUp)\<rparr>)"

inductive_cases race_stepE: "race_step e who types s s'"

inductive race_reach :: "env \<Rightarrow> (nat \<Rightarrow> string) \<Rightarrow> (nat \<Rightarrow> task_type list option) \<Rightarrow> world \<Rightarrow> race \<Rightarrow> bool"
  for e who types w0 where
  start: "race_reach e who types w0 \<lparr>rw = w0, pcs = (\<lambda>_. Idle)\<rparr>"
| step: "race_reach e who types w0 s \<Longrightarrow> race_step e who types s s' \<Longrightarrow> race_reach e who types w0 s'"

text \<open>The invariant: a held row is no longer open, and no two claimants hold the same row.\<close>

definition closed_ids :: "world \<Rightarrow> string set" where
  "closed_ids w = tk_id ` {t \<in> set (task_tab w). tk_state t \<noteq> Init}"

definition race_inv :: "race \<Rightarrow> bool" where
  "race_inv s \<longleftrightarrow> keyed task_tab tk_id (rw s) \<and>
     (\<forall>i k. holds s i k \<longrightarrow> k \<in> closed_ids (rw s)) \<and>
     (\<forall>i j k. holds s i k \<longrightarrow> holds s j k \<longrightarrow> i = j)"

lemma closed_ids_tab: "task_tab w = task_tab w' \<Longrightarrow> closed_ids w = closed_ids w'"
  by (simp add: closed_ids_def)

lemma claim_winner_open:
  assumes "keyed task_tab tk_id w" "length (filter (claim_guard u) (task_tab w)) \<noteq> 0"
  shows "tk_id u \<notin> closed_ids w"
proof
  assume "tk_id u \<in> closed_ids w"
  then obtain t where t: "t \<in> set (task_tab w)" "tk_id t = tk_id u" "tk_state t \<noteq> Init"
    by (auto simp: closed_ids_def)
  from assms(2) obtain v where "v \<in> set (task_tab w)" "claim_guard u v"
    by (metis (no_types, lifting) filter_empty_conv length_0_conv)
  with t assms(1) distinct_keys_same[of tk_id "task_tab w" t v] show False
    by (auto simp: claim_guard_def keyed_def)
qed

lemma closed_after_claim:
  "closed_ids (task_tab_update (update_rows (claim_guard u) (claim_row wk n)) w) =
   closed_ids w \<union> tk_id ` set (filter (claim_guard u) (task_tab w))"
proof -
  have "(\<exists>t\<in>set (update_rows (claim_guard u) (claim_row wk n) (task_tab w)). tk_id t = k \<and> tk_state t \<noteq> Init) \<longleftrightarrow>
      (\<exists>t\<in>set (task_tab w). tk_id t = k \<and> (tk_state t \<noteq> Init \<or> claim_guard u t))" for k
    unfolding update_rows_def set_map bex_simps(7) by (auto simp: claim_guard_def)
  then show ?thesis unfolding closed_ids_def by (auto simp: image_iff) (metis task.select_convs(1))+
qed

lemma closed_after_undo:
  "k \<noteq> tk_id u \<Longrightarrow> k \<in> closed_ids w \<Longrightarrow>
   k \<in> closed_ids (task_tab_update (update_rows (\<lambda>t. tk_id t = tk_id u) (\<lambda>_. u)) w)"
  by (auto simp: closed_ids_def set_update_rows image_iff)

lemma race_step_inv:
  assumes "race_step e who types s s'" "race_inv s"
  shows "race_inv s'"
  using assms
proof (induction rule: race_step.induct)
  case (won s i u n k w')
  have key: "keyed task_tab tk_id (rw s)" using won.prems by (simp add: race_inv_def)
  have w': "w' = task_tab_update (update_rows (claim_guard u) (claim_row (who i) n)) (bump (rw s))"
    and k: "length (filter (claim_guard u) (task_tab (rw s))) \<noteq> 0"
    using won.hyps by (auto simp: update_many_Ok_iff)
  have free: "tk_id u \<notin> closed_ids (rw s)" using key k by (rule claim_winner_open)
  have closed: "closed_ids w' = closed_ids (rw s) \<union> {tk_id u}"
    using k unfolding w' closed_after_claim
    by (auto simp: closed_ids_tab[of "bump (rw s)" "rw s"] claim_guard_def filter_empty_conv)
  have hold: "holds (s\<lparr>rw := w', pcs := (pcs s)(i := Holding u)\<rparr>) j m \<longleftrightarrow>
      (if j = i then m = tk_id u else holds s j m)" for j m
    by (auto simp: holds_def)
  have "keyed task_tab tk_id w'" using key unfolding w' by (simp add: keyed_def map_update_rows)
  with won.prems closed free show ?case
    unfolding race_inv_def hold by (auto split: if_splits)
next
  case (undo s i u)
  have hold: "holds (s\<lparr>rw := r, pcs := (pcs s)(i := GaveUp)\<rparr>) j m \<longleftrightarrow> j \<noteq> i \<and> holds s j m" for r j m
    by (auto simp: holds_def)
  have "holds s i (tk_id u)" using undo.hyps by (auto simp: holds_def)
  then have other: "m \<noteq> tk_id u" if "holds s j m" "j \<noteq> i" for j m
    using that undo.prems by (auto simp: race_inv_def)
  have "keyed task_tab tk_id (task_tab_update (update_rows (\<lambda>t. tk_id t = tk_id u) (\<lambda>_. u)) (rw s))"
    using undo.prems by (auto simp: race_inv_def keyed_def update_rows_def comp_def if_distrib cong: if_cong)
  with undo.prems other show ?case
    unfolding race_inv_def hold by (auto intro!: closed_after_undo)
next
  case (lost s i u n w')
  then show ?case
    by (auto simp: race_inv_def holds_def update_many_Ok_iff keyed_def filter_empty_conv update_rows_none
        closed_ids_def)
next
  case (commit s i u)
  have "holds (s\<lparr>pcs := (pcs s)(i := Finished u)\<rparr>) j m \<longleftrightarrow> holds s j m" for j m
    using commit.hyps by (auto simp: holds_def)
  with commit.prems show ?case by (simp add: race_inv_def)
qed (auto simp: race_inv_def holds_def find_one_Ok_iff keyed_def closed_ids_def)

lemma race_reach_inv: "race_reach e who types w0 s \<Longrightarrow> keyed task_tab tk_id w0 \<Longrightarrow> race_inv s"
  by (induction rule: race_reach.induct) (simp_all add: race_step_inv, simp add: race_inv_def holds_def)

text \<open>C2. However the statements of concurrent \<open>fetch_one_todo\<close> calls interleave, and whichever
  of them fail or roll back, no two callers ever hold a claim on the same task.\<close>

theorem interleaved_claims_exclusive:
  assumes "keyed task_tab tk_id w0" "race_reach e who types w0 s" "holds s i k" "holds s j k"
  shows "i = j"
  using race_reach_inv[OF assms(2,1)] assms(3,4) by (simp add: race_inv_def)

definition one_task_world :: world where
  "one_task_world = empty_world\<lparr>task_tab := [mk_task ''t'' ''r'' Init '''' 1]\<rparr>"

lemma demo_race:
  "\<exists>s. race_reach quiet (\<lambda>_. ''w'') (\<lambda>_. None) one_task_world s \<and> holds s 0 ''t'' \<and> pcs s 1 = GaveUp"
proof -
  let ?t = "mk_task ''t'' ''r'' Init '''' 1"
  let ?w = one_task_world
  let ?R = "race_reach quiet (\<lambda>_. ''w'') (\<lambda>_. None) ?w"
  have todo: "is_todo None ?t" and tab: "task_tab ?w = [?t]"
    by (simp_all add: is_todo_def mk_task_def one_task_world_def)
  let ?s0 = "\<lparr>rw = ?w, pcs = (\<lambda>_. Idle)\<rparr>"
  let ?s1 = "?s0\<lparr>rw := bump ?w, pcs := (pcs ?s0)(0 := Picked ?t)\<rparr>"
  let ?s2 = "?s1\<lparr>rw := bump (bump ?w), pcs := (pcs ?s1)(1 := Picked ?t)\<rparr>"
  let ?w3 = "task_tab_update (update_rows (claim_guard ?t) (claim_row ''w'' 7)) (bump (bump (bump ?w)))"
  let ?s3 = "?s2\<lparr>rw := ?w3, pcs := (pcs ?s2)(0 := Holding ?t)\<rparr>"
  let ?w4 = "task_tab_update (update_rows (claim_guard ?t) (claim_row ''w'' 8)) (bump ?w3)"
  let ?s4 = "?s3\<lparr>rw := ?w4, pcs := (pcs ?s3)(1 := GaveUp)\<rparr>"
  have "?R ?s0" by (rule race_reach.start)
  then have "?R ?s1"
    by (rule race_reach.step) (rule race_step.pick; simp add: find_one_Ok_iff query_single todo tab)
  then have "?R ?s2"
    by (rule race_reach.step) (rule race_step.pick; simp add: find_one_Ok_iff query_single todo tab)
  then have "?R ?s3"
    by (rule race_reach.step)
      (rule race_step.won[where n = 7 and k = 1]; simp add: update_many_Ok_iff claim_guard_def mk_task_def tab)
  then have "?R ?s4"
    by (rule race_reach.step)
      (rule race_step.lost[where n = 8 and u = ?t]; simp add: update_many_Ok_iff claim_guard_def mk_task_def tab)
  moreover have "holds ?s4 0 ''t''" "pcs ?s4 1 = GaveUp" by (simp_all add: holds_def mk_task_def)
  ultimately show ?thesis by blast
qed

theorem interleaved_claims_exclusive_witness:
  "\<exists>s. holds s 0 ''t'' \<and> pcs s 1 = GaveUp \<and> (\<forall>j. holds s j ''t'' \<longrightarrow> 0 = j)"
proof -
  have key: "keyed task_tab tk_id one_task_world" by (simp add: keyed_def one_task_world_def)
  obtain s where s: "race_reach quiet (\<lambda>_. ''w'') (\<lambda>_. None) one_task_world s" "holds s 0 ''t''" "pcs s 1 = GaveUp"
    using demo_race by blast
  with interleaved_claims_exclusive[OF key s(1) s(2)] show ?thesis by blast
qed

section \<open>Histories of the tables\<close>

lemma run_requests_rel:
  assumes "world_rel R" "\<And>r. r \<in> set rs \<Longrightarrow> evolves R (serve x e b r)"
  shows "R w (run_requests x e b rs w)"
  using assms(2)
proof (induction rs arbitrary: w)
  case Nil
  show ?case using step_rel.refl[OF world_rel.axioms(1)[OF assms(1)]] by simp
next
  case (Cons r rs)
  have "R w (snd (serve x e b r w))" by (rule evolvesD) (simp add: Cons.prems)
  moreover have "R (snd (serve x e b r w)) (run_requests x e b rs (snd (serve x e b r w)))"
    using Cons.IH Cons.prems by (meson list.set_intros(2))
  ultimately have "R w (run_requests x e b rs (snd (serve x e b r w)))"
    by (rule step_rel.trans[OF world_rel.axioms(1)[OF assms(1)]])
  then show ?case by simp
qed

text \<open>C18. After any sequence of requests, whatever their outcomes, every task that was there is
  still there, at its place, with its id, miner, resource, type, comment and creation
  time unchanged; new tasks come after the old ones.\<close>

theorem task_history_append_only:
  "\<exists>new. map task_core (task_tab (run_requests x e b rs w)) = map task_core (task_tab w) @ new"
proof -
  have "grows w (run_requests x e b rs w)"
    by (rule run_requests_rel[OF gr.world_rel_axioms serve_grows])
  then show ?thesis by (auto simp: grows_def prefix_def)
qed

text \<open>C19. Every sequence of requests keeps the invariants of the database: unique primary keys,
  one row for each reporting worker and at most one worker identity.\<close>

theorem requests_keep_db_inv:
  assumes "db_inv w"
  shows "db_inv (run_requests x e b rs w)"
  using assms
proof (induction rs arbitrary: w)
  case (Cons r rs)
  then show ?case using preservesD[OF serve_db_inv, of w x e b r] by simp
qed simp

theorem requests_keep_db_inv_witness: "db_inv (run_requests demo_ext quiet DbResource demo_requests busy_world)"
  by (rule requests_keep_db_inv[OF busy_inv(3)])

end
