(* ===== verification/Submission.thy ===== *)
theory Submission
  imports Task_Handout
begin

text \<open>
  The life of a task's parameters: how ids are derived, what a submission
  guarantees, what resubmitting does, and what recording a result or an error
  does to the task and to the stored resource, on both kinds of store.
\<close>

section \<open>Ids\<close>

lemma gen_task_id_inj:
  assumes no_collision: "inj_on (uuid_v5 x) {b, b', task_id_buf x a t b, task_id_buf x a' t' b'}"
    and len: "length (uuid_v5 x b) = length (uuid_v5 x b')"
    and same: "gen_task_id x a t b = gen_task_id x a' t' b'"
  shows "addr_payload_bytes x a = addr_payload_bytes x a' \<and> t = t' \<and> b = b'"
proof -
  have "task_id_buf x a t b = task_id_buf x a' t' b'"
    using same no_collision by (auto simp: gen_task_id_def dest: inj_onD)
  then have "addr_payload_bytes x a = addr_payload_bytes x a'" "t = t'" "gen_resource_id x b = gen_resource_id x b'"
    using task_id_buf_inj[of x b b'] len by (simp_all add: gen_resource_id_def)
  with no_collision show ?thesis by (auto simp: gen_resource_id_def dest: inj_onD)
qed

text \<open>Equal task ids mean equal parameters: as long as the version 5 UUID does not
  collide on the inputs concerned and renders ids of one length, two submissions share a task id
  only if the address payloads, the task types and the parameter bytes are the same.\<close>

theorem gen_task_id_injective:
  assumes no_collision: "inj_on (uuid_v5 x) {b, b', task_id_buf x a t b, task_id_buf x a' t' b'}"
    and len: "length (uuid_v5 x b) = length (uuid_v5 x b')"
    and same: "gen_task_id x a t b = gen_task_id x a' t' b'"
  shows "addr_payload_bytes x a = addr_payload_bytes x a' \<and> t = t' \<and> b = b'"
  by (rule gen_task_id_inj[OF assms])

theorem gen_task_id_injective_witness:
  "gen_task_id demo_ext ''f01'' C2 [1] = gen_task_id demo_ext ''f01'' C2 [1] \<and> (C2 = C2 \<and> [1::byte] = [1])"
proof -
  let ?b = "[1::byte]"
  let ?buf = "task_id_buf demo_ext ''f01'' C2 ?b"
  have "uuid_v5 demo_ext ?b \<noteq> uuid_v5 demo_ext ?buf" by code_simp
  then have inj: "inj_on (uuid_v5 demo_ext) {?b, ?b, ?buf, ?buf}" by (auto simp: inj_on_def)
  from gen_task_id_injective[OF inj HOL.refl HOL.refl] show ?thesis by simp
qed

section \<open>Submitting\<close>

lemma cond_internal_Ok:
  "(if c then ok () else map_ok (\<lambda>_. ()) (internal_call_error m)) w = (Ok u, w') \<longleftrightarrow>
   (if c then w' = w else \<exists>k. m w = (Ok k, w'))"
  by (auto simp: ok_Ok_iff map_ok_Ok_iff internal_call_error_Ok)

lemma look_of_bump [simp]: "look_of b (bump w) = look_of b w"
  by (cases b) (simp_all add: look_of_def file_look_def fun_eq_iff)

lemma look_of_tasks: "only_tasks w w' \<Longrightarrow> look_of b w' = look_of b w"
  by (cases b) (simp_all add: only_tasks_def look_of_def file_look_def res_look_def fun_eq_iff)

lemma task_tab_store: "only_store w w' \<Longrightarrow> task_tab w' = task_tab w"
  by (simp add: only_store_def)

lemma storage_task_tab:
  "has_resource b e i w = (r1, w') \<Longrightarrow> task_tab w' = task_tab w"
  "store_resource_info b e i d w = (r2, w') \<Longrightarrow> task_tab w' = task_tab w"
  "delete_resource b e i w = (r3, w') \<Longrightarrow> task_tab w' = task_tab w"
  "get_resource_info b e i w = (r4, w') \<Longrightarrow> task_tab w' = task_tab w"
  by (drule evolves_Ok[OF backend_only_store(1)] evolves_Ok[OF backend_only_store(2)]
      evolves_Ok[OF backend_only_store(3)] evolves_Ok[OF backend_only_store(4)], erule task_tab_store)+

lemma has_task_Ok: "has_task e i w = (Ok known, w') \<longleftrightarrow>
    db_fault e (tick w) = None \<and> w' = bump w \<and> (known \<longleftrightarrow> i \<in> tk_id ` set (task_tab w))"
  by (auto simp: has_task_def stmt_Ok_iff filter_empty_conv image_iff)

lemma db_add_task_Ok: "db_add_task x e i a ty r c w = (Ok s, w') \<Longrightarrow>
    s = i \<and> i \<notin> tk_id ` set (task_tab w) \<and>
    (\<exists>miner n. miner_noprefix (addr_to_string x a) = Ok miner \<and> task_tab w' = task_tab w @
      [\<lparr>tk_id = i, tk_miner = miner, tk_resource_id = r, tk_proof = [], tk_worker_id = '''', tk_type = ty,
        tk_error_msg = '''', tk_comment = c, tk_state = Init, tk_create_at = n, tk_start_at = 0, tk_complete_at = 0\<rparr>])"
  by (auto simp: db_add_task_def stmt_Ok_iff)

text \<open>The statements of a submission that succeeds.\<close>

lemma add_task_inner_Ok:
  assumes run: "add_task_inner x e b addr comment ty d w = (Ok tid, w')"
  obtains has w1 w2 known w3 where
    "has_resource b e (gen_resource_id x d) w = (Ok has, w1)"
    "if has then w2 = w1 else \<exists>k. store_resource_info b e (gen_resource_id x d) d w1 = (Ok k, w2)"
    "if known then w' = w3 else \<exists>k. db_add_task x e (gen_task_id x addr ty d) addr ty (gen_resource_id x d) comment w3 = (Ok k, w')"
    "tid = gen_task_id x addr ty d" "task_tab w2 = task_tab w" "w3 = bump w2"
    "known \<longleftrightarrow> gen_task_id x addr ty d \<in> tk_id ` set (task_tab w)"
proof -
  let ?rid = "gen_resource_id x d" and ?tid = "gen_task_id x addr ty d"
  from run obtain has w1 w2 known w3 where
    h: "has_resource b e ?rid w = (Ok has, w1)"
    and s: "if has then w2 = w1 else \<exists>k. store_resource_info b e ?rid d w1 = (Ok k, w2)"
    and t: "has_task e ?tid w2 = (Ok known, w3)"
    and a: "if known then w' = w3 else \<exists>k. db_add_task x e ?tid addr ty ?rid comment w3 = (Ok k, w')"
    and tid: "tid = ?tid"
    by (auto simp: add_task_inner_def Let_def and_then_Ok_iff map_err_Ok_iff cond_internal_Ok ok_Ok_iff
        simp del: split_paired_Ex)
  have tab2: "task_tab w2 = task_tab w"
    using storage_task_tab(1)[OF h] s storage_task_tab(2) by (metis (full_types))
  from t have "w3 = bump w2" "known \<longleftrightarrow> ?tid \<in> tk_id ` set (task_tab w)"
    by (simp_all add: has_task_Ok tab2)
  with that h s a tid tab2 show thesis by blast
qed

text \<open>C9. A submission that succeeds, on either store, returns the task id derived from its
  parameters, leaves the parameters stored under their own id, and the task table either
  already had that task and is unchanged, or has one new open row made from the request.
  What was stored under the resource id before has to be the same bytes, if anything.\<close>

theorem submission_contract:
  assumes rid: "rel_id (gen_resource_id x d)"
    and prior: "look_of b w (gen_resource_id x d) \<in> {None, Some d}"
    and run: "add_task_inner x e b addr comment ty d w = (Ok tid, w')"
  shows "tid = gen_task_id x addr ty d \<and> look_of b w' (gen_resource_id x d) = Some d \<and>
    (if tid \<in> tk_id ` set (task_tab w) then task_tab w' = task_tab w
     else \<exists>miner n. miner_noprefix (addr_to_string x addr) = Ok miner \<and> task_tab w' = task_tab w @
       [\<lparr>tk_id = tid, tk_miner = miner, tk_resource_id = gen_resource_id x d, tk_proof = [],
         tk_worker_id = '''', tk_type = ty, tk_error_msg = '''', tk_comment = comment, tk_state = Init,
         tk_create_at = n, tk_start_at = 0, tk_complete_at = 0\<rparr>])"
proof -
  let ?rid = "gen_resource_id x d" and ?tid = "gen_task_id x addr ty d"
  obtain has w1 w2 known w3 where
    h: "has_resource b e ?rid w = (Ok has, w1)"
    and s: "if has then w2 = w1 else \<exists>k. store_resource_info b e ?rid d w1 = (Ok k, w2)"
    and a: "if known then w' = w3 else \<exists>k. db_add_task x e ?tid addr ty ?rid comment w3 = (Ok k, w')"
    and tid: "tid = ?tid" and tab2: "task_tab w2 = task_tab w"
    and w3: "w3 = bump w2" "known \<longleftrightarrow> ?tid \<in> tk_id ` set (task_tab w)"
    by (rule add_task_inner_Ok[OF run]) blast
  have stored: "look_of b w2 ?rid = Some d"
    using backend_store.store_if_missing[OF rid h s] prior by auto
  show ?thesis
  proof (cases known)
    case True
    with a w3 tid stored tab2 show ?thesis by simp
  next
    case False
    with a obtain k where add: "db_add_task x e ?tid addr ty ?rid comment w3 = (Ok k, w')" by auto
    have "look_of b w' = look_of b w3" by (rule look_of_tasks[OF evolves_Ok[OF task_ops_only_tasks(1) add]])
    with stored w3 tid db_add_task_Ok[OF add] False tab2 show ?thesis by auto
  qed
qed

lemma demo_submission:
  "\<exists>w'. add_task_inner demo_ext quiet (FileResource ''/data'') ''f01000'' ''s-1'' C2 [7, 8] empty_world =
     (Ok (gen_task_id demo_ext ''f01000'' C2 [7, 8]), w')"
proof -
  have "is_ok (fst (add_task_inner demo_ext quiet (FileResource ''/data'') ''f01000'' ''s-1'' C2 [7, 8] empty_world))"
    by code_simp
  moreover have "fst (add_task_inner demo_ext quiet (FileResource ''/data'') ''f01000'' ''s-1'' C2 [7, 8] empty_world) =
      Ok (gen_task_id demo_ext ''f01000'' C2 [7, 8])" by code_simp
  ultimately show ?thesis by (metis prod.collapse)
qed

theorem submission_contract_witness:
  "\<exists>w'. add_task_inner demo_ext quiet (FileResource ''/data'') ''f01000'' ''s-1'' C2 [7, 8] empty_world =
      (Ok (gen_task_id demo_ext ''f01000'' C2 [7, 8]), w') \<and>
    look_of (FileResource ''/data'') w' (gen_resource_id demo_ext [7, 8]) = Some [7, 8] \<and>
    length (task_tab w') = 1"
proof -
  from demo_submission obtain w' where
    run: "add_task_inner demo_ext quiet (FileResource ''/data'') ''f01000'' ''s-1'' C2 [7, 8] empty_world =
      (Ok (gen_task_id demo_ext ''f01000'' C2 [7, 8]), w')" by blast
  have rid: "rel_id (gen_resource_id demo_ext [7, 8])" by code_simp
  have prior: "look_of (FileResource ''/data'') empty_world (gen_resource_id demo_ext [7, 8]) \<in> {None, Some [7, 8]}"
    by (simp add: look_of_def file_look_def empty_world_def)
  from submission_contract[OF rid prior run] run show ?thesis by (auto simp: empty_world_def)
qed

lemma has_resource_quiet:
  assumes "\<forall>i. db_fault e i = None" "\<forall>i. io_fault e i = None"
  shows "has_resource b e i w = (Ok (look_of b w i \<noteq> None), bump w)"
  using assms res_look_eq_None[of w i]
  by (cases b) (auto simp: backend_ops db_has_resource_def map_ok_def count_rows_def sql_def file_has_resource_def
      fs_is_file_def file_look_def filter_empty_conv image_iff split: option.splits)

text \<open>C26. Submitting the same parameters again changes nothing: when the task and its
  resource are there and no statement fails, the same id comes back, with the comment of the new
  submission dropped, and tasks and stored resources stay as they are.\<close>

theorem resubmission_idempotent:
  assumes "\<forall>i. db_fault e i = None" "\<forall>i. io_fault e i = None"
    and "gen_task_id x addr ty d \<in> tk_id ` set (task_tab w)"
    and "look_of b w (gen_resource_id x d) = Some d"
  shows "\<exists>w'. add_task_inner x e b addr comment ty d w = (Ok (gen_task_id x addr ty d), w') \<and>
     task_tab w' = task_tab w \<and> look_of b w' = look_of b w"
proof -
  have "has_task e (gen_task_id x addr ty d) (bump w) = (Ok True, bump (bump w))"
    using assms(1,3) by (simp add: has_task_Ok)
  then have "add_task_inner x e b addr comment ty d w = (Ok (gen_task_id x addr ty d), bump (bump w))"
    using assms(4) by (simp add: add_task_inner_def Let_def and_then_def map_err_def
        has_resource_quiet[OF assms(1,2)] ok_def)
  then show ?thesis by simp
qed

theorem resubmission_idempotent_witness:
  "\<exists>w w'. length (task_tab w) = 1 \<and>
    add_task_inner demo_ext quiet (FileResource ''/data'') ''f01000'' ''other'' C2 [7, 8] w =
      (Ok (gen_task_id demo_ext ''f01000'' C2 [7, 8]), w') \<and> task_tab w' = task_tab w"
proof -
  let ?b = "FileResource ''/data''" and ?rid = "gen_resource_id demo_ext [7, 8]"
  let ?tid = "gen_task_id demo_ext ''f01000'' C2 [7, 8]"
  let ?w = "empty_world\<lparr>task_tab := [mk_task ?tid ?rid Init '''' 1], files := [path_join ''/data'' ?rid \<mapsto> [7, 8]]\<rparr>"
  have "?tid \<in> tk_id ` set (task_tab ?w)" by (simp add: mk_task_def)
  moreover have "look_of ?b ?w ?rid = Some [7, 8]" by (simp add: look_of_def file_look_def)
  ultimately obtain w' where "add_task_inner demo_ext quiet ?b ''f01000'' ''other'' C2 [7, 8] ?w = (Ok ?tid, w')"
    "task_tab w' = task_tab ?w"
    using resubmission_idempotent[of quiet demo_ext "''f01000''" C2 "[7, 8]" ?w ?b "''other''"] by auto
  then show ?thesis by (intro exI[of _ ?w] exI[of _ w']) simp
qed

section \<open>Requests that submit\<close>

text \<open>What a request hands in, when its fields decode.\<close>

fun submits :: "('addr, 'c1) ext \<Rightarrow> request \<Rightarrow> 'addr \<Rightarrow> bytes \<Rightarrow> bool" where
  "submits x (SubmitC2Task phase1_output miner _ prover sector) a d \<longleftrightarrow>
     addr_from_str x miner = Ok a \<and>
     (\<exists>p c. b64_param x phase1_output = Ok p \<and> c1_from_slice x p = Ok c \<and>
        c2_to_vec x \<lparr>prover_id = prover, sector_id = sector, c1out = c\<rparr> = Ok d)"
| "submits x (AddTask miner _ _ param) a d \<longleftrightarrow> addr_from_str x miner = Ok a \<and> b64_param x param = Ok d"
| "submits x _ a d \<longleftrightarrow> False"

lemma lift_seq:
  "step_rel R \<Longrightarrow> (\<And>a. r = Ok a \<Longrightarrow> evolves R (f a)) \<Longrightarrow> evolves R (and_then (lift_res r) f)"
  by (cases r) (simp_all add: evolves_def and_then_def lift_res_def step_rel.refl)

end
