(* ===== verification/Task_Results.thy ===== *)
theory Task_Results
  imports Submission
begin

text \<open>
  What recording a proof or an error does to the task, to the stored parameters and
  to everything else, on every outcome; what the client reads of what the server
  keeps; and what the content-derived ids guarantee about stored parameters.
\<close>

section \<open>Recording a proof\<close>

lemma fetch_Ok_iff: "fetch e i w = (Ok t, w') \<longleftrightarrow> db_fault e (tick w) = None \<and> w' = bump w \<and>
    first_row (query e task_tab (\<lambda>t. tk_id t = i) (Asc tk_create_at) (bump w)) = Some t"
  by (auto simp: fetch_def stmt_Ok_iff)

lemma fetch_Ok: "fetch e i w = (Ok t, w') \<Longrightarrow> t \<in> set (task_tab w) \<and> tk_id t = i \<and> w' = bump w"
  using first_query_Some[of e task_tab "\<lambda>t. tk_id t = i" "Asc tk_create_at" "bump w" t]
  by (auto simp: fetch_Ok_iff)

lemma db_record_proof_Ok_iff: "db_record_proof e wk i p w = (Ok u, w') \<longleftrightarrow>
    db_fault e (Suc (tick w)) = None \<and>
    w' = task_tab_update (update_rows (\<lambda>t. tk_id t = i) (proof_row wk p (clk e (tick w)))) (bump (bump w))"
  by (auto simp: db_record_proof_def stmt_Ok_iff)

lemma db_record_proof_not_ok: "db_record_proof e wk i p w = (r, w') \<Longrightarrow> \<not> is_ok r \<Longrightarrow> w' = bump (bump w)"
  by (auto simp: db_record_proof_def and_then_def now_def map_ok_def update_many_def sql_def
      split: option.splits)

lemma record_proof_outcome:
  assumes inv: "keyed task_tab tk_id w"
    and run: "record_proof e b wk tid proof w = (Ok u, w')"
    and rel: "\<And>t. t \<in> set (task_tab w) \<Longrightarrow> rel_id (tk_resource_id t)"
  shows "\<exists>t n. t \<in> set (task_tab w) \<and> tk_id t = tid \<and>
     task_tab w' = map (\<lambda>r. if r = t then t\<lparr>tk_state := Completed, tk_worker_id := wk, tk_proof := proof,
       tk_error_msg := '''', tk_complete_at := n\<rparr> else r) (task_tab w) \<and>
     (\<forall>j. rel_id j \<longrightarrow> look_of b w' j = (if j = tk_resource_id t then None else look_of b w j))"
proof -
  from run obtain t w1 w2 where f: "fetch e tid w = (Ok t, w1)"
    and p: "db_record_proof e wk tid proof w1 = (Ok (), w2)"
    and d: "delete_resource b e (tk_resource_id t) w2 = (Ok u, w')"
    unfolding record_proof_def and_then_Ok_iff internal_call_error_Ok by auto
  from fetch_Ok[OF f] have t: "t \<in> set (task_tab w)" "tk_id t = tid" "w1 = bump w" by auto
  let ?n = "clk e (tick w1)"
  have "task_tab w2 = update_rows (\<lambda>t. tk_id t = tid) (proof_row wk proof ?n) (task_tab w)"
    using p t by (simp add: db_record_proof_Ok_iff)
  also have "\<dots> = map (\<lambda>r. if r = t then proof_row wk proof ?n t else r) (task_tab w)"
    using update_key_row[of tk_id "task_tab w" t] inv t by (simp add: keyed_def)
  finally have tab: "task_tab w' = map (\<lambda>r. if r = t then proof_row wk proof ?n t else r) (task_tab w)"
    using storage_task_tab(3)[OF d] by simp
  have "look_of b w2 = look_of b w"
    using look_of_tasks[OF evolves_Ok[OF task_ops_only_tasks(10) p], of b] t(3) by simp
  with backend_store.delete_ok[OF rel[OF t(1)] _ d] t tab show ?thesis
    by (intro exI[of _ t] exI[of _ ?n]) (simp add: proof_row_def)
qed

text \<open>C8. A successful \<open>RecordProof\<close> found the task, wrote the proof, the worker and the
  completion time into its row, cleared its error message and left every other task as it
  was; the parameters of the task are gone from the store and all others are still there.\<close>

theorem record_proof_contract:
  assumes inv: "keyed task_tab tk_id w"
    and run: "record_proof e b wk tid proof w = (Ok u, w')"
    and rel: "\<And>t. t \<in> set (task_tab w) \<Longrightarrow> rel_id (tk_resource_id t)"
  shows "\<exists>t n. t \<in> set (task_tab w) \<and> tk_id t = tid \<and>
     task_tab w' = map (\<lambda>r. if r = t then t\<lparr>tk_state := Completed, tk_worker_id := wk, tk_proof := proof,
       tk_error_msg := '''', tk_complete_at := n\<rparr> else r) (task_tab w) \<and>
     (\<forall>j. rel_id j \<longrightarrow> look_of b w' j = (if j = tk_resource_id t then None else look_of b w j))"
  by (rule record_proof_outcome[OF assms])

theorem record_proof_contract_witness:
  "\<exists>w'. record_proof quiet DbResource ''w1'' ''t1'' [9] busy_world = (Ok (), w') \<and>
     res_look busy_world ''r1'' = Some [1] \<and> look_of DbResource w' ''r1'' = None \<and>
     look_of DbResource w' ''r3'' = Some [3]"
proof -
  have "is_ok (fst (record_proof quiet DbResource ''w1'' ''t1'' [9] busy_world))" by code_simp
  then obtain w' where run: "record_proof quiet DbResource ''w1'' ''t1'' [9] busy_world = (Ok (), w')"
    by (metis is_ok_iff old.unit.exhaust prod.collapse)
  have rel: "rel_id (tk_resource_id t)" if "t \<in> set (task_tab busy_world)" for t
    using that by (auto simp: demo_defs rel_id_def)
  have r: "rel_id ''r1''" "rel_id ''r3''" by (simp_all add: rel_id_def)
  have look: "res_look busy_world ''r1'' = Some [1]" "look_of DbResource busy_world ''r3'' = Some [3]"
    by (simp_all add: look_of_def res_look_def demo_defs)
  from record_proof_contract[OF busy_inv(1) run rel] obtain t where
    t: "t \<in> set (task_tab busy_world)" "tk_id t = ''t1''"
    and gone: "\<forall>j. rel_id j \<longrightarrow> look_of DbResource w' j = (if j = tk_resource_id t then None else look_of DbResource busy_world j)"
    by auto
  have "tk_resource_id t = ''r1''" using t by (auto simp: demo_defs)
  with gone r look run show ?thesis by simp
qed

text \<open>C17. Parameters are never dropped before the result is safe: if the store of one id has
  changed after a \<open>RecordProof\<close> of whatever outcome, the task is recorded as completed
  with that proof.\<close>

theorem record_proof_safe:
  assumes inv: "keyed task_tab tk_id w" and rel: "rel_id i"
    and run: "record_proof e b wk tid proof w = (r, w')"
    and lost: "look_of b w' i \<noteq> look_of b w i"
  shows "\<exists>t \<in> set (task_tab w'). tk_id t = tid \<and> tk_state t = Completed \<and> tk_proof t = proof"
proof -
  obtain r1 w1 where f: "fetch e tid w = (r1, w1)" by (cases "fetch e tid w")
  have l1: "look_of b w1 = look_of b w"
    by (rule look_of_tasks[OF evolves_Ok[OF task_ops_only_tasks(3) f]])
  from f run lost l1 obtain t where r1: "r1 = Ok t"
    by (cases r1) (auto simp: record_proof_def and_then_def internal_call_error_def map_err_def)
  obtain r2 w2 where p: "db_record_proof e wk tid proof w1 = (r2, w2)" by (cases "db_record_proof e wk tid proof w1")
  have l2: "look_of b w2 = look_of b w"
    using look_of_tasks[OF evolves_Ok[OF task_ops_only_tasks(10) p]] l1 by metis
  from f p r1 run lost l2 have r2: "r2 = Ok ()"
    by (cases r2) (auto simp: record_proof_def and_then_def internal_call_error_def map_err_def)
  from fetch_Ok[OF f[unfolded r1]] have t: "t \<in> set (task_tab w1)" "tk_id t = tid" by auto
  have d: "task_tab w' = task_tab w2"
    using f p r1 r2 run storage_task_tab(3)[of b e "tk_resource_id t" w2]
    by (auto simp: record_proof_def and_then_def internal_call_error_def map_err_def split: prod.splits)
  let ?f = "proof_row wk proof (clk e (tick w1))"
  have "task_tab w2 = update_rows (\<lambda>t. tk_id t = tid) ?f (task_tab w1)"
    using p r2 by (simp add: db_record_proof_Ok_iff)
  with t d have "?f t \<in> set (task_tab w')" by (force simp: set_update_rows)
  with t(2) show ?thesis by (intro bexI[of _ "?f t"]) (simp_all add: proof_row_def)
qed

theorem record_proof_safe_witness:
  "\<exists>t \<in> set (task_tab (snd (record_proof quiet DbResource ''w1'' ''t1'' [9] busy_world))).
     tk_id t = ''t1'' \<and> tk_state t = Completed \<and> tk_proof t = [9]"
proof (rule record_proof_safe[OF busy_inv(1) _ prod.collapse[symmetric]])
  show "rel_id ''r1''" by (simp add: rel_id_def)
  show "look_of DbResource (snd (record_proof quiet DbResource ''w1'' ''t1'' [9] busy_world)) ''r1''
      \<noteq> look_of DbResource busy_world ''r1''" by code_simp
qed

section \<open>Parameters that are gone\<close>

lemma get_none:
  assumes "rel_id i" "keyed res_tab ri_id w" "look_of b w i = None"
  shows "get_resource_info b e i w \<noteq> (Ok d, w')"
  using backend_store.get_ok[OF assms(1,2), of b e d w'] assms(3) by auto

lemma record_proof_keeps:
  assumes "record_proof e b wk tid proof w = (r, w')"
  shows "keyed task_tab tk_id w \<Longrightarrow> keyed task_tab tk_id w'" "keyed res_tab ri_id w \<Longrightarrow> keyed res_tab ri_id w'"
proof -
  have r: "res_tab (snd (fetch e i v)) = res_tab v" "res_tab (snd (db_record_proof e wk i p v)) = res_tab v" for i v p
    using evolvesD[OF task_ops_only_tasks(3)] evolvesD[OF task_ops_only_tasks(10)] by (auto simp: only_tasks_def)
  have "preserves (keyed res_tab ri_id) (fetch e tid)" "preserves (keyed res_tab ri_id) (db_record_proof e wk tid proof)"
    by (simp_all add: evolves_def keyed_def r)
  then have "preserves (keyed res_tab ri_id) (record_proof e b wk tid proof)"
    unfolding record_proof_def by (intro evolve ri.keep.stmts storage_keyed)
  then show "keyed res_tab ri_id w \<Longrightarrow> keyed res_tab ri_id w'" using assms by (metis evolves_Ok)
  have "preserves (keyed task_tab tk_id) (record_proof e b wk tid proof)"
    unfolding record_proof_def
    by (intro evolve tk.keep.stmts task_ops_keyed store_evolves[OF frame_keyed(1)])
  then show "keyed task_tab tk_id w \<Longrightarrow> keyed task_tab tk_id w'" using assms by (metis evolves_Ok)
qed

text \<open>Once a resource is missing, it stays missing until a request submits parameters with its id.\<close>

definition stays_lost :: "backend \<Rightarrow> string \<Rightarrow> world \<Rightarrow> world \<Rightarrow> bool" where
  "stays_lost b i w w' \<longleftrightarrow> (look_of b w i = None \<longrightarrow> look_of b w' i = None)"

interpretation sl: world_rel "stays_lost b i" for b i
proof (standard, goal_cases)
  case (4 w0 w)
  then show ?case by (cases b) (simp_all add: stays_lost_def look_of_def file_look_def res_look_def rollback_def)
qed (simp_all add: stays_lost_def)

lemma only_tasks_lost: "only_tasks w w' \<Longrightarrow> stays_lost b i w w'"
  by (simp add: stays_lost_def look_of_tasks)

lemma only_workers_lost: "only_workers w w' \<Longrightarrow> stays_lost b i w w'"
  by (cases b) (simp_all add: stays_lost_def only_workers_def look_of_def file_look_def res_look_def)

lemma storage_lost:
  assumes "rel_id i"
  shows "evolves (stays_lost b i) (has_resource b e j)" "evolves (stays_lost b i) (get_resource_info b e j)"
    "evolves (stays_lost b i) (delete_resource b e j)"
    "rel_id j \<Longrightarrow> j \<noteq> i \<Longrightarrow> evolves (stays_lost b i) (store_resource_info b e j d)"
proof -
  show "evolves (stays_lost b i) (has_resource b e j)" "evolves (stays_lost b i) (get_resource_info b e j)"
    using backend_store.has_frame[OF assms] backend_store.get_frame[OF assms] by (simp_all add: evolves_def stays_lost_def)
  show "evolves (stays_lost b i) (store_resource_info b e j d)" if "rel_id j" "j \<noteq> i"
    using backend_store.store_other[OF that(1) assms] that(2) by (simp add: evolves_def stays_lost_def)
  show "evolves (stays_lost b i) (delete_resource b e j)"
  proof (cases b)
    case DbResource
    then show ?thesis unfolding backend_ops DbResource db_delete_resource_def
      by (intro evolve sl.stmts sl.writes) (simp add: stays_lost_def look_of_def res_look_delete)
  next
    case (FileResource root)
    then show ?thesis
      by (auto simp: backend_ops file_delete_resource_def fs_remove_file_def evolves_def stays_lost_def look_of_def file_look_def
          split: option.splits)
  qed
qed

lemma add_task_inner_lost:
  assumes "rel_id i" "rel_id (gen_resource_id x d)" "gen_resource_id x d \<noteq> i"
  shows "evolves (stays_lost b i) (add_task_inner x e b a c ty d)"
  unfolding add_task_inner_def Let_def
  by (intro evolve sl.stmts storage_lost assms tasks_evolve[OF only_tasks_lost])

lemma serve_lost:
  assumes i: "rel_id i"
    and none: "\<And>a d. submits x r a d \<Longrightarrow> rel_id (gen_resource_id x d) \<and> gen_resource_id x d \<noteq> i"
  shows "evolves (stays_lost b i) (serve x e b r)"
proof (cases r)
  case (SubmitC2Task p miner c prover sector)
  then show ?thesis using none
    by (simp only: serve.simps submit_c2_task_def invalid_params_def[symmetric])
      (intro evolve lift_seq[OF sl.step_rel_axioms] add_task_inner_lost i; force)
next
  case (AddTask miner c ty p)
  then show ?thesis using none
    by (simp only: serve.simps rpc_add_task_def)
      (intro evolve lift_seq[OF sl.step_rel_axioms] sl.seq sl.pure_rules add_task_inner_lost i; force)
qed (simp_all add: handler_defs,
    (intro evolve sl.stmts storage_lost i tasks_evolve[OF only_tasks_lost] workers_evolve[OF only_workers_lost],
      (assumption+)?)+)

lemma run_requests_lost:
  assumes "rel_id i" "look_of b w i = None" "keyed res_tab ri_id w"
    and "\<And>r a d. r \<in> set rs \<Longrightarrow> submits x r a d \<Longrightarrow> rel_id (gen_resource_id x d) \<and> gen_resource_id x d \<noteq> i"
  shows "get_resource_info b e' i (run_requests x e b rs w) \<noteq> (Ok d, w')"
proof -
  have "stays_lost b i w (run_requests x e b rs w)"
    using assms by (intro run_requests_rel[OF sl.world_rel_axioms] serve_lost) blast+
  moreover have "keyed res_tab ri_id w \<longrightarrow> keyed res_tab ri_id (run_requests x e b rs w)"
    by (rule run_requests_rel[OF ri.keep.world_rel_axioms serve_keyed_resources])
  ultimately show ?thesis using assms(1-3) by (intro get_none) (simp_all add: stays_lost_def)
qed

text \<open>C30. When two tasks name the same resource, as tasks made from the same parameters do, and one of them is completed,
  the other keeps its row and loses the parameters: no read of them succeeds any more, whatever requests are served
  in between, as long as none of them submits parameters with that resource id again (or with an id that starts with a
  slash, as no UUID does). The primary keys of tasks and resources are unique, and the resource ids of the tasks do not start
  with a slash.\<close>

theorem shared_parameters_lost:
  assumes inv: "keyed task_tab tk_id w" "keyed res_tab ri_id w"
    and rel: "\<And>t. t \<in> set (task_tab w) \<Longrightarrow> rel_id (tk_resource_id t)"
    and run: "record_proof e b wk tid proof w = (Ok u, w')"
    and other: "t1 \<in> set (task_tab w)" "tk_id t1 = tid" "t2 \<in> set (task_tab w)" "tk_id t2 \<noteq> tid"
    and shared: "tk_resource_id t1 = tk_resource_id t2"
    and none: "\<And>r a d. r \<in> set rs \<Longrightarrow> submits x r a d \<Longrightarrow>
      rel_id (gen_resource_id x d) \<and> gen_resource_id x d \<noteq> tk_resource_id t2"
  shows "t2 \<in> set (task_tab w') \<and>
    get_resource_info b e'' (tk_resource_id t2) (run_requests x e' b rs w') \<noteq> (Ok d, w'')"
proof
  from record_proof_outcome[OF inv(1) run rel] obtain t n where t: "t \<in> set (task_tab w)" "tk_id t = tid"
    and tab: "task_tab w' = map (\<lambda>r. if r = t then t\<lparr>tk_state := Completed, tk_worker_id := wk, tk_proof := proof,
       tk_error_msg := '''', tk_complete_at := n\<rparr> else r) (task_tab w)"
    and gone: "\<forall>j. rel_id j \<longrightarrow> look_of b w' j = (if j = tk_resource_id t then None else look_of b w j)"
    by blast
  show "t2 \<in> set (task_tab w')" using other(3,4) t(2) unfolding tab by force
  have "t = t1" using inv(1) t other(1,2) distinct_keys_same[of tk_id "task_tab w" t t1] by (simp add: keyed_def)
  with gone rel[OF other(3)] shared have "look_of b w' (tk_resource_id t2) = None" by simp
  with rel[OF other(3)] record_proof_keeps(2)[OF run inv(2)] none
  show "get_resource_info b e'' (tk_resource_id t2) (run_requests x e' b rs w') \<noteq> (Ok d, w'')"
    by (intro run_requests_lost)
qed

lemma busy_rel: "t \<in> set (task_tab busy_world) \<Longrightarrow> rel_id (tk_resource_id t)"
  by (auto simp: demo_defs rel_id_def)

theorem shared_parameters_lost_witness:
  "\<exists>w'. (\<exists>u. record_proof quiet DbResource ''w1'' ''t3'' [9] busy_world = (Ok u, w')) \<and>
     mk_task ''t4'' ''r3'' Init '''' 30 \<in> set (task_tab w') \<and>
     (\<forall>w''. get_resource_info DbResource quiet ''r3'' (run_requests demo_ext quiet DbResource [FetchTodo ''w2'' None, ListWorker] w') \<noteq> (Ok [3], w''))"
proof -
  have "is_ok (fst (record_proof quiet DbResource ''w1'' ''t3'' [9] busy_world))" by code_simp
  from run_ok[OF this] obtain u w' where run: "record_proof quiet DbResource ''w1'' ''t3'' [9] busy_world = (Ok u, w')"
    by blast
  have none: "rel_id (gen_resource_id demo_ext d) \<and> gen_resource_id demo_ext d \<noteq> tk_resource_id (mk_task ''t4'' ''r3'' Init '''' 30)"
    if "r \<in> set [FetchTodo ''w2'' None, ListWorker]" "submits demo_ext r a d" for r a d
    using that by auto
  have "mk_task ''t4'' ''r3'' Init '''' 30 \<in> set (task_tab w') \<and>
    get_resource_info DbResource quiet (tk_resource_id (mk_task ''t4'' ''r3'' Init '''' 30))
      (run_requests demo_ext quiet DbResource [FetchTodo ''w2'' None, ListWorker] w') \<noteq> (Ok [3], w'')" for w''
    by (rule shared_parameters_lost[where ?t1.0 = "mk_task ''t3'' ''r3'' Running ''w1'' 5", OF busy_inv(1,2) busy_rel run _ _ _ _ _ none])
      (simp_all add: busy_world_def mk_task_def)
  with run show ?thesis by (intro exI[of _ w']) (simp add: mk_task_def)
qed

lemma record_error_Ok: "record_error e wk tid m w = (Ok u, w') \<Longrightarrow>
    task_tab w' = update_rows (\<lambda>t. tk_id t = tid) (error_row wk m) (task_tab w) \<and> only_tasks w w'"
  by (auto simp: record_error_def internal_call_error_Ok db_record_error_def stmt_Ok_iff only_tasks_def)

lemma update_status_Ok: "update_status_by_id e is s w = (Ok u, w') \<Longrightarrow>
    task_tab w' = update_rows (\<lambda>t. tk_id t \<in> set is) (\<lambda>t. t\<lparr>tk_state := s\<rparr>) (task_tab w) \<and> only_tasks w w'"
  by (auto simp: update_status_by_id_def internal_call_error_Ok db_update_status_by_id_def stmt_Ok_iff only_tasks_def)

text \<open>C31. Nothing protects a completed task: a late error report followed by a reset to the
  initial state, as the plugin does, offers the task to workers again, although its proof
  is recorded and its parameters are gone: no read of them succeeds, whatever requests are served in between, until a
  request submits parameters with that resource id again (or with an id that starts with a slash, as no UUID does).
  The primary keys of tasks and resources are unique, and the resource ids of the tasks do not start with a slash.\<close>

theorem reopened_task_without_parameters:
  assumes inv: "keyed task_tab tk_id w" "keyed res_tab ri_id w"
    and rel: "\<And>t. t \<in> set (task_tab w) \<Longrightarrow> rel_id (tk_resource_id t)"
    and fin: "record_proof e b wk tid proof w = (Ok u, w1)"
    and late: "record_error e wk' tid m w1 = (Ok u', w2)"
    and reset: "update_status_by_id e [tid] Init w2 = (Ok u'', w3)"
  shows "\<exists>t \<in> set (task_tab w3). tk_id t = tid \<and> is_todo None t \<and> tk_proof t = proof \<and>
    (\<forall>rs. (\<forall>r \<in> set rs. \<forall>a d. submits x r a d \<longrightarrow>
        rel_id (gen_resource_id x d) \<and> gen_resource_id x d \<noteq> tk_resource_id t) \<longrightarrow>
      get_resource_info b e'' (tk_resource_id t) (run_requests x e' b rs w3) \<noteq> (Ok d, w4))"
proof -
  from record_proof_outcome[OF inv(1) fin rel] obtain t n where t: "t \<in> set (task_tab w)" "tk_id t = tid"
    and tab: "task_tab w1 = map (\<lambda>r. if r = t then t\<lparr>tk_state := Completed, tk_worker_id := wk, tk_proof := proof,
       tk_error_msg := '''', tk_complete_at := n\<rparr> else r) (task_tab w)"
    and gone: "\<forall>j. rel_id j \<longrightarrow> look_of b w1 j = (if j = tk_resource_id t then None else look_of b w j)"
    by blast
  let ?t1 = "t\<lparr>tk_state := Completed, tk_worker_id := wk, tk_proof := proof, tk_error_msg := '''', tk_complete_at := n\<rparr>"
  let ?t2 = "error_row wk' m ?t1" and ?t3 = "(error_row wk' m ?t1)\<lparr>tk_state := Init\<rparr>"
  have "?t1 \<in> set (task_tab w1)" using t(1) unfolding tab by force
  with record_error_Ok[OF late] t(2) have t2: "?t2 \<in> set (task_tab w2)"
    using update_rows_mem[of ?t1 _ "\<lambda>t. tk_id t = tid" "error_row wk' m"] by simp
  have t3: "?t3 \<in> set (task_tab w3)"
    using update_rows_mem[OF t2, of "\<lambda>t. tk_id t \<in> set [tid]" "\<lambda>t. t\<lparr>tk_state := Init\<rparr>"]
      update_status_Ok[OF reset] t(2) by simp
  have look: "look_of b w3 = look_of b w1"
    using record_error_Ok[OF late] update_status_Ok[OF reset] by (metis look_of_tasks)
  have "keyed res_tab ri_id w3"
    using record_proof_keeps(2)[OF fin inv(2)] record_error_Ok[OF late] update_status_Ok[OF reset]
    by (simp add: only_tasks_def keyed_def)
  then have "get_resource_info b e'' (tk_resource_id t) (run_requests x e' b rs w3) \<noteq> (Ok d, w4)"
    if "\<forall>r \<in> set rs. \<forall>a d. submits x r a d \<longrightarrow> rel_id (gen_resource_id x d) \<and> gen_resource_id x d \<noteq> tk_resource_id t" for rs
    using gone look rel[OF t(1)] that by (intro run_requests_lost) auto
  with t3 t(2) show ?thesis by (intro bexI[of _ ?t3]) (simp_all add: error_row_def is_todo_def)
qed

theorem reopened_task_without_parameters_witness:
  "\<exists>w3. \<exists>t \<in> set (task_tab w3). tk_id t = ''t1'' \<and> is_todo None t \<and> tk_proof t = [9] \<and>
     get_resource_info DbResource quiet (tk_resource_id t) (run_requests demo_ext quiet DbResource [ListWorker] w3) \<noteq> (Ok [1], w3)"
proof -
  let ?p = "record_proof quiet DbResource ''w1'' ''t1'' [9] busy_world"
  let ?e = "record_error quiet ''w1'' ''t1'' ''late'' (snd ?p)"
  let ?u = "update_status_by_id quiet [''t1''] Init (snd ?e)"
  have "is_ok (fst ?p)" "is_ok (fst ?e)" "is_ok (fst ?u)" by code_simp+
  then have "\<exists>u. ?p = (Ok u, snd ?p)" "\<exists>u. ?e = (Ok u, snd ?e)" "\<exists>u. ?u = (Ok u, snd ?u)"
    by (metis is_ok_iff prod.collapse)+
  then obtain u u' u'' where "?p = (Ok u, snd ?p)" "?e = (Ok u', snd ?e)" "?u = (Ok u'', snd ?u)" by blast
  from reopened_task_without_parameters[OF busy_inv(1,2) busy_rel this, of demo_ext quiet quiet "[1]" "snd ?u"]
  obtain t where t: "t \<in> set (task_tab (snd ?u))" "tk_id t = ''t1''" "is_todo None t" "tk_proof t = [9]"
    and lost: "\<And>rs. \<forall>r \<in> set rs. \<forall>a d. submits demo_ext r a d \<longrightarrow>
      rel_id (gen_resource_id demo_ext d) \<and> gen_resource_id demo_ext d \<noteq> tk_resource_id t \<Longrightarrow>
      get_resource_info DbResource quiet (tk_resource_id t) (run_requests demo_ext quiet DbResource rs (snd ?u)) \<noteq> (Ok [1], snd ?u)"
    by blast
  from lost[of "[ListWorker]"] have "get_resource_info DbResource quiet (tk_resource_id t)
      (run_requests demo_ext quiet DbResource [ListWorker] (snd ?u)) \<noteq> (Ok [1], snd ?u)" by simp
  with t show ?thesis by blast
qed

section \<open>What the client reads\<close>

lemma rpc_call_delivered:
  "net e (tick w) = Delivered \<Longrightarrow> rpc_call x e b r w = (Ok a, w') \<longleftrightarrow> serve x e b r (bump w) = (Ok a, w')"
  by (auto simp: rpc_call_def split: result.splits prod.splits)

lemma transport_exact:
  assumes b64: "\<And>d. b64_decode x (b64_encode x d) = Ok d" and net: "net e (tick w) = Delivered"
  shows "(wc_get_resource_info x e b i w = (Ok d, w') \<longleftrightarrow> rpc_get_resource_info e b i (bump w) = (Ok d, w')) \<and>
    (wc_add_task x e b miner comment ty p w = (Ok tid, w') \<longleftrightarrow> rpc_add_task x e b miner comment ty p (bump w) = (Ok tid, w')) \<and>
    (wc_submit_c2_task x e b p miner comment pr sec w = (Ok tid, w') \<longleftrightarrow>
       submit_c2_task x e b p miner comment pr sec (bump w) = (Ok tid, w')) \<and>
    (wc_record_proof x e b wk tid p w = (Ok u, w') \<longleftrightarrow> record_proof e b wk tid p (bump w) = (Ok u, w'))"
proof -
  have dec: "base64byte_deserialize x (base64byte_serialize x d) = Ok d" for d
    by (simp add: base64byte_deserialize_def base64byte_serialize_def b64)
  then have par: "b64_param x (base64byte_serialize x d) = Ok d" for d
    by (simp add: b64_param_def)
  note simps = and_then_Ok_iff rpc_call_delivered[OF net] map_ok_Ok_iff lift_res_Ok_iff ok_Ok_iff par dec
  have "wc_get_resource_info x e b i w = (Ok d, w') \<longleftrightarrow> rpc_get_resource_info e b i (bump w) = (Ok d, w')"
    by (auto simp: wc_get_resource_info_def simps expect_bytes_def)
  moreover have "wc_add_task x e b miner comment ty p w = (Ok tid, w') \<longleftrightarrow> rpc_add_task x e b miner comment ty p (bump w) = (Ok tid, w')"
    by (auto simp: wc_add_task_def simps expect_string_def)
  moreover have "wc_submit_c2_task x e b p miner comment pr sec w = (Ok tid, w') \<longleftrightarrow>
       submit_c2_task x e b p miner comment pr sec (bump w) = (Ok tid, w')"
    by (auto simp: wc_submit_c2_task_def simps expect_string_def)
  moreover have "wc_record_proof x e b wk tid p w = (Ok u, w') \<longleftrightarrow> record_proof e b wk tid p (bump w) = (Ok u, w')"
    by (auto simp: wc_record_proof_def simps expect_unit_def)
  ultimately show ?thesis by blast
qed

text \<open>C27. Over a network that delivers, what the client gets for parameters, submissions and proofs
  is what the server's handler computed from the same bytes: base64 and the reply encoding
  are transparent.\<close>

theorem transport_transparent:
  assumes b64: "\<And>d. b64_decode x (b64_encode x d) = Ok d" and net: "net e (tick w) = Delivered"
  shows "(wc_get_resource_info x e b i w = (Ok d, w') \<longleftrightarrow> rpc_get_resource_info e b i (bump w) = (Ok d, w')) \<and>
    (wc_add_task x e b miner comment ty p w = (Ok tid, w') \<longleftrightarrow> rpc_add_task x e b miner comment ty p (bump w) = (Ok tid, w')) \<and>
    (wc_submit_c2_task x e b p miner comment pr sec w = (Ok tid, w') \<longleftrightarrow>
       submit_c2_task x e b p miner comment pr sec (bump w) = (Ok tid, w')) \<and>
    (wc_record_proof x e b wk tid p w = (Ok u, w') \<longleftrightarrow> record_proof e b wk tid p (bump w) = (Ok u, w'))"
  by (rule transport_exact[OF assms])

lemma demo_b64: "b64_decode demo_ext (b64_encode demo_ext d) = Ok d"
proof -
  have "word_of_nat (unat b) = b" for b :: byte by simp
  moreover have "(of_char (char_of (unat b)) :: nat) = unat b" for b :: byte
    using unsigned_less[of b, where ?'a = nat] by (simp add: take_bit_eq_mod)
  ultimately have "bytes_of_string (char_bytes d) = d"
    by (simp add: bytes_of_string_def char_bytes_def comp_def)
  then show ?thesis by (simp add: demo_ext_def)
qed

theorem transport_transparent_witness:
  "\<exists>w'. wc_get_resource_info demo_ext quiet DbResource ''r2'' busy_world = (Ok [2], w') \<and>
     rpc_get_resource_info quiet DbResource ''r2'' (bump busy_world) = (Ok [2], w')"
proof -
  have "fst (rpc_get_resource_info quiet DbResource ''r2'' (bump busy_world)) = Ok [2]" by code_simp
  then obtain w' where run: "rpc_get_resource_info quiet DbResource ''r2'' (bump busy_world) = (Ok [2], w')"
    by (metis prod.collapse)
  have net: "net quiet (tick busy_world) = Delivered" by simp
  from transport_transparent[OF demo_b64 net, of DbResource "''r2''" "[2]" w'] run show ?thesis by blast
qed


end
