(* ===== verification/Server_State.thy ===== *)
theory Server_State
  imports Task_Results
begin

text \<open>
  What the server keeps over time: that stored parameters are the bytes their id was
  made from (and where a file store breaks this), the worker identity, the reports of
  the workers with the query for the silent ones, and the database file.
\<close>

section \<open>Stored parameters are what their id says\<close>

definition content_addressed :: "('addr, 'c1) ext \<Rightarrow> world \<Rightarrow> bool" where
  "content_addressed x w \<longleftrightarrow> (\<forall>r \<in> set (res_tab w). ri_id r = gen_resource_id x (ri_data r))"

interpretation ca: world_rel "\<lambda>w w'. content_addressed x w \<longrightarrow> content_addressed x w'" for x
  by unfold_locales (auto simp: content_addressed_def)

lemma frame_content:
  "only_tasks w w' \<Longrightarrow> content_addressed x w \<longrightarrow> content_addressed x w'"
  "only_workers w w' \<Longrightarrow> content_addressed x w \<longrightarrow> content_addressed x w'"
  by (simp_all add: only_tasks_def only_workers_def content_addressed_def)

lemma res_ops_content:
  "preserves (content_addressed x) (db_has_resource e i)"
  "preserves (content_addressed x) (db_get_resource_info e i)"
  "preserves (content_addressed x) (db_delete_resource e i)"
  "preserves (content_addressed x) (db_store_resource_info e (gen_resource_id x d) d)"
  unfolding res_op_defs
  by (intro evolve ca.stmts ca.writes; simp add: content_addressed_def)+

lemma serve_content_addressed: "preserves (content_addressed x) (serve x e DbResource r)"
proof (rule handlers_evolve_add, rule ca.world_rel_axioms)
  show "preserves (content_addressed x) (add_task_inner x e DbResource a c ty d)" for a c ty d
    unfolding add_task_inner_def Let_def backend_ops
    by (intro evolve ca.stmts res_ops_content tasks_evolve[OF frame_content(1)])
qed (auto simp: backend_ops intro: res_ops_content tasks_evolve[OF frame_content(1)] workers_evolve[OF frame_content(2)])

text \<open>C11. Whatever requests have been served by a server that keeps parameters in the database,
  reading the id derived from some bytes returns these bytes and no others, as long as the
  version 5 UUID does not collide on the two.\<close>

theorem stored_parameters_authentic:
  assumes "content_addressed x w"
    and got: "rpc_get_resource_info e' DbResource (gen_resource_id x d) (run_requests x e DbResource rs w) = (Ok d', w')"
    and no_collision: "inj_on (uuid_v5 x) {d, d'}"
  shows "d' = d"
proof -
  have "content_addressed x w \<longrightarrow> content_addressed x (run_requests x e DbResource rs w)"
    by (rule run_requests_rel[OF ca.world_rel_axioms serve_content_addressed])
  with assms(1) have inv: "content_addressed x (run_requests x e DbResource rs w)" by blast
  from got obtain r where r: "d' = ri_data r"
    "first_row (query e' res_tab (\<lambda>r. ri_id r = gen_resource_id x d) NoOrder (bump (run_requests x e DbResource rs w))) = Some r"
    by (auto simp: rpc_get_resource_info_def internal_call_error_Ok backend_ops db_get_resource_info_def stmt_Ok_iff)
  from first_query_Some[OF r(2)] inv have "gen_resource_id x d' = gen_resource_id x d"
    by (auto simp: content_addressed_def r(1))
  with no_collision show ?thesis by (auto simp: gen_resource_id_def dest: inj_onD)
qed

theorem stored_parameters_authentic_witness:
  "\<exists>w'. rpc_get_resource_info quiet DbResource (gen_resource_id demo_ext [7, 8])
      (run_requests demo_ext quiet DbResource [AddTask ''f01000'' ''s-1'' C2 (b64_encode demo_ext [7, 8])] empty_world) = (Ok [7, 8], w') \<and>
    [7, 8] = [7, 8::byte]"
proof -
  let ?w = "run_requests demo_ext quiet DbResource [AddTask ''f01000'' ''s-1'' C2 (b64_encode demo_ext [7, 8])] empty_world"
  have "fst (rpc_get_resource_info quiet DbResource (gen_resource_id demo_ext [7, 8]) ?w) = Ok [7, 8]" by code_simp
  then obtain w' where run: "rpc_get_resource_info quiet DbResource (gen_resource_id demo_ext [7, 8]) ?w = (Ok [7, 8], w')"
    by (metis prod.collapse)
  have "content_addressed demo_ext empty_world" by (simp add: content_addressed_def empty_world_def)
  from stored_parameters_authentic[OF this run] run show ?thesis by simp
qed

text \<open>C32. With files as the store, a write that fails half-way leaves a file that counts as the
  resource: the submission whose write fails gets the error and makes no task, the next submission of the same parameters succeeds
  without writing, and the task is open for workers with the truncated parameters. Nothing was stored under that id before, its path can be
  written, the task is new, its address is not empty, and the second submission meets no fault.\<close>

theorem torn_write_is_accepted:
  fixes root x d
  defines "rid \<equiv> gen_resource_id x d"
  assumes torn: "io_fault e (Suc (tick w)) = Some (m, Some k)"
    and path: "path_join root rid \<noteq> []" "path_join root rid \<notin> dirs w" "files w (path_join root rid) = None"
    and later: "\<forall>i. db_fault e' i = None" "\<forall>i. io_fault e' i = None"
    and new: "gen_task_id x addr ty d \<notin> tk_id ` set (task_tab w)" "addr_to_string x addr \<noteq> []"
  shows "\<exists>w1 w2. add_task_inner x e (FileResource root) addr c ty d w = (Err (Call (Failed m)), w1) \<and>
    task_tab w1 = task_tab w \<and>
    add_task_inner x e' (FileResource root) addr c' ty d w1 = (Ok (gen_task_id x addr ty d), w2) \<and>
    (\<exists>t \<in> set (task_tab w2). tk_id t = gen_task_id x addr ty d \<and> is_todo None t \<and> tk_resource_id t = rid) \<and>
    look_of (FileResource root) w2 rid = Some (take k d)"
proof -
  let ?tid = "gen_task_id x addr ty d"
  let ?w1 = "(bump (bump w))\<lparr>files := (files w)(path_join root rid \<mapsto> take k d)\<rparr>"
  have "add_task_inner x e (FileResource root) addr c ty d w = (Err (Call (Failed m)), ?w1)"
    using torn path by (simp add: add_task_inner_def Let_def rid_def[symmetric] backend_ops file_has_resource_def fs_is_file_def
        file_store_resource_info_def and_then_def fs_write_def map_err_def map_ok_def internal_call_error_def)
  moreover have "task_tab ?w1 = task_tab w" by simp
  moreover have look: "look_of (FileResource root) ?w1 rid = Some (take k d)"
    by (simp add: look_of_def file_look_def)
  moreover obtain c0 miner where addr: "addr_to_string x addr = c0 # miner" using new(2) by (cases "addr_to_string x addr") auto
  have has: "has_task e' ?tid (bump ?w1) = (Ok False, bump (bump ?w1))"
    using later(1) new(1) by (simp add: has_task_Ok)
  obtain w2 where add: "db_add_task x e' ?tid addr ty rid c' (bump (bump ?w1)) = (Ok ?tid, w2)"
    using new(1) later(1) addr
    by (simp add: db_add_task_def stmt_Ok_iff miner_noprefix_def)
  have "add_task_inner x e' (FileResource root) addr c' ty d ?w1 = (Ok ?tid, w2)"
    using look add by (simp add: add_task_inner_def Let_def and_then_def map_err_def map_ok_def internal_call_error_def
        has_resource_quiet[OF later] has ok_def rid_def[symmetric])
  moreover have "look_of (FileResource root) w2 = look_of (FileResource root) ?w1"
    using look_of_tasks[OF evolves_Ok[OF task_ops_only_tasks(1) add]] by simp
  moreover have "\<exists>t \<in> set (task_tab w2). tk_id t = ?tid \<and> is_todo None t \<and> tk_resource_id t = rid"
    using db_add_task_Ok[OF add] by (auto simp: is_todo_def)
  ultimately show ?thesis by metis
qed

definition full_disk :: env where
  "full_disk = quiet\<lparr>io_fault := (\<lambda>t. if t = 1 then Some (''No space left on device'', Some 1) else None)\<rparr>"

theorem torn_write_is_accepted_witness:
  "\<exists>w1 w2. add_task_inner demo_ext full_disk (FileResource ''/data'') ''f01000'' ''s-1'' C2 [7, 8] empty_world
      = (Err (Call (Failed ''No space left on device'')), w1) \<and> task_tab w1 = [] \<and>
    add_task_inner demo_ext quiet (FileResource ''/data'') ''f01000'' ''s-1'' C2 [7, 8] w1
      = (Ok (gen_task_id demo_ext ''f01000'' C2 [7, 8]), w2) \<and>
    look_of (FileResource ''/data'') w2 (gen_resource_id demo_ext [7, 8]) = Some [7]"
proof -
  have torn: "io_fault full_disk (Suc (tick empty_world)) = Some (''No space left on device'', Some 1)"
    by (simp add: full_disk_def empty_world_def)
  have path: "path_join ''/data'' (gen_resource_id demo_ext [7, 8]) \<noteq> []" by code_simp
  have free: "path_join ''/data'' (gen_resource_id demo_ext [7, 8]) \<notin> dirs empty_world"
    "files empty_world (path_join ''/data'' (gen_resource_id demo_ext [7, 8])) = None"
    "gen_task_id demo_ext ''f01000'' C2 [7, 8] \<notin> tk_id ` set (task_tab empty_world)" "task_tab empty_world = []"
    by (simp_all add: empty_world_def)
  have addr: "addr_to_string demo_ext ''f01000'' \<noteq> []" by (simp add: demo_ext_def)
  from torn_write_is_accepted[OF torn path free(1,2) _ _ free(3) addr, of quiet "''s-1''" "''s-1''"] free(4)
  show ?thesis by simp blast
qed

section \<open>Worker identity and worker reports\<close>

lemma get_worker_id_Ok: "get_worker_id x e w = (Ok i, w') \<Longrightarrow> wi_single w \<Longrightarrow>
    (\<exists>r. wi_tab w' = [r] \<and> (wi_tab w = [r] \<and> uuid_parse_str x (wi_id r) = Ok i \<or>
       wi_tab w = [] \<and> wi_id r = i \<and> i \<in> range (uuid4 e)))"
proof (cases "wi_tab w")
  case Nil
  then show "get_worker_id x e w = (Ok i, w') \<Longrightarrow> ?thesis"
    by (auto simp: get_worker_id_def stmt_Ok_iff query_def order_rows_def)
next
  case (Cons r rs)
  assume "get_worker_id x e w = (Ok i, w')" "wi_single w"
  with Cons show ?thesis by (auto simp: wi_single_def get_worker_id_def stmt_Ok_iff query_def order_rows_def)
qed

text \<open>Once \<open>get_worker_id\<close> has returned an id, every later call that reaches the database returns
  the same id, from the only row of its table; nothing is written by the later call.\<close>

theorem get_worker_id_stable:
  assumes single: "wi_single w"
    and first: "get_worker_id x e w = (Ok i, w1)"
    and canonical: "\<And>k. uuid_parse_str x (uuid4 e k) = Ok (uuid4 e k)"
    and no_fault: "db_fault e' (tick w1) = None"
  shows "\<exists>w2. get_worker_id x e' w1 = (Ok i, w2) \<and> wi_tab w2 = wi_tab w1 \<and> length (wi_tab w1) = 1"
proof -
  from get_worker_id_Ok[OF first single] obtain r where r: "wi_tab w1 = [r]" "uuid_parse_str x (wi_id r) = Ok i"
    using canonical by auto
  then have "find_one e' wi_tab (\<lambda>_. True) NoOrder w1 = (Ok (Some r), bump w1)"
    using no_fault by (simp add: find_one_Ok_iff query_single)
  then have "get_worker_id x e' w1 = (Ok i, bump w1)"
    using r by (simp add: get_worker_id_def and_then_def lift_res_def)
  with r show ?thesis by simp
qed

theorem get_worker_id_stable_witness:
  "\<exists>w1 w2. get_worker_id demo_ext quiet empty_world = (Ok ''uuid-1'', w1) \<and>
     get_worker_id demo_ext quiet w1 = (Ok ''uuid-1'', w2)"
proof -
  have "fst (get_worker_id demo_ext quiet empty_world) = Ok ''uuid-1''" by code_simp
  then obtain w1 where run: "get_worker_id demo_ext quiet empty_world = (Ok ''uuid-1'', w1)" by (metis prod.collapse)
  have "wi_single empty_world" by (simp add: wi_single_def empty_world_def)
  from get_worker_id_stable[OF this run, of quiet] run show ?thesis by (auto simp: demo_ext_def)
qed

text \<open>C37. A report leaves exactly one row for its worker, with the addresses and types of the report
  and a fresh time stamp; the row keeps its id and creation time if the worker was known, the
  rows of other workers and everything else stay as they were.\<close>

theorem report_worker_upsert:
  assumes inv: "one_row_per_worker w"
    and run: "report_worker_info e wk ips types w = (Ok u, w')"
  shows "\<exists>row. filter (\<lambda>r. ws_worker_id r = wk) (ws_tab w') = [row] \<and>
    ws_ips row = ips \<and> ws_support_types row = types \<and> ws_update_at row \<in> range (clk e) \<and>
    (\<forall>old \<in> set (ws_tab w). ws_worker_id old = wk \<longrightarrow> ws_id row = ws_id old \<and> ws_create_at row = ws_create_at old) \<and>
    filter (\<lambda>r. ws_worker_id r \<noteq> wk) (ws_tab w') = filter (\<lambda>r. ws_worker_id r \<noteq> wk) (ws_tab w) \<and> only_workers w w'"
proof -
  from run have r: "db_report_worker_info e wk ips types w = (Ok (), w')"
    by (simp add: report_worker_info_def internal_call_error_Ok)
  have frame: "only_workers w w'" by (rule evolves_Ok[OF ws_ops_only_workers(1) r])
  let ?q = "first_row (query e ws_tab (\<lambda>r. ws_worker_id r = wk) NoOrder (bump w))"
  show ?thesis
  proof (cases ?q)
    case None
    then have no: "\<forall>r\<in>set (ws_tab w). ws_worker_id r \<noteq> wk" by simp
    from r None obtain i n1 n2 where "ws_tab w' = ws_tab w @ [\<lparr>ws_id = i, ws_worker_id = wk, ws_ips = ips,
        ws_support_types = types, ws_update_at = n1, ws_create_at = n2\<rparr>]" "n1 \<in> range (clk e)"
      by (auto simp: db_report_worker_info_def stmt_Ok_iff simp del: first_row_None)
    with no frame show ?thesis by (simp add: filter_empty_conv)
  next
    case (Some old)
    from first_query_Some[OF Some] have old: "old \<in> set (ws_tab w)" "ws_worker_id old = wk" by auto
    from r Some obtain n where n: "n \<in> range (clk e)"
      and tab: "ws_tab w' = update_rows (\<lambda>r. ws_id r = ws_id old) (\<lambda>r. r\<lparr>ws_worker_id := wk, ws_ips := ips,
        ws_support_types := types, ws_update_at := n\<rparr>) (ws_tab w)"
      by (auto simp: db_report_worker_info_def stmt_Ok_iff)
    let ?new = "old\<lparr>ws_worker_id := wk, ws_ips := ips, ws_support_types := types, ws_update_at := n\<rparr>"
    have tab': "ws_tab w' = map (\<lambda>r. if r = old then ?new else r) (ws_tab w)"
      unfolding tab using inv old(1) by (intro update_key_row) (simp_all add: one_row_per_worker_def keyed_def)
    have uniq: "r = old" if "r \<in> set (ws_tab w)" "ws_worker_id r = wk" for r
      using inv that old distinct_keys_same[of ws_worker_id "ws_tab w" r old]
      by (simp add: one_row_per_worker_def keyed_def)
    have one: "filter (\<lambda>r. ws_worker_id r = wk) (ws_tab w) = [old]"
      using wsw.keyed_unique[of w old] inv old by (simp add: one_row_per_worker_def)
    have "filter (\<lambda>r. ws_worker_id r = wk) (ws_tab w') = map (\<lambda>r. if r = old then ?new else r) (filter (\<lambda>r. ws_worker_id r = wk) (ws_tab w))"
      unfolding tab' filter_map using old(2) by (intro arg_cong[where f = "map _"] filter_cong) auto
    then have "filter (\<lambda>r. ws_worker_id r = wk) (ws_tab w') = [?new]" by (simp add: one)
    moreover have "filter (\<lambda>r. ws_worker_id r \<noteq> wk) (ws_tab w') = map (\<lambda>r. if r = old then ?new else r) (filter (\<lambda>r. ws_worker_id r \<noteq> wk) (ws_tab w))"
      unfolding tab' filter_map using old(2) by (intro arg_cong[where f = "map _"] filter_cong) auto
    then have "filter (\<lambda>r. ws_worker_id r \<noteq> wk) (ws_tab w') = filter (\<lambda>r. ws_worker_id r \<noteq> wk) (ws_tab w)"
      using old(2) by (auto intro!: map_idI)
    ultimately show ?thesis using frame uniq n by (intro exI[of _ ?new]) auto
  qed
qed

theorem report_worker_upsert_witness:
  "\<exists>w' row. (\<exists>u. report_worker_info quiet ''w1'' ''10.0.0.9'' ''C2'' busy_world = (Ok u, w')) \<and>
     filter (\<lambda>r. ws_worker_id r = ''w1'') (ws_tab w') = [row] \<and> ws_id row = ''s1'' \<and> ws_ips row = ''10.0.0.9''"
proof -
  have one: "one_row_per_worker busy_world" by (simp add: one_row_per_worker_def keyed_def busy_world_def)
  have "is_ok (fst (report_worker_info quiet ''w1'' ''10.0.0.9'' ''C2'' busy_world))" by code_simp
  from run_ok[OF this] obtain u w' where run: "report_worker_info quiet ''w1'' ''10.0.0.9'' ''C2'' busy_world = (Ok u, w')"
    by blast
  from report_worker_upsert[OF one run] run show ?thesis by (auto simp: busy_world_def)
qed

lemma sub_i64_exact: "- (2 ^ 63) \<le> a - b \<Longrightarrow> a - b < 2 ^ 63 \<Longrightarrow> sub_i64 a b = a - b"
  unfolding sub_i64_def sint_sbintrunc' by (simp add: signed_take_bit_int_eq_self)

text \<open>C38. \<open>GetOfflineWorker\<close> returns each worker last seen before the deadline, once for each
  row, newest first. The deadline is computed on 64 bits; when the subtraction does not overflow these
  are the workers silent for more than the given number of seconds.\<close>

theorem offline_workers:
  assumes "get_offline_worker e dur w = (Ok vs, w')"
  shows "\<exists>n. n = clk e (tick w) \<and> mset vs = filter_mset (\<lambda>r. ws_update_at r < sub_i64 n dur) (mset (ws_tab w)) \<and>
    sorted_wrt (\<lambda>r s. ws_create_at r \<ge> ws_create_at s) vs \<and>
    (- (2 ^ 63) \<le> n - dur \<and> n - dur < 2 ^ 63 \<longrightarrow> set vs = {r \<in> set (ws_tab w). ws_update_at r + dur < n})"
proof -
  from assms have vs: "vs = query e ws_tab (\<lambda>r. ws_update_at r < sub_i64 (clk e (tick w)) dur) (Desc ws_create_at) (bump (bump w))"
    by (auto simp: get_offline_worker_def internal_call_error_Ok db_get_offline_worker_def stmt_Ok_iff Let_def)
  have "sorted (map (\<lambda>r. - ws_create_at r) vs)" unfolding vs by (rule query_Desc_sorted)
  then have "sorted_wrt (\<lambda>r s. ws_create_at r \<ge> ws_create_at s) vs" by (simp add: sorted_map)
  with sub_i64_exact[of "clk e (tick w)" dur] show ?thesis
    by (intro exI[of _ "clk e (tick w)"]) (auto simp: vs mset_query)
qed

theorem offline_workers_witness:
  "\<exists>vs w'. get_offline_worker quiet 300 busy_world = (Ok vs, w') \<and> map ws_id vs = [''s1''] \<and>
     mset vs = filter_mset (\<lambda>r. ws_update_at r < sub_i64 1000 300) (mset (ws_tab busy_world))"
proof -
  have "res_map_ok (map ws_id) (fst (get_offline_worker quiet 300 busy_world)) = Ok [''s1'']" by code_simp
  then obtain vs w' where run: "get_offline_worker quiet 300 busy_world = (Ok vs, w')" "map ws_id vs = [''s1'']"
    by (cases "get_offline_worker quiet 300 busy_world") (auto simp: res_map_ok_eq_Ok)
  from offline_workers[OF run(1)] run show ?thesis by (auto simp: demo_defs)
qed

section \<open>The database file\<close>

text \<open>For an SQLite URL that names a file, \<open>ensure_db_file\<close> leaves a file or directory at that
  path, does not change any file that existed nor any other path nor a table, and a second call changes
  no file.\<close>

theorem ensure_db_file_contract:
  assumes url: "prefix ''sqlite'' url" "db_path_of_url url \<noteq> '':memory:''"
    and run: "ensure_db_file e url w = (Ok u, w')"
    and no_fault: "io_fault e (tick w) = None"
  shows "(files w' (db_path_of_url url) \<noteq> None \<or> db_path_of_url url \<in> dirs w') \<and>
    (\<forall>p. files w p \<noteq> None \<or> p \<noteq> db_path_of_url url \<longrightarrow> files w' p = files w p) \<and> same_tabs w w' \<and>
    (io_fault e' (tick w') = None \<longrightarrow> (\<exists>w''. ensure_db_file e' url w' = (Ok u, w'') \<and> files w'' = files w'))"
proof -
  let ?p = "db_path_of_url url"
  have tabs: "same_tabs w w'"
    using run unfolding ensure_db_file_def
    by (rule evolves_Ok[rotated]) (intro evolve stabs.pure_rules fs_same_tabs evolves_let)
  have "(files w' ?p \<noteq> None \<or> ?p \<in> dirs w') \<and> (\<forall>p. files w p \<noteq> None \<or> p \<noteq> ?p \<longrightarrow> files w' p = files w p)"
    using run url no_fault
    by (auto simp: ensure_db_file_def Let_def and_then_Ok_iff fs_exists_def fs_create_def ok_def
        split: if_splits option.splits)
  moreover from this have "io_fault e' (tick w') = None \<longrightarrow> (\<exists>w''. ensure_db_file e' url w' = (Ok u, w'') \<and> files w'' = files w')"
    using url by (auto simp: ensure_db_file_def Let_def and_then_def fs_exists_def ok_def)
  ultimately show ?thesis using tabs by blast
qed

theorem ensure_db_file_contract_witness:
  "\<exists>w'. (\<exists>u. ensure_db_file quiet ''sqlite:///root/gpuproxy.db?mode=rw'' empty_world = (Ok u, w')) \<and>
     files w' ''/root/gpuproxy.db'' \<noteq> None"
proof -
  let ?url = "''sqlite:///root/gpuproxy.db?mode=rw''"
  have p: "db_path_of_url ?url = ''/root/gpuproxy.db''" by code_simp
  have d: "dirs (snd (ensure_db_file quiet ?url empty_world)) = {}"
    by (simp add: ensure_db_file_def p Let_def and_then_def fs_exists_def fs_create_def empty_world_def)
  have "is_ok (fst (ensure_db_file quiet ?url empty_world))"
    by (simp add: ensure_db_file_def p Let_def and_then_def fs_exists_def fs_create_def empty_world_def)
  from run_ok[OF this] obtain u w' where run: "ensure_db_file quiet ?url empty_world = (Ok u, w')" by blast
  from ensure_db_file_contract[OF _ _ run, of quiet] p d run show ?thesis by (auto simp: empty_world_def)
qed

end
