(* ===== verification/Local_Worker.thy ===== *)
theory Local_Worker
  imports Task_Handout
begin

text \<open>
  The GPU worker of \<open>gpuproxy/src/proxy_rpc/worker.rs\<close>: what it registers with the
  server, the computation of a proof with its error cases, the bounded retries for the
  parameters, and the two concurrent tasks of \<open>process_tasks\<close> (the fetcher, the executor,
  and the computations the executor spawns) as a step relation over their shared counter and channels.
  The proving library is a parameter: \<open>seal\<close> is one run of it, \<open>seals\<close> the runs it may have. The store the worker reads from is the parameter
  \<open>resource\<close>; the passing of time between polls is not modelled.
\<close>

record local_worker =
  lw_worker_id :: string
  lw_max_task :: "64 word"
  lw_allow_types :: "task_type list option"

section \<open>Registration\<close>

datatype ip_addr = IPv4 byte byte byte byte | IPv6 string

fun ip_text :: "ip_addr \<Rightarrow> string" where
  "ip_text (IPv4 a b c d) = show_nat (unat a) @ ''.'' @ show_nat (unat b) @ ''.'' @ show_nat (unat c) @ ''.'' @ show_nat (unat d)"
| "ip_text (IPv6 s) = s"

fun is_ipv4 :: "ip_addr \<Rightarrow> bool" where
  "is_ipv4 (IPv4 _ _ _ _) = True"
| "is_ipv4 (IPv6 _) = False"

definition ip_rank :: "string \<times> ip_addr \<Rightarrow> nat" where
  "ip_rank v = (if is_ipv4 (snd v) then 0 else 1)"

definition loop_back_addr :: "string list" where
  "loop_back_addr = [''0:0:0:0:0:0:0:1'', ''::1'', ''127.0.0.1'']"

definition local_ips :: "(string \<times> ip_addr) list \<Rightarrow> string list" where
  "local_ips ip_vec = map (\<lambda>ip. ip_text (snd ip))
     (filter (\<lambda>v. ip_text (snd v) \<notin> set loop_back_addr) (sort_key ip_rank ip_vec))"

fun join_with :: "string \<Rightarrow> string list \<Rightarrow> string" where
  "join_with sep [] = []"
| "join_with sep [s] = s"
| "join_with sep (s # t # ss) = s @ sep @ join_with sep (t # ss)"

definition register_info ::
  "local_worker \<Rightarrow> string option \<Rightarrow> ((string \<times> ip_addr) list, string) result \<Rightarrow> (string \<times> string, string) result" where
  "register_info lw manual_ip netifas =
     (let support_types = (case lw_allow_types lw of
            Some types \<Rightarrow> join_with ''|'' (map task_type_fmt types) | None \<Rightarrow> '''') in
      case manual_ip of
        Some ip \<Rightarrow> Ok (ip, support_types)
      | None \<Rightarrow> res_map_ok (\<lambda>ip_vec. (join_with ''|'' (local_ips ip_vec), support_types)) netifas)"

definition report_tick ::
  "('addr, 'c1) ext \<Rightarrow> env \<Rightarrow> backend \<Rightarrow> local_worker \<Rightarrow> string \<times> string \<Rightarrow> world \<Rightarrow> world" where
  "report_tick x e b lw info w = snd (wc_report_worker_info x e b (lw_worker_id lw) (fst info) (snd info) w)"

fun report_loop ::
  "('addr, 'c1) ext \<Rightarrow> env \<Rightarrow> backend \<Rightarrow> local_worker \<Rightarrow> string \<times> string \<Rightarrow> nat \<Rightarrow> world \<Rightarrow> world" where
  "report_loop x e b lw info 0 w = w"
| "report_loop x e b lw info (Suc n) w = report_loop x e b lw info n (report_tick x e b lw info w)"

lemma sort_two_classes:
  assumes "\<And>x. x \<in> set xs \<Longrightarrow> k x \<le> (1::nat)"
  shows "sort_key k xs = filter (\<lambda>x. k x = 0) xs @ filter (\<lambda>x. k x = 1) xs"
proof (rule properties_for_sort_key)
  show "mset (filter (\<lambda>x. k x = 0) xs @ filter (\<lambda>x. k x = 1) xs) = mset xs"
    using assms by (induction xs) (force simp: le_Suc_eq)+
  show "sorted (map k (filter (\<lambda>x. k x = 0) xs @ filter (\<lambda>x. k x = 1) xs))"
    using assms by (induction xs) (force simp: sorted_append le_Suc_eq)+
  fix y assume "y \<in> set (filter (\<lambda>x. k x = 0) xs @ filter (\<lambda>x. k x = 1) xs)"
  then consider "k y = 0" | "k y = 1" by auto
  then show "filter (\<lambda>x. k y = k x) (filter (\<lambda>x. k x = 0) xs @ filter (\<lambda>x. k x = 1) xs) = filter (\<lambda>x. k y = k x) xs"
  proof cases
    case 1
    then have "(\<lambda>x. k x = 0 \<and> k y = k x) = (\<lambda>x. k y = k x)" "(\<lambda>x. k x = 1 \<and> k y = k x) = (\<lambda>_. False)" by (auto simp: fun_eq_iff)
    then show ?thesis by (simp add: filter_filter)
  next
    case 2
    then have "(\<lambda>x. k x = 0 \<and> k y = k x) = (\<lambda>_. False)" "(\<lambda>x. k x = 1 \<and> k y = k x) = (\<lambda>x. k y = k x)" by (auto simp: fun_eq_iff)
    then show ?thesis by (simp add: filter_filter)
  qed
qed

lemma ipv4_text_dot: "is_ipv4 ip \<Longrightarrow> CHR ''.'' \<in> set (ip_text ip)"
  by (cases ip) auto

text \<open>A worker without a manual address registers all its addresses that are no loop-back
  addresses: first the IPv4 ones, then the IPv6 ones, each group in the order the system lists them.\<close>

theorem registered_addresses:
  "local_ips ip_vec =
     map (\<lambda>v. ip_text (snd v)) (filter (\<lambda>v. is_ipv4 (snd v) \<and> ip_text (snd v) \<noteq> ''127.0.0.1'') ip_vec) @
     map (\<lambda>v. ip_text (snd v)) (filter (\<lambda>v. \<not> is_ipv4 (snd v) \<and> ip_text (snd v) \<notin> set loop_back_addr) ip_vec)"
proof -
  have "sort_key ip_rank ip_vec = filter (\<lambda>v. is_ipv4 (snd v)) ip_vec @ filter (\<lambda>v. \<not> is_ipv4 (snd v)) ip_vec"
    by (subst sort_two_classes) (auto simp: ip_rank_def intro!: filter_cong)
  moreover have "ip_text ip \<in> set loop_back_addr \<longleftrightarrow> ip_text ip = ''127.0.0.1''" if "is_ipv4 ip" for ip
    using ipv4_text_dot[OF that] by (auto simp: loop_back_addr_def)
  ultimately show ?thesis
    by (auto simp: local_ips_def filter_filter conj_commute intro!: arg_cong[where f = "map _"] filter_cong)
qed

section \<open>Computing a proof\<close>

text \<open>What \<open>spawn_blocking\<close> brings back: the result of the closure, its panic, or a cancellation.\<close>

datatype panic_payload = StrPayload string | StringPayload string | OtherPayload

datatype join_result = Joined "(bytes, string) result" | JoinPanic panic_payload | JoinCancelled string

text \<open>One run of the prover. It is a parameter.\<close>

type_synonym 'c1 prover = "'c1 \<Rightarrow> bytes \<Rightarrow> 64 word \<Rightarrow> join_result"

definition c2_job :: "('addr, 'c1) ext \<Rightarrow> 'c1 prover \<Rightarrow> bytes \<Rightarrow> join_result" where
  "c2_job x seal resource =
     (case c2_from_slice x resource of
        Ok r \<Rightarrow> seal (c1out r) (prover_id r) (sector_id r)
      | Err _ \<Rightarrow> Joined (Err ''deserialize c2 resource'')
      | Panic m \<Rightarrow> JoinPanic (StringPayload m))"

definition c2 :: "('addr, 'c1) ext \<Rightarrow> 'c1 prover \<Rightarrow> bytes \<Rightarrow> (bytes, string) result" where
  "c2 x seal resource =
     (case c2_job x seal resource of
        Joined task_result \<Rightarrow> task_result
      | JoinPanic payload \<Rightarrow>
          let message = (case payload of StrPayload m \<Rightarrow> m | StringPayload m \<Rightarrow> m
                                       | OtherPayload \<Rightarrow> ''non string panic payload'')
          in Err (''Panic: '' @ message)
      | JoinCancelled m \<Rightarrow> Err m)"

text \<open>The prover is randomised and may fail: a computation runs as one of a set of provers, and a proof of \<open>resource\<close>
  is one that some run of \<open>c2\<close> returns.\<close>

definition proof_of :: "('addr, 'c1) ext \<Rightarrow> 'c1 prover set \<Rightarrow> bytes \<Rightarrow> bytes \<Rightarrow> bool" where
  "proof_of x seals resource pr \<longleftrightarrow> (\<exists>seal \<in> seals. c2 x seal resource = Ok pr)"

lemma proof_of_single [simp]: "proof_of x {seal} d pr \<longleftrightarrow> c2 x seal d = Ok pr"
  by (simp add: proof_of_def)

definition execute_task :: "('addr, 'c1) ext \<Rightarrow> 'c1 prover \<Rightarrow> task \<Rightarrow> bytes \<Rightarrow> (bytes, string) result" where
  "execute_task x seal undo_task resource =
     (if tk_type undo_task = C2 then c2 x seal resource else Err ''unsupported type of task'')"

section \<open>Fetching the parameters, with retries\<close>

text \<open>\<open>RETRY_SUM\<close> as \<open>str::parse::<u32>\<close> reads it, 5 if it is missing or malformed.\<close>

definition parse_u32 :: "string \<Rightarrow> int option" where
  "parse_u32 s =
     (let ds = (case s of [] \<Rightarrow> [] | c # r \<Rightarrow> if c = CHR ''+'' then r else s) in
      if ds = [] \<or> \<not> list_all (\<lambda>c. c \<in> set ''0123456789'') ds then None
      else let n = foldl (\<lambda>n c. 10 * n + (of_char c - 48)) 0 ds in
        if n < 2 ^ 32 then Some n else None)"

definition retry_sum_of_env :: "string option \<Rightarrow> 32 word" where
  "retry_sum_of_env env_value =
     (case parse_u32 (case env_value of None \<Rightarrow> ''5'' | Some s \<Rightarrow> s) of None \<Rightarrow> 5 | Some n \<Rightarrow> word_of_int n)"

text \<open>The parameters are there, another attempt follows, the task is given up, or the executor ended by a panic.\<close>

datatype attempt = Prepared bytes | Again "32 word" | Abandoned | Died string

text \<open>What the loop does after an attempt, and after a sequence of attempts.\<close>

definition after_attempt :: "32 word \<Rightarrow> 32 word \<Rightarrow> (bytes, string) result \<Rightarrow> attempt" where
  "after_attempt retry_sum retry_count r =
     (case r of Ok d \<Rightarrow> Prepared d
      | Err _ \<Rightarrow> if retry_count \<le> retry_sum then Again (retry_count + 1) else Abandoned
      | Panic p \<Rightarrow> Died p)"

fun prepare :: "32 word \<Rightarrow> 32 word \<Rightarrow> (bytes, string) result list \<Rightarrow> attempt" where
  "prepare rs rc [] = Again rc"
| "prepare rs rc (r # outcomes) =
     (case after_attempt rs rc r of Again rc' \<Rightarrow> prepare rs rc' outcomes | decision \<Rightarrow> decision)"

text \<open>An answer that ends the loop by itself.\<close>

fun decisive :: "(bytes, string) result \<Rightarrow> bool" where
  "decisive (Err _) = False"
| "decisive _ = True"

definition decision :: "(bytes, string) result option \<Rightarrow> attempt" where
  "decision r = (case r of Some (Ok d) \<Rightarrow> Prepared d | Some (Panic p) \<Rightarrow> Died p | _ \<Rightarrow> Abandoned)"

lemma prepare_from:
  assumes "unat rs < 2 ^ 32 - 1" "rc \<noteq> 0" "unat rc \<le> unat rs + 1" "length outcomes > unat rs + 1 - unat rc"
  shows "prepare rs rc outcomes = decision (find decisive (take (unat rs + 2 - unat rc) outcomes))"
  using assms
proof (induction outcomes arbitrary: rc)
  case (Cons r outcomes)
  show ?case
  proof (cases "rc \<le> rs")
    case True
    have le: "unat rc \<le> unat rs" using True by (simp add: word_le_nat_alt)
    have up: "unat (rc + 1) = unat rc + 1"
      using le Cons.prems(1) by (simp add: unat_word_ariths)
    have "rc + 1 \<noteq> 0" using up by (metis add_is_0 unat_0 zero_neq_one)
    then have IH: "prepare rs (rc + 1) outcomes = decision (find decisive (take (unat rs + 2 - unat (rc + 1)) outcomes))"
      using Cons.prems le up by (intro Cons.IH) auto
    have "take (unat rs + 2 - unat rc) (r # outcomes) = r # take (unat rs + 2 - unat (rc + 1)) outcomes"
      using le up by (simp add: Suc_diff_le take_Cons')
    with IH True show ?thesis by (cases r) (auto simp: after_attempt_def decision_def)
  next
    case False
    then have "unat rc = unat rs + 1" using Cons.prems(3) by (simp add: word_le_nat_alt)
    then have "take (unat rs + 2 - unat rc) (r # outcomes) = [r]" by simp
    with False show ?thesis by (cases r) (auto simp: after_attempt_def decision_def)
  qed
qed simp

text \<open>C34. For any \<open>RETRY_SUM\<close> but the largest 32-bit number, the parameters of a task are requested at most one
  time more than that, and the first of these attempts that does not end in an error decides: if it returns bytes
  they are used, if it panics the executor ends with it, and without a further attempt in either case. If all of them
  end in errors the task is given up.\<close>

theorem retries_bounded:
  assumes "unat rs < 2 ^ 32 - 1" "unat rs < length outcomes"
  shows "prepare rs 1 outcomes =
    (case find decisive (take (unat rs + 1) outcomes) of
       Some (Ok d) \<Rightarrow> Prepared d | Some (Panic p) \<Rightarrow> Died p | _ \<Rightarrow> Abandoned)"
  using prepare_from[of rs 1 outcomes] assms by (simp add: decision_def)

theorem retries_bounded_witness:
  "prepare (retry_sum_of_env None) 1 (replicate 5 (Err ''timeout'') @ [Ok [7]]) = Prepared [7] \<and>
   prepare (retry_sum_of_env (Some ''0'')) 1 [Err ''timeout'', Ok [7]] = Abandoned \<and>
   prepare (retry_sum_of_env (Some ''0'')) 1 [Panic ''decode'', Ok [7]] = Died ''decode''"
proof -
  have rs: "retry_sum_of_env None = 5" "retry_sum_of_env (Some ''0'') = 0" by code_simp+
  let ?o = "replicate 5 (Err ''timeout'') @ [Ok [7]] :: (bytes, string) result list"
  have "unat (5 :: 32 word) < length ?o" "unat (0 :: 32 word) < length [Err ''timeout'', Ok [7::byte]]"
    "unat (5 :: 32 word) < 2 ^ 32 - 1" "unat (0 :: 32 word) < 2 ^ 32 - 1"
    "unat (0 :: 32 word) < length [Panic ''decode'', Ok [7::byte]]" by simp_all
  note p = retries_bounded[OF this(3,1)] retries_bounded[OF this(4,2)] retries_bounded[OF this(4,5)]
  have "find decisive (take (unat (5 :: 32 word) + 1) ?o) = Some (Ok [7])"
    "find decisive (take (unat (0 :: 32 word) + 1) [Err ''timeout'', Ok [7::byte]]) = None"
    "find decisive (take (unat (0 :: 32 word) + 1) [Panic ''decode'', Ok [7::byte]]) = Some (Panic ''decode'')"
    by code_simp+
  with p show ?thesis unfolding rs by (simp only: option.case result.case)
qed

section \<open>The two tasks of a worker\<close>

text \<open>
  The fetcher: before its first call, at the head of its loop with the backlog of unfinished tasks, about to
  send a task, between the send and the increment of the counter, or ended by a panic. The
  executor: at its \<open>select!\<close>, in attempt number n of reading the parameters of a task, or
  ended by a panic. \<open>outs\<close> is the result channel with the senders waiting for it.
\<close>

datatype fetcher = Starting | Waiting "task list" | Sending "task list" task | Counting "task list" | FetcherDead

datatype executor = Selecting | Preparing task "32 word" | ExecutorDead task

record machine =
  wld :: world
  count :: "64 word"
  chan :: "task list"
  fet :: fetcher
  exe :: executor
  jobs :: "(task \<times> bytes) list"
  outs :: "(task \<times> (bytes, string) result) list"

text \<open>A channel of capacity zero, or of more than the permits of a semaphore, is a panic; otherwise both tasks are
  spawned.\<close>

definition process_tasks :: "local_worker \<Rightarrow> world \<Rightarrow> (machine, string) result" where
  "process_tasks lw w =
     (if lw_max_task lw = 0 then Panic ''mpsc bounded channel requires buffer > 0''
      else if 2 ^ 61 \<le> lw_max_task lw then Panic ''a semaphore may not have more than MAX_PERMITS permits''
      else Ok \<lparr>wld = w, count = 0, chan = [], fet = Starting, exe = Selecting, jobs = [], outs = []\<rparr>)"

definition report_result ::
  "('addr, 'c1) ext \<Rightarrow> env \<Rightarrow> backend \<Rightarrow> local_worker \<Rightarrow> task \<Rightarrow> (bytes, string) result \<Rightarrow> unit db" where
  "report_result x e b lw undo_task exec_result =
     (case exec_result of
        Ok proof_arg \<Rightarrow> wc_record_proof x e b (lw_worker_id lw) (tk_id undo_task) proof_arg
      | Err m \<Rightarrow> wc_record_error x e b (lw_worker_id lw) (tk_id undo_task) m
      | Panic m \<Rightarrow> lift_res (Panic m))"

text \<open>
  One step of the fetcher (\<open>resume\<close> to \<open>add_count\<close>), the executor (\<open>recv\<close> to \<open>crash\<close>, and \<open>report\<close>),
  a computation (\<open>finish\<close>), or of other clients of the server that send \<open>allowed\<close> requests.
\<close>

inductive worker_step ::
  "('addr, 'c1) ext \<Rightarrow> env \<Rightarrow> backend \<Rightarrow> (string \<Rightarrow> bytes db) \<Rightarrow> 'c1 prover set \<Rightarrow> 32 word \<Rightarrow> local_worker \<Rightarrow>
   (request \<Rightarrow> bool) \<Rightarrow> machine \<Rightarrow> machine \<Rightarrow> bool"
  for x e b resource seals rs lw allowed where
  resume: "fet m = Starting \<Longrightarrow> wc_fetch_uncompleted x e b (lw_worker_id lw) (wld m) = (Ok ts, w') \<Longrightarrow>
     worker_step x e b resource seals rs lw allowed m (m\<lparr>wld := w', fet := Waiting ts\<rparr>)"
| resume_panic: "fet m = Starting \<Longrightarrow> wc_fetch_uncompleted x e b (lw_worker_id lw) (wld m) = (r, w') \<Longrightarrow> \<not> is_ok r \<Longrightarrow>
     worker_step x e b resource seals rs lw allowed m (m\<lparr>wld := w', fet := FetcherDead\<rparr>)"
| full: "fet m = Waiting ts \<Longrightarrow> lw_max_task lw \<le> count m \<Longrightarrow>
     worker_step x e b resource seals rs lw allowed m m"
| pop: "fet m = Waiting ts \<Longrightarrow> count m < lw_max_task lw \<Longrightarrow> ts \<noteq> [] \<Longrightarrow>
     worker_step x e b resource seals rs lw allowed m (m\<lparr>fet := Sending (butlast ts) (last ts)\<rparr>)"
| fetch: "fet m = Waiting [] \<Longrightarrow> count m < lw_max_task lw \<Longrightarrow>
     wc_fetch_one_todo x e b (lw_worker_id lw) (lw_allow_types lw) (wld m) = (Ok t, w') \<Longrightarrow>
     worker_step x e b resource seals rs lw allowed m (m\<lparr>wld := w', fet := Sending [] t\<rparr>)"
| fetch_none: "fet m = Waiting [] \<Longrightarrow> count m < lw_max_task lw \<Longrightarrow>
     wc_fetch_one_todo x e b (lw_worker_id lw) (lw_allow_types lw) (wld m) = (r, w') \<Longrightarrow> \<not> is_ok r \<Longrightarrow>
     worker_step x e b resource seals rs lw allowed m (m\<lparr>wld := w'\<rparr>)"
| send: "fet m = Sending ts t \<Longrightarrow> length (chan m) < unat (lw_max_task lw) \<Longrightarrow> (\<forall>t'. exe m \<noteq> ExecutorDead t') \<Longrightarrow>
     worker_step x e b resource seals rs lw allowed m (m\<lparr>chan := chan m @ [t], fet := Counting ts\<rparr>)"
| send_fails: "fet m = Sending ts t \<Longrightarrow> exe m = ExecutorDead t' \<Longrightarrow>
     worker_step x e b resource seals rs lw allowed m (m\<lparr>fet := Waiting ts\<rparr>)"
| add_count: "fet m = Counting ts \<Longrightarrow>
     worker_step x e b resource seals rs lw allowed m (m\<lparr>count := count m + 1, fet := Waiting ts\<rparr>)"
| recv: "exe m = Selecting \<Longrightarrow> chan m = t # c \<Longrightarrow>
     worker_step x e b resource seals rs lw allowed m (m\<lparr>chan := c, exe := Preparing t 1\<rparr>)"
| retry: "exe m = Preparing t rc \<Longrightarrow> resource (tk_resource_id t) (wld m) = (r, w') \<Longrightarrow>
     after_attempt rs rc r = Again rc' \<Longrightarrow>
     worker_step x e b resource seals rs lw allowed m (m\<lparr>wld := w', exe := Preparing t rc'\<rparr>)"
| prepared: "exe m = Preparing t rc \<Longrightarrow> resource (tk_resource_id t) (wld m) = (r, w') \<Longrightarrow>
     after_attempt rs rc r = Prepared d \<Longrightarrow>
     worker_step x e b resource seals rs lw allowed m (m\<lparr>wld := w', exe := Selecting, jobs := (t, d) # jobs m\<rparr>)"
| abandon: "exe m = Preparing t rc \<Longrightarrow> resource (tk_resource_id t) (wld m) = (r, w') \<Longrightarrow>
     after_attempt rs rc r = Abandoned \<Longrightarrow>
     worker_step x e b resource seals rs lw allowed m (m\<lparr>wld := w', exe := Selecting, count := count m - 1\<rparr>)"
| crash: "exe m = Preparing t rc \<Longrightarrow> resource (tk_resource_id t) (wld m) = (r, w') \<Longrightarrow>
     after_attempt rs rc r = Died p \<Longrightarrow>
     worker_step x e b resource seals rs lw allowed m (m\<lparr>wld := w', exe := ExecutorDead t\<rparr>)"
| finish: "(t, d) \<in> set (jobs m) \<Longrightarrow> seal \<in> seals \<Longrightarrow>
     worker_step x e b resource seals rs lw allowed m
       (m\<lparr>jobs := remove1 (t, d) (jobs m), outs := outs m @ [(t, execute_task x seal t d)]\<rparr>)"
| report: "exe m = Selecting \<Longrightarrow> outs m = (t, r) # os \<Longrightarrow>
     worker_step x e b resource seals rs lw allowed m
       (m\<lparr>wld := snd (report_result x e b lw t r (wld m)), outs := os, count := count m - 1\<rparr>)"
| others: "allowed req \<Longrightarrow> worker_step x e b resource seals rs lw allowed m (m\<lparr>wld := exchange x e b req (wld m)\<rparr>)"

inductive worker_reach ::
  "('addr, 'c1) ext \<Rightarrow> env \<Rightarrow> backend \<Rightarrow> (string \<Rightarrow> bytes db) \<Rightarrow> 'c1 prover set \<Rightarrow> 32 word \<Rightarrow> local_worker \<Rightarrow>
   (request \<Rightarrow> bool) \<Rightarrow> world \<Rightarrow> machine \<Rightarrow> bool"
  for x e b resource seals rs lw allowed w0 where
  start: "process_tasks lw w0 = Ok m \<Longrightarrow> worker_reach x e b resource seals rs lw allowed w0 m"
| step: "worker_reach x e b resource seals rs lw allowed w0 m \<Longrightarrow> worker_step x e b resource seals rs lw allowed m m' \<Longrightarrow>
     worker_reach x e b resource seals rs lw allowed w0 m'"

text \<open>The tasks the executor side is responsible for, and those the fetcher still holds.\<close>

definition held :: "machine \<Rightarrow> task list" where
  "held m = chan m @ (case exe m of Selecting \<Rightarrow> [] | Preparing t _ \<Rightarrow> [t] | ExecutorDead t \<Rightarrow> [t]) @
     map fst (jobs m) @ map fst (outs m)"

definition waiting :: "machine \<Rightarrow> task list" where
  "waiting m = (case fet m of Waiting ts \<Rightarrow> ts | Sending ts t \<Rightarrow> t # ts | Counting ts \<Rightarrow> ts | _ \<Rightarrow> [])"

definition uncounted :: "machine \<Rightarrow> nat" where
  "uncounted m = (case fet m of Counting _ \<Rightarrow> 1 | _ \<Rightarrow> 0)"

definition capacity_inv :: "local_worker \<Rightarrow> machine \<Rightarrow> bool" where
  "capacity_inv lw m \<longleftrightarrow> count m + word_of_nat (uncounted m) = word_of_nat (length (held m)) \<and>
     length (held m) + (case fet m of Sending _ _ \<Rightarrow> 1 | _ \<Rightarrow> 0) \<le> unat (lw_max_task lw)"

lemma capacity_count:
  assumes "capacity_inv lw m"
  shows "unat (count m + word_of_nat (uncounted m)) = length (held m)"
proof -
  have "length (held m) < 2 ^ 64" using assms unsigned_less[of "lw_max_task lw", where ?'a = nat]
    by (auto simp: capacity_inv_def)
  then have "unat (word_of_nat (length (held m)) :: 64 word) = length (held m)"
    by (simp add: unat_of_nat take_bit_nat_eq_self)
  with assms show ?thesis by (simp add: capacity_inv_def)
qed

lemma worker_step_capacity:
  assumes "worker_step x e b resource seals rs lw allowed m m'" "capacity_inv lw m"
  shows "capacity_inv lw m'"
  using assms(1)
proof cases
  case (finish t d seal)
  then have "length (held m') = length (held m)"
    by (simp add: held_def length_remove1) (metis One_nat_def Suc_pred length_pos_if_in_set)
  with finish assms(2) show ?thesis by (simp add: capacity_inv_def uncounted_def)
next
  case (pop ts)
  then have "length (held m) < unat (lw_max_task lw)"
    using capacity_count[OF assms(2)] by (simp add: uncounted_def word_less_nat_alt)
  with pop assms(2) show ?thesis by (simp add: capacity_inv_def held_def uncounted_def)
next
  case (fetch t w')
  then have "length (held m) < unat (lw_max_task lw)"
    using capacity_count[OF assms(2)] by (simp add: uncounted_def word_less_nat_alt)
  with fetch assms(2) show ?thesis by (simp add: capacity_inv_def held_def uncounted_def)
qed (use assms(2) in \<open>auto simp: capacity_inv_def held_def uncounted_def algebra_simps split: fetcher.splits\<close>)

lemma worker_reach_capacity:
  "worker_reach x e b resource seals rs lw allowed w0 m \<Longrightarrow> capacity_inv lw m"
proof (induction rule: worker_reach.induct)
  case (start m)
  then show ?case by (auto simp: process_tasks_def capacity_inv_def held_def uncounted_def split: if_splits)
qed (rule worker_step_capacity)

text \<open>C23. However fetcher, executor and computations interleave, a worker never has more tasks in its channel, in
  preparation, in computation and waiting to be reported than its \<open>max_task\<close>; its 64-bit counter is that number
  except between a send and the increment after it, when it may even have wrapped below zero; and
  the channel has room whenever the fetcher sends.\<close>

theorem worker_capacity:
  assumes "worker_reach x e b resource seals rs lw allowed w0 m"
  shows "length (held m) \<le> unat (lw_max_task lw) \<and>
    unat (count m + word_of_nat (uncounted m)) = length (held m) \<and>
    (\<forall>ts t. fet m = Sending ts t \<longrightarrow> length (chan m) < unat (lw_max_task lw))"
  using worker_reach_capacity[OF assms] capacity_count[OF worker_reach_capacity[OF assms]]
  by (auto simp: capacity_inv_def held_def)


section \<open>No task twice\<close>

lemma expect_evolves:
  assumes "step_rel R"
  shows "evolves R (expect_task r)" "evolves R (expect_tasks r)" "evolves R (expect_unit r)" "evolves R (expect_bytes x r)"
  using assms
  by (auto simp: evolves_def expect_task_def expect_tasks_def expect_unit_def expect_bytes_def bad_reply_def
      ok_def lift_res_def step_rel.refl split: response.split)

lemma wc_evolves:
  assumes rel: "world_rel R" and serve: "evolves R (serve x e b r)" and f: "\<And>a. evolves R (f a)"
  shows "evolves R (and_then (rpc_call x e b r) f)"
  by (rule step_rel.seq[OF world_rel.axioms(1)[OF rel] rpc_call_evolves[OF rel serve] f])

lemma expect_Ok:
  "expect_task r w = (Ok t, w') \<longleftrightarrow> r = RTask t \<and> w' = w"
  "expect_tasks r w = (Ok ts, w') \<longleftrightarrow> r = RTasks ts \<and> w' = w"
  by (cases r; auto simp: expect_task_def expect_tasks_def bad_reply_def ok_def lift_res_def)+

lemmas wc_worker_defs = wc_fetch_uncompleted_def wc_fetch_one_todo_def wc_record_proof_def wc_record_error_def

definition safe_change :: "world \<Rightarrow> world \<Rightarrow> bool" where
  "safe_change w w' \<longleftrightarrow> (keyed task_tab tk_id w \<longrightarrow> keyed task_tab tk_id w') \<and> stays_past w w'"

interpretation sc: world_rel safe_change
  by unfold_locales (auto simp: safe_change_def keyed_def stays_past_def past_ids_def)

lemma serve_safe: "claim_safe r \<Longrightarrow> evolves safe_change (serve x e b r)"
  using serve_keyed_tasks[of x e b r] serve_stays_past[of r x e b] by (simp add: evolves_def safe_change_def)

lemma worker_calls_safe:
  "evolves safe_change (wc_fetch_uncompleted x e b wk)" "evolves safe_change (wc_fetch_one_todo x e b wk ts)"
  "evolves safe_change (report_result x e b lw t r)"
  "claim_safe req \<Longrightarrow> safe_change w (exchange x e b req w)"
proof -
  show "evolves safe_change (report_result x e b lw t r)"
    by (cases r) (simp_all add: report_result_def wc_worker_defs sc.pure_lift_res,
        (rule wc_evolves[OF sc.world_rel_axioms serve_safe expect_evolves(3)[OF sc.step_rel_axioms]], simp)+)
  show "claim_safe req \<Longrightarrow> safe_change w (exchange x e b req w)"
    unfolding exchange_def by (rule evolvesD[OF rpc_call_evolves[OF sc.world_rel_axioms serve_safe]])
  show "evolves safe_change (wc_fetch_uncompleted x e b wk)" unfolding wc_worker_defs
    by (rule wc_evolves[OF sc.world_rel_axioms serve_safe expect_evolves(2)[OF sc.step_rel_axioms]]) simp
  show "evolves safe_change (wc_fetch_one_todo x e b wk ts)" unfolding wc_worker_defs
    by (rule wc_evolves[OF sc.world_rel_axioms serve_safe expect_evolves(1)[OF sc.step_rel_axioms]]) simp
qed

definition ids :: "machine \<Rightarrow> string list" where
  "ids m = map tk_id (held m @ waiting m)"

definition single_inv :: "machine \<Rightarrow> bool" where
  "single_inv m \<longleftrightarrow> keyed task_tab tk_id (wld m) \<and> distinct (ids m) \<and> set (ids m) \<subseteq> past_ids (wld m) \<and>
     (fet m = Starting \<longrightarrow> held m = [])"

lemma distinct_mset_sub: "mset xs \<subseteq># mset ys \<Longrightarrow> distinct ys \<Longrightarrow> distinct xs"
  by (metis distinct_append ex_mset mset_append mset_eq_imp_distinct_iff subset_mset.le_iff_add)

lemma single_inv_shrink:
  assumes "single_inv m" "safe_change (wld m) (wld m')" "mset (ids m') \<subseteq># mset (ids m)"
    and "fet m' = Starting \<Longrightarrow> fet m = Starting \<and> held m' = []"
  shows "single_inv m'"
  using assms distinct_mset_sub[OF assms(3)] set_mset_mono[OF assms(3)]
  by (auto simp: single_inv_def safe_change_def stays_past_def)

text \<open>A worker asks for the tasks that are running under its id, and gets each of them.\<close>

lemma uncompleted_tasks:
  assumes "wc_fetch_uncompleted x e b wk w = (Ok ts, w')"
  shows "mset ts = mset (filter (\<lambda>t. tk_state t = Running \<and> tk_worker_id t = wk) (task_tab w))"
    "set ts = {t \<in> set (task_tab w). tk_state t = Running \<and> tk_worker_id t = wk}"
proof -
  obtain v where "rpc_call x e b (FetchUncomplete wk) w = (Ok (RTasks ts), v)"
    using assms by (auto simp: wc_fetch_uncompleted_def and_then_Ok_iff expect_Ok)
  from rpc_call_Ok[OF this]
  have ts: "ts = query e task_tab (\<lambda>t. tk_state t = Running \<and> tk_worker_id t = wk) (Asc tk_create_at) (bump (bump w))"
    by (auto simp: map_ok_Ok_iff fetch_uncompleted_def internal_call_error_Ok db_fetch_uncompleted_def find_all_Ok_iff)
  show "mset ts = mset (filter (\<lambda>t. tk_state t = Running \<and> tk_worker_id t = wk) (task_tab w))"
    unfolding ts mset_query by simp
  from arg_cong[OF this, of set_mset]
  show "set ts = {t \<in> set (task_tab w). tk_state t = Running \<and> tk_worker_id t = wk}" by simp
qed

lemma single_inv_resume:
  assumes "single_inv m" "fet m = Starting" "wc_fetch_uncompleted x e b wk (wld m) = (Ok ts, w')"
  shows "single_inv (m\<lparr>wld := w', fet := Waiting ts\<rparr>)"
proof -
  have safe: "safe_change (wld m) w'" using evolves_Ok[OF worker_calls_safe(1) assms(3)] .
  have key: "distinct (map tk_id (task_tab (wld m)))" using assms(1) by (simp add: single_inv_def keyed_def)
  have "mset (map tk_id ts) \<subseteq># mset (map tk_id (task_tab (wld m)))"
    unfolding mset_map uncompleted_tasks(1)[OF assms(3)] by (simp add: image_mset_subseteq_mono)
  then have "distinct (map tk_id ts)" using key by (rule distinct_mset_sub)
  moreover have "tk_id ` set ts \<subseteq> past_ids (wld m)"
    unfolding uncompleted_tasks(2)[OF assms(3)] by (auto simp: past_ids_def past_Init_iff)
  ultimately show ?thesis using assms(1,2) safe
    by (auto simp: single_inv_def ids_def held_def waiting_def safe_change_def stays_past_def)
qed

lemma single_inv_fetch:
  assumes "single_inv m" "fet m = Waiting []" "wc_fetch_one_todo x e b wk types (wld m) = (Ok t, w')"
  shows "single_inv (m\<lparr>wld := w', fet := Sending [] t\<rparr>)"
proof -
  have key: "keyed task_tab tk_id (wld m)" using assms(1) by (simp add: single_inv_def)
  have safe: "safe_change (wld m) w'" using evolves_Ok[OF worker_calls_safe(2) assms(3)] .
  have h: "handed_out x e b (FetchTodo wk types) (wld m) = Some (tk_id t)" using assms(3) by (simp add: handed_out_def)
  have "exchange x e b (FetchTodo wk types) (wld m) = w'"
    using assms(3) by (auto simp: exchange_def wc_fetch_one_todo_def and_then_Ok_iff expect_Ok)
  with handout.claim_fresh[OF key h] handout.claim_taken[OF key h] assms(1,2) safe
  show ?thesis by (auto simp: single_inv_def ids_def held_def waiting_def safe_change_def stays_past_def)
qed

lemma worker_step_single:
  assumes step: "worker_step x e b resource seals rs lw allowed m m'" and inv: "single_inv m"
    and res: "\<And>i. evolves only_store (resource i)" and ok: "\<And>r. allowed r \<Longrightarrow> claim_safe r"
  shows "single_inv m'"
proof -
  have res': "safe_change w w'" if "resource i w = (r, w')" for i r w w'
    using evolves_Ok[OF res that] frame_keyed(1) only_store_past by (simp add: safe_change_def)
  note eqs = ids_def held_def waiting_def sc.refl
  from step show ?thesis
  proof cases
    case (resume ts w')
    with single_inv_resume[OF inv] show ?thesis by simp
  next
    case (fetch t w')
    with single_inv_fetch[OF inv] show ?thesis by simp
  next
    case (pop ts)
    then have "mset (ids m') = mset (ids m)"
      by (cases ts rule: rev_cases) (simp_all add: eqs)
    with pop show ?thesis by (intro single_inv_shrink[OF inv]) (simp_all add: eqs)
  next
    case (finish t d seal)
    from finish(2) obtain J where "mset (jobs m) = add_mset (t, d) J" by (metis insert_DiffM set_mset_mset)
    then have "mset (ids m') = mset (ids m)" using finish(1) by (simp add: eqs)
    with finish inv show ?thesis
      by (intro single_inv_shrink[OF inv]) (simp_all add: sc.refl single_inv_def held_def)
  next
    case (report t r os)
    have "safe_change (wld m) (snd (report_result x e b lw t r (wld m)))"
      by (rule evolvesD[OF worker_calls_safe(3)])
    with report inv show ?thesis
      by (intro single_inv_shrink[OF inv]) (simp_all add: eqs single_inv_def)
  next
    case (others req)
    have "safe_change (wld m) (exchange x e b req (wld m))"
      by (rule worker_calls_safe(4)[OF ok[OF others(2)]])
    with others inv show ?thesis
      by (intro single_inv_shrink[OF inv]) (simp_all add: eqs single_inv_def)
  next
    case (resume_panic r w')
    with evolves_Ok[OF worker_calls_safe(1) resume_panic(3)] inv show ?thesis
      by (intro single_inv_shrink[OF inv]) (simp_all add: eqs)
  next
    case (fetch_none r w')
    with evolves_Ok[OF worker_calls_safe(2) fetch_none(4)] inv show ?thesis
      by (intro single_inv_shrink[OF inv]) (simp_all add: eqs)
  next
    case full
    with inv show ?thesis by simp
  next
    case (send ts t)
    with inv show ?thesis by (intro single_inv_shrink[OF inv]) (simp_all add: eqs)
  next
    case (send_fails ts t t')
    with inv show ?thesis by (intro single_inv_shrink[OF inv]) (simp_all add: eqs)
  next
    case (add_count ts)
    with inv show ?thesis by (intro single_inv_shrink[OF inv]) (simp_all add: eqs)
  next
    case (recv t c)
    with inv show ?thesis by (intro single_inv_shrink[OF inv]) (simp_all add: eqs single_inv_def)
  next
    case (retry t rc r w' rc')
    with inv res'[OF retry(3)] show ?thesis by (intro single_inv_shrink[OF inv]) (simp_all add: eqs single_inv_def)
  next
    case (prepared t rc r w' d)
    with inv res'[OF prepared(3)] show ?thesis by (intro single_inv_shrink[OF inv]) (simp_all add: eqs single_inv_def)
  next
    case (abandon t rc r w')
    with inv res'[OF abandon(3)] show ?thesis by (intro single_inv_shrink[OF inv]) (simp_all add: eqs single_inv_def)
  next
    case (crash t rc r w' p)
    with inv res'[OF crash(3)] show ?thesis by (intro single_inv_shrink[OF inv]) (simp_all add: eqs single_inv_def)
  qed
qed

text \<open>C10. A worker never has the same task twice, from its backlog after a restart, in its channel or
  in work, whatever other clients request and whatever is lost, unless somebody resets tasks by \<open>UpdateStatusById\<close>.\<close>

theorem worker_never_holds_twice:
  assumes "worker_reach x e b resource seals rs lw allowed w0 m"
    and "keyed task_tab tk_id w0"
    and "\<And>i. evolves only_store (resource i)" and "\<And>r. allowed r \<Longrightarrow> claim_safe r"
  shows "distinct (map tk_id (held m @ waiting m))"
proof -
  have "single_inv m" using assms(1)
  proof (induction rule: worker_reach.induct)
    case (start m)
    with assms(2) show ?case
      by (auto simp: process_tasks_def single_inv_def ids_def held_def waiting_def split: if_splits)
  qed (rule worker_step_single[OF _ _ assms(3,4)])
  then show ?thesis by (simp add: single_inv_def ids_def)
qed

definition fetched :: "(string \<Rightarrow> bytes db) \<Rightarrow> task \<Rightarrow> bytes \<Rightarrow> bool" where
  "fetched resource t d \<longleftrightarrow> (\<exists>w w'. resource (tk_resource_id t) w = (Ok d, w'))"

definition results_inv :: "('addr, 'c1) ext \<Rightarrow> (string \<Rightarrow> bytes db) \<Rightarrow> 'c1 prover set \<Rightarrow> machine \<Rightarrow> bool" where
  "results_inv x resource seals m \<longleftrightarrow>
     (\<forall>t d. (t, d) \<in> set (jobs m) \<longrightarrow> fetched resource t d) \<and>
     (\<forall>t r. (t, r) \<in> set (outs m) \<longrightarrow> (\<exists>d. \<exists>seal \<in> seals. fetched resource t d \<and> r = execute_task x seal t d))"

lemma after_attempt_Prepared: "after_attempt rs rc r = Prepared d \<longleftrightarrow> r = Ok d"
  by (cases r) (auto simp: after_attempt_def)

lemma worker_step_results:
  assumes "worker_step x e b resource seals rs lw allowed m m'" "results_inv x resource seals m"
  shows "results_inv x resource seals m'"
  using assms(1)
proof cases
  case (finish t d seal)
  with assms(2) show ?thesis
    using set_remove1_subset[of "(t, d)" "jobs m"] by (auto simp: results_inv_def)
next
  case (prepared t rc r w' d)
  then have "fetched resource t d" by (auto simp: fetched_def after_attempt_Prepared)
  with prepared assms(2) show ?thesis by (auto simp: results_inv_def)
qed (use assms(2) in \<open>auto simp: results_inv_def\<close>)

text \<open>Every result a worker has ready to report for a task was computed from
  bytes that its store returned for the resource id of exactly this task.\<close>

theorem results_from_parameters:
  assumes "worker_reach x e b resource seals rs lw allowed w0 m" "(t, r) \<in> set (outs m)"
  shows "\<exists>d w w'. resource (tk_resource_id t) w = (Ok d, w') \<and> (\<exists>seal \<in> seals. r = c2 x seal d)"
proof -
  have "results_inv x resource seals m" using assms(1)
  proof (induction rule: worker_reach.induct)
    case (start m)
    then show ?case by (auto simp: process_tasks_def results_inv_def split: if_splits)
  qed (rule worker_step_results)
  moreover have "execute_task x seal t d = c2 x seal d" for seal d by (cases "tk_type t") (simp add: execute_task_def)
  moreover obtain d seal where "fetched resource t d" "seal \<in> seals" "r = execute_task x seal t d"
    using calculation(1) assms(2) unfolding results_inv_def by blast
  ultimately show ?thesis by (auto simp: fetched_def)
qed


section \<open>A run of a worker\<close>

definition demo_worker :: local_worker where
  "demo_worker = \<lparr>lw_worker_id = ''w1'', lw_max_task = 2, lw_allow_types = Some [C2]\<rparr>"

definition demo_seal :: "bytes prover" where
  "demo_seal c1 prover sector = (if c1 = [0] then JoinPanic OtherPayload else Joined (Ok (99 # c1)))"

abbreviation demo_seals :: "bytes prover set" where "demo_seals \<equiv> {demo_seal}"

abbreviation demo_reach :: "machine \<Rightarrow> bool" where
  "demo_reach \<equiv> worker_reach demo_ext quiet DbResource (wc_get_resource_info demo_ext quiet DbResource)
     demo_seals 5 demo_worker claim_safe busy_world"

text \<open>After a restart the worker finds its task \<open>t3\<close> unfinished, reads its parameters and computes.\<close>

lemma demo_worker_run:
  "\<exists>m. demo_reach m \<and> outs m = [(mk_task ''t3'' ''r3'' Running ''w1'' 5, Ok [99, 3])] \<and> map tk_id (held m) = [''t3''] \<and> count m = 1"
proof -
  let ?t = "mk_task ''t3'' ''r3'' Running ''w1'' 5"
  let ?boot = "wc_fetch_uncompleted demo_ext quiet DbResource ''w1'' busy_world"
  let ?read = "wc_get_resource_info demo_ext quiet DbResource ''r3'' (snd ?boot)"
  have boot: "?boot = (Ok [?t], snd ?boot)"
  proof -
    have "fst ?boot = Ok [?t]" by code_simp
    then show ?thesis by (metis prod.collapse)
  qed
  have read: "?read = (Ok [3], snd ?read)"
  proof -
    have "fst ?read = Ok [3]" by code_simp
    then show ?thesis by (metis prod.collapse)
  qed
  let ?m0 = "\<lparr>wld = busy_world, count = 0, chan = [], fet = Starting, exe = Selecting, jobs = [], outs = []\<rparr> :: machine"
  let ?m1 = "?m0\<lparr>wld := snd ?boot, fet := Waiting [?t]\<rparr>"
  let ?m2 = "?m1\<lparr>fet := Sending (butlast [?t]) (last [?t])\<rparr>"
  let ?m3 = "?m2\<lparr>chan := chan ?m2 @ [?t], fet := Counting []\<rparr>"
  let ?m4 = "?m3\<lparr>chan := [], exe := Preparing ?t 1\<rparr>"
  let ?m5 = "?m4\<lparr>wld := snd ?read, exe := Selecting, jobs := (?t, [3]) # jobs ?m4\<rparr>"
  let ?m6 = "?m5\<lparr>jobs := remove1 (?t, [3]) (jobs ?m5), outs := outs ?m5 @ [(?t, execute_task demo_ext demo_seal ?t [3])]\<rparr>"
  let ?m7 = "?m6\<lparr>count := count ?m6 + 1, fet := Waiting []\<rparr>"
  have "process_tasks demo_worker busy_world = Ok ?m0" by (simp add: process_tasks_def demo_worker_def)
  then have "demo_reach ?m0" by (rule worker_reach.start)
  then have "demo_reach ?m1"
    by (rule worker_reach.step) (rule worker_step.resume; simp add: demo_worker_def; rule boot)
  then have "demo_reach ?m2"
    by (rule worker_reach.step) (rule worker_step.pop[where ts = "[?t]"]; simp add: demo_worker_def)
  then have "demo_reach ?m3"
    by (rule worker_reach.step) (rule worker_step.send; simp add: demo_worker_def)
  then have "demo_reach ?m4"
    by (rule worker_reach.step) (rule worker_step.recv; simp)
  then have "demo_reach ?m5"
  proof (rule worker_reach.step)
    have "wc_get_resource_info demo_ext quiet DbResource (tk_resource_id ?t) (wld ?m4) = (Ok [3], snd ?read)"
      using read by (simp add: mk_task_def)
    then show "worker_step demo_ext quiet DbResource (wc_get_resource_info demo_ext quiet DbResource) demo_seals 5
        demo_worker claim_safe ?m4 ?m5"
      by (rule worker_step.prepared[rotated]) (simp_all add: after_attempt_def)
  qed
  then have "demo_reach ?m6"
    by (rule worker_reach.step) (rule worker_step.finish, simp, simp)
  then have "demo_reach ?m7"
    by (rule worker_reach.step) (rule worker_step.add_count, simp)
  moreover have "execute_task demo_ext demo_seal ?t [3] = Ok [99, 3]" by code_simp
  ultimately show ?thesis by (intro exI[of _ ?m7]) (simp add: held_def mk_task_def)
qed

theorem worker_capacity_witness:
  "\<exists>m. length (held m) = 1 \<and> count m = 1 \<and> length (held m) \<le> unat (lw_max_task demo_worker)"
proof -
  obtain m where m: "demo_reach m" "map tk_id (held m) = [''t3'']" "count m = 1"
    using demo_worker_run by (elim exE conjE) (erule that; assumption)
  have "length (held m) = 1" using arg_cong[OF m(2), of length] by simp
  with worker_capacity[OF m(1)] m(3) show ?thesis by (intro exI[of _ m]) simp
qed

lemma wc_resource_only_store: "evolves only_store (wc_get_resource_info x e b i)"
proof -
  have "evolves only_store (serve x e b (GetResourceInfo i))"
    by (simp add: rpc_get_resource_info_def) (intro evolve)
  then show ?thesis unfolding wc_get_resource_info_def
    by (rule wc_evolves[OF os.world_rel_axioms _ expect_evolves(4)[OF os.step_rel_axioms]])
qed

theorem worker_never_holds_twice_witness:
  "\<exists>m. map tk_id (held m) = [''t3''] \<and> distinct (map tk_id (held m @ waiting m))"
proof -
  obtain m where m: "demo_reach m" "map tk_id (held m) = [''t3'']"
    using demo_worker_run by (elim exE conjE) (erule that; assumption)
  have "distinct (map tk_id (held m @ waiting m))"
    by (rule worker_never_holds_twice[OF m(1) busy_inv(1) wc_resource_only_store])
  with m(2) show ?thesis by (intro exI[of _ m] conjI)
qed

theorem results_from_parameters_witness:
  "\<exists>d w w'. wc_get_resource_info demo_ext quiet DbResource ''r3'' w = (Ok d, w') \<and> Ok [99, 3] = c2 demo_ext demo_seal d"
proof -
  obtain m where m: "demo_reach m" "outs m = [(mk_task ''t3'' ''r3'' Running ''w1'' 5, Ok [99, 3])]"
    using demo_worker_run by (elim exE conjE) (erule that; assumption)
  then show ?thesis using results_from_parameters[OF m(1), of "mk_task ''t3'' ''r3'' Running ''w1'' 5" "Ok [99, 3]"]
    by (simp add: mk_task_def)
qed

end
