(* ===== verification/Service_Config.thy ===== *)
theory Service_Config
  imports Server_State Local_Worker
begin

text \<open>
  How the two programs start (\<open>gpuproxy/src/config/mod.rs\<close>, \<open>start_server\<close> of
  \<open>gpuproxy/src/gpuproxy/main.rs\<close>, \<open>run_worker\<close> of \<open>gpuproxy/src/gpuproxy_worker/main.rs\<close>,
  \<open>get_proxy_api\<close> of \<open>rpc.rs\<close>): from parsed arguments to the store the server runs on, the
  store a worker reads from, the worker identity and the local worker. The platform (URI and duration
  parsing, logger, database driver, sockets, network interfaces) is the record \<open>platform\<close>;
  waiting for signals and the shutdown are in \<open>Program_Runs\<close>.
\<close>

section \<open>Configuration\<close>

datatype resource = RPC | DB | FS string

text \<open>Every type but \<open>db\<close> and \<open>rpc\<close> means files.\<close>

definition resource_of_type :: "string \<Rightarrow> string \<Rightarrow> resource" where
  "resource_of_type resource_type resource_path =
     (if resource_type = ''db'' then DB else if resource_type = ''rpc'' then RPC else FS resource_path)"

record service_config =
  sc_url :: string
  sc_db_dsn :: string
  sc_disable_worker :: bool
  sc_max_tasks :: "64 word"
  sc_allow_types :: "task_type list option"
  sc_log_level :: string
  sc_resource :: resource
  sc_debug_sql :: bool

definition service_config_new ::
  "string \<Rightarrow> string \<Rightarrow> 64 word \<Rightarrow> bool \<Rightarrow> string \<Rightarrow> string \<Rightarrow> string \<Rightarrow> task_type list option \<Rightarrow> bool \<Rightarrow> service_config" where
  "service_config_new url db_dsn max_tasks disable_worker resource_type resource_path log_level allow_types debug_sql =
     \<lparr>sc_url = url, sc_db_dsn = db_dsn, sc_disable_worker = disable_worker, sc_max_tasks = max_tasks,
      sc_allow_types = allow_types, sc_log_level = log_level,
      sc_resource = resource_of_type resource_type resource_path, sc_debug_sql = debug_sql\<rparr>"

record worker_config =
  wcf_url :: string
  wcf_db_dsn :: string
  wcf_max_tasks :: "64 word"
  wcf_allow_types :: "task_type list option"
  wcf_log_level :: string
  wcf_resource :: resource
  wcf_debug_sql :: bool
  wcf_manual_ip :: "string option"

definition worker_config_new ::
  "string \<Rightarrow> string \<Rightarrow> 64 word \<Rightarrow> string \<Rightarrow> string \<Rightarrow> string \<Rightarrow> task_type list option \<Rightarrow> bool \<Rightarrow> string option \<Rightarrow> worker_config" where
  "worker_config_new url db_dsn max_tasks resource_type resource_path log_level allow_types debug_sql manual_ip =
     \<lparr>wcf_url = url, wcf_db_dsn = db_dsn, wcf_max_tasks = max_tasks, wcf_allow_types = allow_types,
      wcf_log_level = log_level, wcf_resource = resource_of_type resource_type resource_path,
      wcf_debug_sql = debug_sql, wcf_manual_ip = manual_ip\<rparr>"

section \<open>Arguments\<close>

text \<open>The parsed command line. A flag without a value is an error; clap supplies the defaults.\<close>

record run_args =
  a_url :: "string option"
  a_max_tasks :: "64 word option"
  a_db_dsn :: "string option"
  a_log_level :: "string option"
  a_debug_sql :: "bool option"
  a_resource_type :: "string option"
  a_fs_resource_path :: "string option"
  a_disable_worker :: "bool option"
  a_allow_type :: "int list option"
  a_manual_ip :: "string option"
  a_no_gpu :: bool

definition set_worker_env :: "bool \<Rightarrow> (string \<rightharpoonup> string) \<Rightarrow> (string \<rightharpoonup> string)" where
  "set_worker_env no_gpu vars = (if no_gpu then vars(''BELLMAN_NO_GPU'' \<mapsto> ''1'') else vars)"

definition res_then :: "('a, 'e) result \<Rightarrow> ('a \<Rightarrow> ('b, 'e) result) \<Rightarrow> ('b, 'e) result" where
  "res_then r f = (case r of Ok a \<Rightarrow> f a | Err e \<Rightarrow> Err e | Panic p \<Rightarrow> Panic p)"

definition flag :: "string \<Rightarrow> 'a option \<Rightarrow> ('a, string) result" where
  "flag name v = (case v of Some a \<Rightarrow> Ok a | None \<Rightarrow> Err (name @ '' flag not found''))"

text \<open>\<open>TaskType::try_from(e).unwrap()\<close> for each number.\<close>

fun try_types :: "int list \<Rightarrow> (task_type list, string) result" where
  "try_types [] = Ok []"
| "try_types (n # ns) =
     (case type_try_from n of
        Ok t \<Rightarrow> res_map_ok (\<lambda>ts. t # ts) (try_types ns)
      | _ \<Rightarrow> Panic ''called Result::unwrap() on an Err value'')"

definition allow_types_of :: "int list option \<Rightarrow> (task_type list option, string) result" where
  "allow_types_of v = (case v of None \<Rightarrow> Ok None | Some ns \<Rightarrow> res_map_ok Some (try_types ns))"

definition service_config_of_args :: "run_args \<Rightarrow> (service_config, string) result" where
  "service_config_of_args a =
     res_then (flag ''url'' (a_url a)) (\<lambda>url.
     res_then (flag ''max-tasks'' (a_max_tasks a)) (\<lambda>max_tasks.
     res_then (flag ''db-dsn'' (a_db_dsn a)) (\<lambda>db_dsn.
     res_then (flag ''log-level'' (a_log_level a)) (\<lambda>log_level.
     res_then (flag ''debug-sql'' (a_debug_sql a)) (\<lambda>debug_sql.
     res_then (flag ''resource-type'' (a_resource_type a)) (\<lambda>resource_type.
     res_then (flag ''fs-resource-path'' (a_fs_resource_path a)) (\<lambda>fs_resource_type.
     res_then (flag ''disable-worker'' (a_disable_worker a)) (\<lambda>disable_worker.
     res_then (allow_types_of (a_allow_type a)) (\<lambda>allow_types.
     Ok (service_config_new url db_dsn max_tasks disable_worker resource_type fs_resource_type log_level
           allow_types debug_sql))))))))))"

definition worker_config_of_args :: "run_args \<Rightarrow> (worker_config, string) result" where
  "worker_config_of_args a =
     res_then (flag ''gpuproxy url'' (a_url a)) (\<lambda>url.
     res_then (flag ''max-tasks'' (a_max_tasks a)) (\<lambda>max_tasks.
     res_then (flag ''db-dsn'' (a_db_dsn a)) (\<lambda>db_dsn.
     res_then (flag ''log-level'' (a_log_level a)) (\<lambda>log_level.
     res_then (flag ''debug-sql'' (a_debug_sql a)) (\<lambda>debug_sql.
     res_then (flag ''resource-type'' (a_resource_type a)) (\<lambda>resource_type.
     res_then (flag ''fs-resource-path'' (a_fs_resource_path a)) (\<lambda>fs_resource_type.
     res_then (allow_types_of (a_allow_type a)) (\<lambda>allow_types.
     Ok (worker_config_new url db_dsn max_tasks resource_type fs_resource_type log_level allow_types
           debug_sql (a_manual_ip a))))))))))"

section \<open>Connecting to a server\<close>

text \<open>What the programs ask of their environment when they start.\<close>

record platform =
  uri_has_scheme :: "string \<Rightarrow> (bool, string) result"
  parse_duration :: "string \<Rightarrow> (int, string) result"
  http_build :: "string \<Rightarrow> int \<Rightarrow> (unit, string) result"
  http_timeout :: "string option"
  level_from_str :: "string \<Rightarrow> (unit, string) result"
  term_init :: "(unit, string) result"
  db_connect :: "string \<Rightarrow> (unit, string) result"
  migrate_up :: "(unit, string) result"
  parse_socket_addr :: "string \<Rightarrow> (string, string) result"
  server_build :: "32 word \<Rightarrow> string \<Rightarrow> (unit, string) result"
  server_local_addr :: "string \<Rightarrow> (string, string) result"
  server_start :: "string \<Rightarrow> (unit, string) result"
  netifas :: "((string \<times> ip_addr) list, string) result"

text \<open>The URL the client will use.\<close>

definition get_proxy_api :: "platform \<Rightarrow> string \<Rightarrow> (string, string) result" where
  "get_proxy_api p url =
     res_then (uri_has_scheme p url) (\<lambda>has_scheme.
     let new_url = (if \<not> has_scheme then ''http://'' @ url else url);
         duration_str = (case http_timeout p of Some d \<Rightarrow> d | None \<Rightarrow> ''60s'') in
     res_then (parse_duration p duration_str) (\<lambda>duration.
     res_map_ok (\<lambda>_. new_url) (http_build p new_url duration)))"

section \<open>Starting the server\<close>

definition service_backend :: "resource \<Rightarrow> (backend, string) result" where
  "service_backend r = (case r of
     DB \<Rightarrow> Ok DbResource
   | FS path \<Rightarrow> Ok (FileResource path)
   | RPC \<Rightarrow> Err ''RPC resource type is not support in server'')"

definition local_worker_new :: "64 word \<Rightarrow> string \<Rightarrow> task_type list option \<Rightarrow> local_worker" where
  "local_worker_new max_task worker_id allow_types =
     \<lparr>lw_worker_id = worker_id, lw_max_task = max_task, lw_allow_types = allow_types\<rparr>"

definition run_local_worker ::
  "platform \<Rightarrow> local_worker \<Rightarrow> string option \<Rightarrow> ((string \<times> string) \<times> machine) db" where
  "run_local_worker p lw manual_ip w =
     (res_then (register_info lw manual_ip (netifas p)) (\<lambda>info.
      res_then (process_tasks lw w) (\<lambda>m. Ok (info, m))), w)"

definition one_gib :: "32 word" where
  "one_gib = 1024 * 1024 * 1024"

text \<open>The builder is the one of \<open>jsonrpsee\<close>; bodies of up to \<open>ONE_GIB\<close> are accepted. The bound address is returned.\<close>

definition start_api :: "platform \<Rightarrow> string \<Rightarrow> (string, string) result" where
  "start_api p url =
     res_then (parse_socket_addr p url) (\<lambda>socket_addr.
     res_then (server_build p one_gib socket_addr) (\<lambda>_.
     res_then (server_local_addr p socket_addr) (\<lambda>addr.
     res_map_ok (\<lambda>_. addr) (server_start p socket_addr))))"

definition start_server ::
  "('addr, 'c1) ext \<Rightarrow> env \<Rightarrow> platform \<Rightarrow> run_args \<Rightarrow>
   (backend \<times> local_worker \<times> ((string \<times> string) \<times> machine) option) db" where
  "start_server x e p a =
     and_then (lift_res (service_config_of_args a)) (\<lambda>cfg.
     and_then (lift_res (level_from_str p (sc_log_level cfg))) (\<lambda>_.
     and_then (lift_res (term_init p)) (\<lambda>_.
     and_then (ensure_db_file e (sc_db_dsn cfg)) (\<lambda>_.
     and_then (lift_res (db_connect p (sc_db_dsn cfg))) (\<lambda>_.
     and_then (lift_res (migrate_up p)) (\<lambda>_.
     and_then (get_worker_id x e) (\<lambda>worker_id.
     and_then (lift_res (service_backend (sc_resource cfg))) (\<lambda>resource.
     and_then (lift_res (start_api p (sc_url cfg))) (\<lambda>server_addr.
     and_then (lift_res (get_proxy_api p server_addr)) (\<lambda>_.
     let worker = local_worker_new (sc_max_tasks cfg) worker_id (sc_allow_types cfg) in
     if \<not> sc_disable_worker cfg then
       map_ok (\<lambda>job. (resource, worker, Some job)) (run_local_worker p worker (Some ''127.0.0.1''))
     else ok (resource, worker, None)))))))))))"

section \<open>Starting a worker\<close>

text \<open>\<open>RpcResource\<close> over the client, or files. Its reads are those of \<open>worker_resource\<close>.\<close>

datatype worker_source = OverRpc | FromFiles string

definition worker_source_of :: "resource \<Rightarrow> (worker_source, string) result" where
  "worker_source_of r = (case r of
     RPC \<Rightarrow> Ok OverRpc
   | FS path \<Rightarrow> Ok (FromFiles path)
   | DB \<Rightarrow> Err ''db type in worker is deprecated, use rpc instead'')"

definition worker_resource ::
  "('addr, 'c1) ext \<Rightarrow> env \<Rightarrow> backend \<Rightarrow> worker_source \<Rightarrow> string \<Rightarrow> bytes db" where
  "worker_resource x e b src i = (case src of
     OverRpc \<Rightarrow> wc_repo_get_resource_info x e b i
   | FromFiles path \<Rightarrow> file_get_resource_info path e i)"

definition run_worker ::
  "('addr, 'c1) ext \<Rightarrow> env \<Rightarrow> platform \<Rightarrow> run_args \<Rightarrow>
   (worker_source \<times> local_worker \<times> (string \<times> string) \<times> machine) db" where
  "run_worker x e p a =
     and_then (lift_res (worker_config_of_args a)) (\<lambda>cfg.
     and_then (lift_res (level_from_str p (wcf_log_level cfg))) (\<lambda>_.
     and_then (lift_res (term_init p)) (\<lambda>_.
     and_then (ensure_db_file e (wcf_db_dsn cfg)) (\<lambda>_.
     and_then (lift_res (db_connect p (wcf_db_dsn cfg))) (\<lambda>_.
     and_then (lift_res (migrate_up p)) (\<lambda>_.
     and_then (get_worker_id x e) (\<lambda>worker_id.
     and_then (lift_res (get_proxy_api p (wcf_url cfg))) (\<lambda>_.
     and_then (lift_res (worker_source_of (wcf_resource cfg))) (\<lambda>resource.
     let worker = local_worker_new (wcf_max_tasks cfg) worker_id (wcf_allow_types cfg) in
     map_ok (\<lambda>(info, m). (resource, worker, info, m)) (run_local_worker p worker (wcf_manual_ip cfg)))))))))))"

section \<open>Properties\<close>

lemma res_then_Ok [simp]: "res_then r f = Ok b \<longleftrightarrow> (\<exists>a. r = Ok a \<and> f a = Ok b)"
  by (cases r) (simp_all add: res_then_def)

lemma flag_Ok [simp]: "flag n v = Ok a \<longleftrightarrow> v = Some a"
  by (cases v) (simp_all add: flag_def)

lemma try_types_Ok: "try_types ns = Ok ts \<Longrightarrow> map type_num ts = ns"
  by (induction ns arbitrary: ts)
    (auto simp: res_map_ok_eq_Ok type_try_from_def type_num_def split: result.splits if_splits task_type.splits)

lemma try_types_total: "is_ok (try_types ns) \<longleftrightarrow> set ns \<subseteq> {0}"
  by (induction ns) (auto simp: type_try_from_def is_ok_iff res_map_ok_eq_Ok split: result.splits)

lemma allow_types_Ok: "allow_types_of v = Ok ts \<Longrightarrow> map_option (map type_num) ts = v"
  by (cases v) (auto simp: allow_types_of_def res_map_ok_eq_Ok try_types_Ok)

lemma run_local_worker_Ok: "run_local_worker p lw ip w = (Ok (info, m), w') \<longleftrightarrow>
    w' = w \<and> register_info lw ip (netifas p) = Ok info \<and> process_tasks lw w = Ok m"
  by (cases info) (auto simp: run_local_worker_def)

lemma service_config_Ok:
  assumes "service_config_of_args a = Ok cfg"
  shows "a_max_tasks a = Some (sc_max_tasks cfg)" "a_db_dsn a = Some (sc_db_dsn cfg)"
    "a_disable_worker a = Some (sc_disable_worker cfg)" "map_option (map type_num) (sc_allow_types cfg) = a_allow_type a"
    "\<exists>ty path. a_resource_type a = Some ty \<and> a_fs_resource_path a = Some path \<and> sc_resource cfg = resource_of_type ty path"
  using assms by (auto simp: service_config_of_args_def service_config_new_def allow_types_Ok)

lemma worker_config_Ok:
  assumes "worker_config_of_args a = Ok cfg"
  shows "a_max_tasks a = Some (wcf_max_tasks cfg)" "map_option (map type_num) (wcf_allow_types cfg) = a_allow_type a"
    "wcf_manual_ip cfg = a_manual_ip a"
    "\<exists>ty path. a_resource_type a = Some ty \<and> a_fs_resource_path a = Some path \<and> wcf_resource cfg = resource_of_type ty path"
  using assms by (auto simp: worker_config_of_args_def worker_config_new_def allow_types_Ok)

lemma get_worker_id_row: "get_worker_id x e w = (Ok i, w') \<Longrightarrow> wi_single w \<Longrightarrow> length (wi_tab w') = 1"
  by (drule get_worker_id_Ok) auto

lemma ensure_db_file_same: "evolves same_tabs (ensure_db_file e url)"
  unfolding ensure_db_file_def by (intro evolve stabs.pure_rules fs_same_tabs evolves_let)

lemma ensure_db_file_tabs: "ensure_db_file e url w = (r, w') \<Longrightarrow> same_tabs w w'"
  by (rule evolves_Ok[OF ensure_db_file_same])

lemma get_worker_id_tabs: "get_worker_id x e w = (r, w') \<Longrightarrow>
    task_tab w' = task_tab w \<and> res_tab w' = res_tab w \<and> ws_tab w' = ws_tab w"
  by (auto simp: get_worker_id_def and_then_def find_one_def sql_def new_v4_def insert_row_def ok_def lift_res_def
      split: option.splits)

lemma process_tasks_Ok: "process_tasks lw w = Ok m \<Longrightarrow> lw_max_task lw \<noteq> 0"
  by (auto simp: process_tasks_def split: if_splits)

text \<open>C36. When the server starts, it runs on the store its arguments ask for and never on the one
  that reads over RPC, has exactly one worker identity, and has changed no task, resource or report; it
  runs a local worker exactly if that is not disabled, with the given types and a capacity that is not zero.\<close>

theorem server_start:
  assumes single: "wi_single w" and run: "start_server x e p a w = (Ok (b, lw, job), w')"
  shows "(\<exists>ty path. a_resource_type a = Some ty \<and> a_fs_resource_path a = Some path \<and> ty \<noteq> ''rpc'' \<and>
        b = (if ty = ''db'' then DbResource else FileResource path)) \<and>
    a_max_tasks a = Some (lw_max_task lw) \<and> map_option (map type_num) (lw_allow_types lw) = a_allow_type a \<and>
    (job = None \<longleftrightarrow> a_disable_worker a = Some True) \<and> (job \<noteq> None \<longrightarrow> lw_max_task lw \<noteq> 0) \<and>
    length (wi_tab w') = 1 \<and> task_tab w' = task_tab w \<and> res_tab w' = res_tab w \<and> ws_tab w' = ws_tab w"
proof -
  from run obtain cfg w1 i w2 where cfg: "service_config_of_args a = Ok cfg"
    and f: "ensure_db_file e (sc_db_dsn cfg) w = (Ok (), w1)" and i: "get_worker_id x e w1 = (Ok i, w2)"
    and b: "service_backend (sc_resource cfg) = Ok b"
    and lw: "lw = local_worker_new (sc_max_tasks cfg) i (sc_allow_types cfg)"
    and job: "sc_disable_worker cfg \<and> job = None \<and> w' = w2 \<or>
      \<not> sc_disable_worker cfg \<and> (\<exists>info m. job = Some (info, m)) \<and> lw_max_task lw \<noteq> 0 \<and> w' = w2"
    by (cases job) (auto simp: start_server_def stmt_Ok_iff Let_def run_local_worker_Ok split: if_splits dest: process_tasks_Ok)
  have "same_tabs w w1" by (rule ensure_db_file_tabs[OF f])
  then have tabs: "length (wi_tab w2) = 1" "task_tab w2 = task_tab w" "res_tab w2 = res_tab w" "ws_tab w2 = ws_tab w"
    using get_worker_id_row[OF i] single get_worker_id_tabs[OF i] by (simp_all add: same_tabs_def wi_single_def)
  have w2: "w' = w2" using job by blast
  have max: "lw_max_task lw \<noteq> 0" if "job \<noteq> None" using job that by blast
  obtain ty path where ty: "a_resource_type a = Some ty" "a_fs_resource_path a = Some path" "sc_resource cfg = resource_of_type ty path"
    using service_config_Ok(5)[OF cfg] by blast
  then have "ty \<noteq> ''rpc'' \<and> b = (if ty = ''db'' then DbResource else FileResource path)"
    using b by (auto simp: resource_of_type_def service_backend_def split: if_splits)
  moreover have "job = None \<longleftrightarrow> sc_disable_worker cfg" using job by blast
  ultimately show ?thesis using ty max tabs w2 service_config_Ok(1,3,4)[OF cfg] lw
    by (simp add: local_worker_new_def)
qed

definition demo_platform :: platform where
  "demo_platform = \<lparr>uri_has_scheme = (\<lambda>u. Ok (prefix ''http'' u)), parse_duration = (\<lambda>d. Ok 60),
     http_build = (\<lambda>u d. Ok ()), http_timeout = None, level_from_str = (\<lambda>l. Ok ()), term_init = Ok (),
     db_connect = (\<lambda>d. Ok ()), migrate_up = Ok (), parse_socket_addr = Ok, server_build = (\<lambda>n a. Ok ()),
     server_local_addr = Ok, server_start = (\<lambda>a. Ok ()), netifas = Ok [(''lo'', IPv4 127 0 0 1)]\<rparr>"

definition demo_args :: run_args where
  "demo_args = \<lparr>a_url = Some ''127.0.0.1:18888'', a_max_tasks = Some 1, a_db_dsn = Some ''sqlite://gpuproxy.db'',
     a_log_level = Some ''info'', a_debug_sql = Some False, a_resource_type = Some ''fs'',
     a_fs_resource_path = Some ''/data'', a_disable_worker = Some False, a_allow_type = Some [0],
     a_manual_ip = None, a_no_gpu = False\<rparr>"

theorem server_start_witness:
  "\<exists>lw job w'. start_server demo_ext quiet demo_platform demo_args empty_world = (Ok (FileResource ''/data'', lw, job), w') \<and>
     job \<noteq> None \<and> lw_max_task lw = 1 \<and> length (wi_tab w') = 1"
proof -
  have "is_ok (fst (start_server demo_ext quiet demo_platform demo_args empty_world))" by code_simp
  from run_ok[OF this] obtain b lw job w' where
    run: "start_server demo_ext quiet demo_platform demo_args empty_world = (Ok (b, lw, job), w')" by auto
  have single: "wi_single empty_world" by (simp add: wi_single_def empty_world_def)
  from server_start[OF single run] run show ?thesis by (auto simp: demo_args_def)
qed

text \<open>A worker reads the parameters the server holds: when it reads over RPC, or from files under
  the path the server writes to, whatever it gets for an id is what the store of the server has under it.\<close>

theorem worker_reads_store:
  assumes "rel_id i" "keyed res_tab ri_id w" and b64: "\<And>d. b64_decode x (b64_encode x d) = Ok d"
    and paired: "src = OverRpc \<or> (\<exists>path. src = FromFiles path \<and> b = FileResource path)"
    and read: "worker_resource x e b src i w = (Ok d, w')"
  shows "look_of b w i = Some d"
  using paired
proof
  assume "src = OverRpc"
  with read have "wc_repo_get_resource_info x e b i w = (Ok d, w')" by (simp add: worker_resource_def)
  then obtain a w1 where call: "rpc_call x e b (GetResourceInfo i) w = (Ok a, w1)" and a: "expect_bytes x a w1 = (Ok d, w')"
    by (auto simp: wc_repo_get_resource_info_def and_then_Ok_iff)
  from rpc_call_Ok[OF call] obtain d' where "get_resource_info b e i (bump w) = (Ok d', w1)" "a = RBytes (b64_encode x d')"
    by (auto simp: map_ok_Ok_iff rpc_get_resource_info_def internal_call_error_Ok base64byte_serialize_def)
  moreover from this a have "d' = d" by (simp add: expect_bytes_def base64byte_deserialize_def b64 lift_res_def)
  moreover have "keyed res_tab ri_id (bump w)" using assms(2) by (simp add: keyed_def)
  ultimately show ?thesis using backend_store.get_ok[OF assms(1)] by (metis look_of_bump)
next
  assume "\<exists>path. src = FromFiles path \<and> b = FileResource path"
  with read backend_store.get_ok[OF assms(1,2), of b e d w'] show ?thesis
    by (auto simp: worker_resource_def backend_ops)
qed

theorem worker_reads_store_witness:
  "\<exists>w'. worker_resource demo_ext quiet DbResource OverRpc ''r2'' busy_world = (Ok [2], w') \<and>
     look_of DbResource busy_world ''r2'' = Some [2]"
proof -
  have "fst (worker_resource demo_ext quiet DbResource OverRpc ''r2'' busy_world) = Ok [2]" by code_simp
  then obtain w' where run: "worker_resource demo_ext quiet DbResource OverRpc ''r2'' busy_world = (Ok [2], w')"
    by (metis prod.collapse)
  have "rel_id ''r2''" by (simp add: rel_id_def)
  from worker_reads_store[OF this busy_inv(2) demo_b64 _ run] run show ?thesis by blast
qed

end
