(* ===== verification/Polling.thy ===== *)
theory Polling
  imports Main
begin

text \<open>
  Loops that repeat a step with a state until it yields a result, such as polling a server:
  what they return, and exactly when they return at all.
\<close>

text \<open>A loop that repeats a step until it yields a result; \<open>None\<close> if it never does.\<close>

partial_function (option) poll_loop :: "('s \<Rightarrow> 'r option \<times> 's) \<Rightarrow> 's \<Rightarrow> ('r \<times> 's) option" where
  "poll_loop step s = (case step s of (Some r, s') \<Rightarrow> Some (r, s') | (None, s') \<Rightarrow> poll_loop step s')"

definition poll_state :: "('s \<Rightarrow> 'r option \<times> 's) \<Rightarrow> nat \<Rightarrow> 's \<Rightarrow> 's" where
  "poll_state step k s = ((snd \<circ> step) ^^ k) s"

lemma poll_state_simps [simp]:
  "poll_state step 0 s = s" "poll_state step (Suc k) s = poll_state step k (snd (step s))"
  by (simp_all add: poll_state_def funpow_swap1)

lemma poll_state_snoc: "poll_state step (Suc k) s = snd (step (poll_state step k s))"
  by (simp add: poll_state_def)

lemma poll_loop_returns:
  "fst (step (poll_state step k s)) = Some r \<Longrightarrow> (\<And>j. j < k \<Longrightarrow> fst (step (poll_state step j s)) = None) \<Longrightarrow>
   poll_loop step s = Some (r, poll_state step (Suc k) s)"
proof (induction k arbitrary: s)
  case 0
  then show ?case by (subst poll_loop.simps) (cases "step s"; simp)
next
  case (Suc k)
  obtain s' where s': "step s = (None, s')" using Suc.prems(2)[of 0] by (cases "step s") simp
  have "fst (step (poll_state step j s')) = None" if "j < k" for j
    using Suc.prems(2)[of "Suc j"] that s' by simp
  with Suc.IH[of s'] Suc.prems(1) s' show ?case by (subst poll_loop.simps) simp
qed

lemma poll_loop_Some:
  assumes "poll_loop step s = Some (r, s')"
  shows "\<exists>k. fst (step (poll_state step k s)) = Some r"
proof -
  have "\<exists>k. fst (step (poll_state step k s)) = Some (fst y)" if "poll_loop step s = Some y" for y
  proof (rule poll_loop.raw_induct[where P = "\<lambda>step s y. \<exists>k. fst (step (poll_state step k s)) = Some (fst y)", OF _ that],
      goal_cases)
    case (1 f step s y)
    show ?case
    proof (cases "step s")
      case (Pair o' t)
      show ?thesis
      proof (cases o')
        case None
        with 1(2) Pair have "f step t = Some y" by simp
        from 1(1)[OF this] obtain k where "fst (step (poll_state step k t)) = Some (fst y)" by auto
        with Pair None show ?thesis by (intro exI[of _ "Suc k"]) simp
      next
        case (Some r')
        with 1(2) Pair show ?thesis by (intro exI[of _ 0]) auto
      qed
    qed
  qed
  from this[OF assms] show ?thesis by simp
qed

text \<open>The loop returns the first result, and returns exactly if there is one.\<close>

lemma poll_loop_first:
  "poll_loop step s =
     (if \<exists>k r. fst (step (poll_state step k s)) = Some r
      then let k = (LEAST k. \<exists>r. fst (step (poll_state step k s)) = Some r) in
        Some (the (fst (step (poll_state step k s))), poll_state step (Suc k) s)
      else None)"
proof (cases "\<exists>k r. fst (step (poll_state step k s)) = Some r")
  case True
  let ?k = "LEAST k. \<exists>r. fst (step (poll_state step k s)) = Some r"
  from True have "\<exists>r. fst (step (poll_state step ?k s)) = Some r" by (rule LeastI_ex)
  then obtain r where r: "fst (step (poll_state step ?k s)) = Some r" by blast
  have "fst (step (poll_state step j s)) = None" if "j < ?k" for j
    using not_less_Least[OF that] by (metis option.exhaust)
  with r have "poll_loop step s = Some (r, poll_state step (Suc ?k) s)" by (rule poll_loop_returns)
  with True r show ?thesis by (simp only: if_True Let_def option.sel)
next
  case False
  then have "poll_loop step s = None"
    using poll_loop_Some[of step s] by (metis not_Some_eq surj_pair)
  with False show ?thesis by simp
qed

text \<open>Partial correctness: an invariant of the waiting steps.\<close>

lemma poll_loop_inv:
  assumes "poll_loop step s = Some (r, s')" "I s"
    and keep: "\<And>s t. I s \<Longrightarrow> step s = (None, t) \<Longrightarrow> I t"
    and result: "\<And>s r t. I s \<Longrightarrow> step s = (Some r, t) \<Longrightarrow> Q r t"
  shows "Q r s'"
proof -
  let ?f = "\<lambda>k. fst (step (poll_state step k s))"
  let ?k = "LEAST k. \<exists>r. ?f k = Some r"
  have ex: "\<exists>k r. ?f k = Some r" using poll_loop_Some[OF assms(1)] by blast
  then have run: "r = the (?f ?k)" "s' = poll_state step (Suc ?k) s"
    using assms(1) unfolding poll_loop_first by (simp_all only: if_True Let_def option.inject prod.inject)
  have "I (poll_state step j s)" if "j \<le> ?k" for j
    using that
  proof (induction j)
    case (Suc j)
    then have "?f j = None" using not_less_Least[of j "\<lambda>k. \<exists>r. ?f k = Some r"] by (metis Suc_le_lessD option.exhaust)
    with Suc show ?case
      using keep[of "poll_state step j s" "poll_state step (Suc j) s"]
      by (metis Suc_leD poll_state_snoc prod.collapse)
  qed (simp add: assms(2))
  then have "I (poll_state step ?k s)" by simp
  moreover have "\<exists>r. ?f ?k = Some r" using ex by (rule LeastI_ex)
  ultimately show ?thesis
    using result[of "poll_state step ?k s" r s'] run by (metis option.sel poll_state_snoc prod.collapse)
qed

end
