(* ===== verification/C2_Plugin.thy ===== *)
theory C2_Plugin
  imports Service_Config Polling
begin

text \<open>
  The plugin that lets a sealing cluster use the proxy (\<open>gpuproxy/src/cluster_c2_plugin/main.rs\<close>):
  requests come as lines on the standard input; each is submitted under its content-derived id, or found there
  (and reset if it had failed), then polled until it is decided, and answered by a line.
  The JSON of the lines and of the parameters and the rendering of sector ids are the record
  \<open>plugin_ext\<close>; what other clients do to the server between two polls is the request list \<open>others n\<close>.
\<close>

section \<open>Requests, responses and their lines\<close>

record c2_plugin_cfg =
  cfg_url :: string
  pool_task_interval :: "64 word"

record 'c1 c2_input =
  in_c1out :: 'c1
  in_prover_id :: bytes
  in_sector_id :: "64 word"
  in_miner_id :: "64 word"

record 'c1 plugin_request =
  rq_id :: "64 word"
  rq_task :: "'c1 c2_input"

record plugin_response =
  rs_id :: "64 word"
  rs_err_msg :: "string option"
  rs_output :: "bytes option"

record ('addr, 'c1) plugin_ext =
  input_to_vec :: "'c1 c2_input \<Rightarrow> (bytes, string) result"
  addr_new_id :: "64 word \<Rightarrow> 'addr"
  sector_text :: "64 word \<Rightarrow> string"
  request_from_str :: "string \<Rightarrow> ('c1 plugin_request, string) result"
  response_to_string :: "plugin_response \<Rightarrow> (string, string) result"

definition ready_msg :: "string \<Rightarrow> string" where
  "ready_msg name = name @ '' processor ready'' @ [char_of (10 :: nat)]"

definition hex_digit :: "nat \<Rightarrow> char" where
  "hex_digit d = (if d < 10 then char_of (48 + d) else char_of (87 + d))"

text \<open>The \<open>{:?}\<close> rendering of a string, on its ASCII characters.\<close>

definition escape_debug :: "char \<Rightarrow> string" where
  "escape_debug c = (let n = (of_char c :: nat) in
     if n = 0 then [CHR 0x5C, CHR ''0'']
     else if n = 9 then [CHR 0x5C, CHR ''t'']
     else if n = 10 then [CHR 0x5C, CHR ''n'']
     else if n = 13 then [CHR 0x5C, CHR ''r'']
     else if n = 34 then [CHR 0x5C, CHR 0x22]
     else if n = 92 then [CHR 0x5C, CHR 0x5C]
     else if n < 32 \<or> n = 127 then
       [CHR 0x5C, CHR ''u'', CHR ''{''] @ (if n < 16 then [hex_digit n] else [hex_digit (n div 16), hex_digit (n mod 16)]) @ [CHR ''}'']
     else [c])"

definition debug_string :: "string \<Rightarrow> string" where
  "debug_string s = [CHR 0x22] @ concat (map escape_debug s) @ [CHR 0x22]"

definition write_value :: "64 word \<Rightarrow> bytes \<Rightarrow> plugin_response" where
  "write_value i val = \<lparr>rs_id = i, rs_err_msg = None, rs_output = Some val\<rparr>"

definition write_err :: "64 word \<Rightarrow> string \<Rightarrow> plugin_response" where
  "write_err i er = \<lparr>rs_id = i, rs_err_msg = Some (debug_string er), rs_output = None\<rparr>"

definition write_resp :: "('addr, 'c1) plugin_ext \<Rightarrow> plugin_response \<Rightarrow> (string, string) result" where
  "write_resp p resp =
     (case response_to_string p resp of
        Ok res_str \<Rightarrow> Ok (res_str @ [char_of (10 :: nat)])
      | Err _ \<Rightarrow> Err ''marshal response''
      | Panic m \<Rightarrow> Panic m)"

section \<open>One look at a task\<close>

definition task_error_msg :: "('addr, 'c1) plugin_ext \<Rightarrow> 64 word \<Rightarrow> string \<Rightarrow> string \<Rightarrow> string" where
  "task_error_msg p sector task_id m =
     ''task '' @ task_id @ '' sector '' @ sector_text p sector @ '' error reason:'' @ m"

text \<open>Whether one look at the task ends the loop, and with which result.\<close>

definition after_poll ::
  "('addr, 'c1) plugin_ext \<Rightarrow> 64 word \<Rightarrow> string \<Rightarrow> (task, string) result \<Rightarrow> (bytes, string) result option" where
  "after_poll p sector task_id r =
     (case r of
        Ok task \<Rightarrow>
          if tk_state task = Error then Some (Err (task_error_msg p sector task_id (tk_error_msg task)))
          else if tk_state task = Completed then Some (Ok (tk_proof task))
          else None
      | Err _ \<Rightarrow> None
      | Panic m \<Rightarrow> Some (Panic m))"

section \<open>Waiting for the result of a task\<close>

text \<open>One round: the others' requests during the sleep, then one look at the task.\<close>

definition poll_task ::
  "('addr, 'c1) plugin_ext \<Rightarrow> ('addr, 'c1) ext \<Rightarrow> env \<Rightarrow> backend \<Rightarrow> (nat \<Rightarrow> request list) \<Rightarrow> 64 word \<Rightarrow> string \<Rightarrow>
   nat \<times> world \<Rightarrow> (bytes, string) result option \<times> (nat \<times> world)" where
  "poll_task p x e b others sector task_id s = (case s of (n, w) \<Rightarrow>
     (case wc_get_task x e b task_id (run_requests x e b (others n) w) of
        (r, w') \<Rightarrow> (after_poll p sector task_id r, (Suc n, w'))))"

definition trace_task_result ::
  "('addr, 'c1) plugin_ext \<Rightarrow> ('addr, 'c1) ext \<Rightarrow> env \<Rightarrow> backend \<Rightarrow> (nat \<Rightarrow> request list) \<Rightarrow> 64 word \<Rightarrow> string \<Rightarrow>
   world \<Rightarrow> ((bytes, string) result \<times> (nat \<times> world)) option" where
  "trace_task_result p x e b others sector task_id w =
     poll_loop (poll_task p x e b others sector task_id) (0, w)"

text \<open>The state of the world at the look with number \<open>k\<close>.\<close>

definition poll_world ::
  "('addr, 'c1) plugin_ext \<Rightarrow> ('addr, 'c1) ext \<Rightarrow> env \<Rightarrow> backend \<Rightarrow> (nat \<Rightarrow> request list) \<Rightarrow> 64 word \<Rightarrow> string \<Rightarrow>
   nat \<Rightarrow> world \<Rightarrow> world" where
  "poll_world p x e b others sector task_id k w =
     (case poll_state (poll_task p x e b others sector task_id) k (0, w) of (n, w') \<Rightarrow> run_requests x e b (others n) w')"

lemma wc_get_task_cases:
  assumes "wc_get_task x e b i w = (r, w')"
  obtains (got) t where "r = Ok t" "t \<in> set (task_tab w')" "tk_id t = i" | (failed) m where "r = Err m"
proof -
  obtain a w1 where call: "rpc_call x e b (GetTask i) w = (a, w1)" by (cases "rpc_call x e b (GetTask i) w")
  show thesis
  proof (cases a)
    case (Ok v)
    from rpc_call_Ok[OF call[unfolded Ok]] have s: "serve x e b (GetTask i) (bump w) = (Ok v, w1)" .
    from this obtain t where v: "v = RTask t" "fetch e i (bump w) = (Ok t, w1)"
      by (auto simp: map_ok_Ok_iff get_task_def internal_call_error_Ok)
    from fetch_Ok[OF v(2)] have "t \<in> set (task_tab w1)" "tk_id t = i" by auto
    moreover have "r = Ok t" "w' = w1" using assms call Ok v(1)
      by (auto simp: wc_get_task_def and_then_def expect_task_def ok_def)
    ultimately show thesis by (intro got) simp_all
  next
    case (Err m)
    with assms call have "r = Err m" by (simp add: wc_get_task_def and_then_def)
    then show thesis by (rule failed)
  next
    case (Panic m)
    with call show thesis by (auto simp: rpc_call_def split: delivery.splits prod.splits result.splits)
  qed
qed

lemma poll_task_Some:
  "fst (poll_task p x e b others sector i (n, v)) = Some r \<Longrightarrow>
   \<exists>t. fst (wc_get_task x e b i (run_requests x e b (others n) v)) = Ok t \<and>
     t \<in> set (task_tab (snd (snd (poll_task p x e b others sector i (n, v))))) \<and> tk_id t = i \<and>
     (tk_state t = Completed \<and> r = Ok (tk_proof t) \<or>
      tk_state t = Error \<and> r = Err (task_error_msg p sector i (tk_error_msg t)))"
proof -
  assume some: "fst (poll_task p x e b others sector i (n, v)) = Some r"
  obtain q v' where q: "wc_get_task x e b i (run_requests x e b (others n) v) = (q, v')"
    by (cases "wc_get_task x e b i (run_requests x e b (others n) v)")
  with some have r: "after_poll p sector i q = Some r" by (simp add: poll_task_def)
  from q show ?thesis
  proof (cases rule: wc_get_task_cases)
    case (got t)
    with q r show ?thesis by (auto simp: poll_task_def after_poll_def split: if_splits)
  next
    case (failed m)
    with r show ?thesis by (simp add: after_poll_def)
  qed
qed

lemma trace_outcome:
  assumes "trace_task_result p x e b others sector i w = Some (r, n, w')"
  shows "\<exists>t \<in> set (task_tab w'). tk_id t = i \<and>
    (tk_state t = Completed \<and> r = Ok (tk_proof t) \<or>
     tk_state t = Error \<and> r = Err (task_error_msg p sector i (tk_error_msg t)))"
proof -
  let ?step = "poll_task p x e b others sector i"
  let ?k = "LEAST k. \<exists>r. fst (?step (poll_state ?step k (0, w))) = Some r"
  have ex: "\<exists>k r. fst (?step (poll_state ?step k (0, w))) = Some r"
    using assms unfolding trace_task_result_def by (subst (asm) poll_loop_first) (auto split: if_splits)
  have res: "r = the (fst (?step (poll_state ?step ?k (0, w))))" "(n, w') = snd (?step (poll_state ?step ?k (0, w)))"
    using assms ex unfolding trace_task_result_def
    by (subst (asm) poll_loop_first, simp add: Let_def poll_state_snoc del: poll_state_simps)+
  from ex have "\<exists>r. fst (?step (poll_state ?step ?k (0, w))) = Some r" by (rule LeastI_ex)
  then have some: "fst (?step (poll_state ?step ?k (0, w))) = Some r" using res(1) by auto
  obtain m v where st: "poll_state ?step ?k (0, w) = (m, v)" by (cases "poll_state ?step ?k (0, w)")
  have fin: "snd (snd (?step (m, v))) = w'" using res(2) unfolding st by (metis snd_conv)
  from poll_task_Some[OF some[unfolded st]] fin show ?thesis by auto
qed

text \<open>C14. What the polling loop returns is what the server has recorded: a proof only if the task is
  there, completed, with that proof; an error only if the task is in the error state, with its message; and
  never anything else, whatever other clients do and whatever calls are lost meanwhile.\<close>

theorem trace_reports_recorded_outcome:
  assumes "trace_task_result p x e b others sector i w = Some (r, n, w')"
  shows "\<exists>t \<in> set (task_tab w'). tk_id t = i \<and>
    (tk_state t = Completed \<and> r = Ok (tk_proof t) \<or>
     tk_state t = Error \<and> r = Err (task_error_msg p sector i (tk_error_msg t)))"
  by (rule trace_outcome[OF assms])

text \<open>C24. The polling loop ends exactly if one of its looks at the task gets through and finds it
  completed or failed; a lost call, an unknown task or a running one makes it poll again.\<close>

theorem trace_returns_iff:
  "trace_task_result p x e b others sector i w \<noteq> None \<longleftrightarrow>
     (\<exists>k t. fst (wc_get_task x e b i (poll_world p x e b others sector i k w)) = Ok t \<and> tk_state t \<in> {Error, Completed})"
proof -
  let ?step = "poll_task p x e b others sector i"
  have "(\<exists>r. fst (?step (n, v)) = Some r) \<longleftrightarrow>
      (\<exists>t. fst (wc_get_task x e b i (run_requests x e b (others n) v)) = Ok t \<and> tk_state t \<in> {Error, Completed})" for n v
  proof
    assume "\<exists>r. fst (?step (n, v)) = Some r"
    then show "\<exists>t. fst (wc_get_task x e b i (run_requests x e b (others n) v)) = Ok t \<and> tk_state t \<in> {Error, Completed}"
      using poll_task_Some by blast
  next
    assume "\<exists>t. fst (wc_get_task x e b i (run_requests x e b (others n) v)) = Ok t \<and> tk_state t \<in> {Error, Completed}"
    then show "\<exists>r. fst (?step (n, v)) = Some r"
      by (auto simp: poll_task_def after_poll_def split: prod.splits)
  qed
  then have "(\<exists>r. fst (?step (poll_state ?step k (0, w))) = Some r) \<longleftrightarrow>
      (\<exists>t. fst (wc_get_task x e b i (poll_world p x e b others sector i k w)) = Ok t \<and> tk_state t \<in> {Error, Completed})" for k
    by (cases "poll_state ?step k (0, w)") (simp add: poll_world_def)
  then show ?thesis unfolding trace_task_result_def by (subst poll_loop_first) (simp add: Let_def)
qed

section \<open>Processing a request\<close>

text \<open>Everything \<open>process_request\<close> does with the server before it polls, from the first look on.\<close>

definition ensure_task ::
  "('addr, 'c1) plugin_ext \<Rightarrow> ('addr, 'c1) ext \<Rightarrow> env \<Rightarrow> backend \<Rightarrow> 'c1 c2_input \<Rightarrow> bytes \<Rightarrow> string db" where
  "ensure_task p x e b input params_bytes w =
     (let miner_addr = addr_new_id p (in_miner_id input); task_id = gen_task_id x miner_addr C2 params_bytes in
      case wc_get_task x e b task_id w of
        (Ok task, w1) \<Rightarrow>
          (if tk_state task = Error
           then map_ok (\<lambda>_. task_id) (wc_update_status_by_id x e b [task_id] Init) w1
           else ok task_id w1)
      | (Err err_msg, w1) \<Rightarrow>
          (if str_contains err_msg ''not found''
           then map_ok (\<lambda>_. task_id) (map_err (\<lambda>_. ''add task'')
                  (wc_add_task x e b (addr_to_string x miner_addr)
                    (sector_text p (in_sector_id input) @ '' MinerId('' @ show_nat (unat (in_miner_id input)) @ '')'')
                    C2 params_bytes)) w1
           else (Err err_msg, w1))
      | (Panic m, w1) \<Rightarrow> (Panic m, w1))"

definition find_or_submit ::
  "('addr, 'c1) plugin_ext \<Rightarrow> ('addr, 'c1) ext \<Rightarrow> env \<Rightarrow> backend \<Rightarrow> platform \<Rightarrow> c2_plugin_cfg \<Rightarrow> 'c1 c2_input \<Rightarrow> string db" where
  "find_or_submit p x e b pf cfg input =
     and_then (map_err (\<lambda>_. ''unmarshal c2 input'') (lift_res (input_to_vec p input))) (\<lambda>params_bytes.
     and_then (map_err (\<lambda>_. ''connect gpu proxy url'') (lift_res (get_proxy_api pf (cfg_url cfg)))) (\<lambda>_.
     ensure_task p x e b input params_bytes))"

definition process_request ::
  "('addr, 'c1) plugin_ext \<Rightarrow> ('addr, 'c1) ext \<Rightarrow> env \<Rightarrow> backend \<Rightarrow> platform \<Rightarrow> c2_plugin_cfg \<Rightarrow> (nat \<Rightarrow> request list) \<Rightarrow>
   'c1 c2_input \<Rightarrow> world \<Rightarrow> ((bytes, string) result \<times> world) option" where
  "process_request p x e b pf cfg others input w =
     (case find_or_submit p x e b pf cfg input w of
        (Ok task_id, w') \<Rightarrow>
          map_option (\<lambda>(r, n, w''). (r, w''))
            (trace_task_result p x e b others (in_sector_id input) task_id w')
      | (Err m, w') \<Rightarrow> Some (Err m, w')
      | (Panic m, w') \<Rightarrow> Some (Panic m, w'))"

definition handle_line ::
  "('addr, 'c1) plugin_ext \<Rightarrow> ('addr, 'c1) ext \<Rightarrow> env \<Rightarrow> backend \<Rightarrow> platform \<Rightarrow> c2_plugin_cfg \<Rightarrow> (nat \<Rightarrow> request list) \<Rightarrow>
   string \<Rightarrow> world \<Rightarrow> plugin_response option" where
  "handle_line p x e b pf cfg others line w =
     (case request_from_str p line of
        Ok req \<Rightarrow>
          (case process_request p x e b pf cfg others (rq_task req) w of
             Some (Ok output_val, _) \<Rightarrow> Some (write_value (rq_id req) output_val)
           | Some (Err m, _) \<Rightarrow> Some (write_err (rq_id req) m)
           | _ \<Rightarrow> None)
      | _ \<Rightarrow> None)"

lemma ensure_task_Ok: "ensure_task p x e b input d w = (Ok i, w') \<Longrightarrow> i = gen_task_id x (addr_new_id p (in_miner_id input)) C2 d"
  by (auto simp: ensure_task_def Let_def map_ok_Ok_iff ok_Ok_iff split: prod.splits result.splits if_splits)

text \<open>
  \<open>run\<close>: the greeting, then one concurrent request for each line that parses, each starting from the
  world of its own moment, so that the responses come in any order; the end of the input is an error.
\<close>

definition run_plugin ::
  "('addr, 'c1) plugin_ext \<Rightarrow> ('addr, 'c1) ext \<Rightarrow> env \<Rightarrow> backend \<Rightarrow> platform \<Rightarrow> c2_plugin_cfg \<Rightarrow> (nat \<Rightarrow> request list) \<Rightarrow>
   (string \<times> world) list \<Rightarrow> string \<times> plugin_response multiset \<times> (unit, string) result" where
  "run_plugin p x e b pf cfg others inputs =
     (ready_msg ''c2'', mset (List.map_filter (\<lambda>(line, w). handle_line p x e b pf cfg others line w) inputs),
      Err ''got empty line, parent might be out'')"

lemma find_or_submit_Ok:
  "find_or_submit p x e b pf cfg input w = (Ok i, w') \<Longrightarrow>
   \<exists>d. input_to_vec p input = Ok d \<and> i = gen_task_id x (addr_new_id p (in_miner_id input)) C2 d"
  by (auto simp: find_or_submit_def and_then_Ok_iff map_err_Ok_iff lift_res_Ok_iff dest: ensure_task_Ok)

lemma handle_line_output:
  assumes "handle_line p x e b pf cfg others line w = Some resp"
  shows "\<exists>req. request_from_str p line = Ok req \<and> rs_id resp = rq_id req \<and>
    (rs_err_msg resp = None) = (rs_output resp \<noteq> None) \<and>
    (\<forall>pr. rs_output resp = Some pr \<longrightarrow>
      (\<exists>d w' t. input_to_vec p (rq_task req) = Ok d \<and> t \<in> set (task_tab w') \<and> tk_state t = Completed \<and> tk_proof t = pr \<and>
        process_request p x e b pf cfg others (rq_task req) w = Some (Ok pr, w') \<and>
        tk_id t = gen_task_id x (addr_new_id p (in_miner_id (rq_task req))) C2 d))"
proof -
  from assms obtain req r w' where req: "request_from_str p line = Ok req"
    and run: "process_request p x e b pf cfg others (rq_task req) w = Some (r, w')"
    and resp: "(\<exists>v. r = Ok v \<and> resp = write_value (rq_id req) v) \<or> (\<exists>m. r = Err m \<and> resp = write_err (rq_id req) m)"
    by (auto simp: handle_line_def split: result.splits option.splits)
  have "\<exists>d t. input_to_vec p (rq_task req) = Ok d \<and> t \<in> set (task_tab w') \<and> tk_state t = Completed \<and> tk_proof t = pr \<and>
      tk_id t = gen_task_id x (addr_new_id p (in_miner_id (rq_task req))) C2 d" if ok: "r = Ok pr" for pr
  proof -
    from run ok obtain i w1 n where f: "find_or_submit p x e b pf cfg (rq_task req) w = (Ok i, w1)"
      and t: "trace_task_result p x e b others (in_sector_id (rq_task req)) i w1 = Some (Ok pr, n, w')"
      by (auto simp: process_request_def split: prod.splits result.splits)
    from trace_outcome[OF t] find_or_submit_Ok[OF f] show ?thesis by auto
  qed
  with req run resp show ?thesis by (intro exI[of _ req]) (auto simp: write_value_def write_err_def)
qed

text \<open>Each answer of the plugin carries the id of its request and either an error or an
  output. An output is the proof of a completed task on the server whose id is derived from the miner and the parameters of
  exactly this request.\<close>

theorem plugin_output_authentic:
  assumes "handle_line p x e b pf cfg others line w = Some resp"
  shows "\<exists>req. request_from_str p line = Ok req \<and> rs_id resp = rq_id req \<and>
    (rs_err_msg resp = None) = (rs_output resp \<noteq> None) \<and>
    (\<forall>pr. rs_output resp = Some pr \<longrightarrow>
      (\<exists>d w' t. input_to_vec p (rq_task req) = Ok d \<and> t \<in> set (task_tab w') \<and> tk_state t = Completed \<and> tk_proof t = pr \<and>
        process_request p x e b pf cfg others (rq_task req) w = Some (Ok pr, w') \<and>
        tk_id t = gen_task_id x (addr_new_id p (in_miner_id (rq_task req))) C2 d))"
  by (rule handle_line_output[OF assms])


lemma store_db_quiet:
  assumes "\<forall>i. db_fault e i = None" "look_of DbResource w i = None"
  shows "\<exists>w'. store_resource_info DbResource e i d w = (Ok i, w') \<and> i \<in> ri_id ` set (res_tab w')"
proof -
  have "i \<notin> ri_id ` set (res_tab w)" using assms(2) by (simp add: look_of_def res_look_eq_None)
  with assms(1) show ?thesis by (simp add: backend_ops db_store_resource_info_def stmt_Ok_iff)
qed

lemma add_task_inner_total:
  assumes quiet: "\<forall>i. db_fault e i = None" "\<forall>i. io_fault e i = None" and addr: "addr_to_string x a \<noteq> []"
    and new: "gen_task_id x a ty d \<notin> tk_id ` set (task_tab w)"
  shows "\<exists>w' t. add_task_inner x e DbResource a c ty d w = (Ok (gen_task_id x a ty d), w') \<and>
    task_tab w' = task_tab w @ [t] \<and> tk_id t = gen_task_id x a ty d \<and> tk_resource_id t = gen_resource_id x d \<and>
    tk_state t = Init \<and> gen_resource_id x d \<in> ri_id ` set (res_tab w')"
proof -
  let ?rid = "gen_resource_id x d" and ?tid = "gen_task_id x a ty d"
  have has: "has_resource DbResource e ?rid w = (Ok (look_of DbResource w ?rid \<noteq> None), bump w)"
    by (rule has_resource_quiet[OF quiet])
  obtain w2 where st: "if look_of DbResource w ?rid \<noteq> None then w2 = bump w
      else \<exists>k. store_resource_info DbResource e ?rid d (bump w) = (Ok k, w2)"
    and tab: "task_tab w2 = task_tab w" and stored: "?rid \<in> ri_id ` set (res_tab w2)"
  proof (cases "look_of DbResource w ?rid")
    case None
    then obtain w2 where s: "store_resource_info DbResource e ?rid d (bump w) = (Ok ?rid, w2)"
      "?rid \<in> ri_id ` set (res_tab w2)"
      using store_db_quiet[OF quiet(1), where w = "bump w" and i = ?rid and d = d] None by auto
    with that[of w2] None storage_task_tab(2)[OF s(1)] s(2) show thesis by simp
  next
    case (Some d')
    then have "res_look (bump w) ?rid \<noteq> None" by (simp add: look_of_def)
    then have "?rid \<in> ri_id ` set (res_tab (bump w))" unfolding res_look_eq_None by simp
    with that[of "bump w"] Some show thesis by simp
  qed
  have known: "has_task e ?tid w2 = (Ok False, bump w2)" using quiet(1) new tab by (simp add: has_task_Ok)
  obtain c0 miner where m: "addr_to_string x a = c0 # miner" using addr by (cases "addr_to_string x a") auto
  obtain w3 where add: "db_add_task x e ?tid a ty ?rid c (bump w2) = (Ok ?tid, w3)" "res_tab w3 = res_tab w2"
    using new tab quiet(1) m by (simp add: db_add_task_def stmt_Ok_iff miner_noprefix_def)
  have "add_task_inner x e DbResource a c ty d w = (Ok ?tid, w3)"
    unfolding add_task_inner_def Let_def and_then_Ok_iff map_err_Ok_iff cond_internal_Ok ok_Ok_iff
    by (intro exI conjI, rule has, rule st, rule known) (simp_all add: add)
  with db_add_task_Ok[OF add(1)] add(2) stored tab show ?thesis by auto
qed

lemma fetch_quiet:
  assumes "db_fault e (tick w) = None"
  shows "fetch e i w = (case first_row (query e task_tab (\<lambda>t. tk_id t = i) (Asc tk_create_at) (bump w)) of
      None \<Rightarrow> Err (''not found '' @ i) | Some t \<Rightarrow> Ok t, bump w)"
  using assms by (auto simp: fetch_def and_then_def find_one_def sql_def lift_res_def if_not_found_def split: option.splits)

text \<open>What the plugin does to the table for a task that is there: a failed task is opened again, all other rows stay.\<close>

lemma reopen_failed:
  assumes "keyed task_tab tk_id w" "t \<in> set (task_tab w)" "tk_id t = i"
  shows "tk_state t = Error \<Longrightarrow> update_rows (\<lambda>t. tk_id t \<in> set [i]) (\<lambda>t. t\<lparr>tk_state := Init\<rparr>) (task_tab w) =
      map (\<lambda>t. if tk_id t = i \<and> tk_state t = Error then t\<lparr>tk_state := Init\<rparr> else t) (task_tab w)"
    and "tk_state t \<noteq> Error \<Longrightarrow>
      map (\<lambda>t. if tk_id t = i \<and> tk_state t = Error then t\<lparr>tk_state := Init\<rparr> else t) (task_tab w) = task_tab w"
proof -
  have one: "u = t" if "u \<in> set (task_tab w)" "tk_id u = i" for u
    using distinct_keys_same[of tk_id "task_tab w" u t] assms that by (simp add: keyed_def)
  show "tk_state t = Error \<Longrightarrow> update_rows (\<lambda>t. tk_id t \<in> set [i]) (\<lambda>t. t\<lparr>tk_state := Init\<rparr>) (task_tab w) =
      map (\<lambda>t. if tk_id t = i \<and> tk_state t = Error then t\<lparr>tk_state := Init\<rparr> else t) (task_tab w)"
    using one by (auto simp: update_rows_def)
  show "tk_state t \<noteq> Error \<Longrightarrow>
      map (\<lambda>t. if tk_id t = i \<and> tk_state t = Error then t\<lparr>tk_state := Init\<rparr> else t) (task_tab w) = task_tab w"
    using one by (intro map_idI) auto
qed

text \<open>C25. On a server without faults that keeps parameters in its database, the plugin ends up with the id of
  the task of its request, and this is all it does to the tasks: if the task is there and failed its state is set
  to \<open>Init\<close>, in any other state it is left alone, every other task stays as it is and so do the resources; if it is not
  there, which the plugin recognises by the words of the error message, it is appended as a new open task and its resource is
  stored. Task ids are unique in the table, the network delivers every call, Base64 decodes what it encodes, the error a client gets holds the words of the
  server's message, the miner's address is not empty and is read back from its text, and the parameters are those of a request.\<close>

theorem plugin_finds_or_submits:
  assumes quiet: "\<forall>i. db_fault e i = None" "\<forall>i. io_fault e i = None" "\<forall>i. net e i = Delivered"
    and b64: "\<And>d. b64_decode x (b64_encode x d) = Ok d"
    and wire: "\<And>m. str_contains (wire_err x (Call (Failed m))) m"
    and addr: "addr_from_str x (addr_to_string x a) = Ok a" "addr_to_string x a \<noteq> []" "a = addr_new_id p (in_miner_id input)"
    and param: "c2_from_slice x d = Ok r" and inv: "keyed task_tab tk_id w"
  shows "\<exists>w'. ensure_task p x e DbResource input d w = (Ok (gen_task_id x a C2 d), w') \<and>
    (if gen_task_id x a C2 d \<in> tk_id ` set (task_tab w)
     then task_tab w' = map (\<lambda>t. if tk_id t = gen_task_id x a C2 d \<and> tk_state t = Error then t\<lparr>tk_state := Init\<rparr> else t) (task_tab w) \<and>
       res_tab w' = res_tab w
     else \<exists>t. task_tab w' = task_tab w @ [t] \<and> tk_id t = gen_task_id x a C2 d \<and> tk_resource_id t = gen_resource_id x d \<and>
       tk_state t = Init \<and> gen_resource_id x d \<in> ri_id ` set (res_tab w'))"
proof -
  let ?tid = "gen_task_id x a C2 d"
  let ?q = "first_row (query e task_tab (\<lambda>t. tk_id t = ?tid) (Asc tk_create_at) (bump (bump w)))"
  have serve: "serve x e DbResource (GetTask ?tid) (bump w) =
      (case ?q of None \<Rightarrow> Err (Call (Failed (''not found '' @ ?tid))) | Some t \<Rightarrow> Ok (RTask t), bump (bump w))"
    using quiet(1) by (cases ?q) (simp_all add: get_task_def map_ok_def internal_call_error_def map_err_def fetch_quiet del: first_row_None)
  show ?thesis
  proof (cases ?q)
    case (Some t)
    have t: "t \<in> set (task_tab w)" "tk_id t = ?tid" using first_query_Some[OF Some] by auto
    then have there: "?tid \<in> tk_id ` set (task_tab w)" by force
    have got: "wc_get_task x e DbResource ?tid w = (Ok t, bump (bump w))"
      using serve Some quiet(3) by (simp add: wc_get_task_def and_then_def rpc_call_def expect_task_def ok_def)
    show ?thesis
    proof (cases "tk_state t = Error")
      case True
      let ?u = "task_tab_update (update_rows (\<lambda>t. tk_id t \<in> set [?tid]) (\<lambda>t. t\<lparr>tk_state := Init\<rparr>)) (bump (bump (bump (bump w))))"
      have "wc_update_status_by_id x e DbResource [?tid] Init (bump (bump w)) = (Ok (), ?u)"
        using quiet(1,3)
        by (simp add: wc_update_status_by_id_def and_then_def rpc_call_def expect_unit_def ok_def map_ok_def
            update_status_by_id_def internal_call_error_def map_err_def db_update_status_by_id_def update_many_def sql_def)
      then have "ensure_task p x e DbResource input d w = (Ok ?tid, ?u)"
        using got True by (simp add: ensure_task_def Let_def addr(3) map_ok_def)
      moreover have "task_tab ?u = map (\<lambda>t. if tk_id t = ?tid \<and> tk_state t = Error then t\<lparr>tk_state := Init\<rparr> else t) (task_tab w)"
        using reopen_failed(1)[OF inv t True] by simp
      moreover have "res_tab ?u = res_tab w" by simp
      ultimately show ?thesis using there by (intro exI[of _ ?u]) simp
    next
      case False
      then have "ensure_task p x e DbResource input d w = (Ok ?tid, bump (bump w))"
        using got by (simp add: ensure_task_def Let_def addr(3) ok_def)
      then show ?thesis using there reopen_failed(2)[OF inv t False] by (intro exI[of _ "bump (bump w)"]) simp
    qed
  next
    case None
    then have new: "?tid \<notin> tk_id ` set (task_tab w)" by auto
    have got: "wc_get_task x e DbResource ?tid w = (Err (wire_err x (Call (Failed (''not found '' @ ?tid)))), bump (bump w))"
      using serve None quiet(3) by (simp add: wc_get_task_def and_then_def rpc_call_def)
    have "sublist ''not found'' (''not found '' @ ?tid)" by (intro prefix_imp_sublist) simp
    then have nf: "str_contains (wire_err x (Call (Failed (''not found '' @ ?tid)))) ''not found''"
      using wire[of "''not found '' @ ?tid"] unfolding str_contains_def by (rule sublist_order.order_trans)
    let ?c = "sector_text p (in_sector_id input) @ '' MinerId('' @ show_nat (unat (in_miner_id input)) @ '')''"
    obtain w' t where add: "add_task_inner x e DbResource a ?c C2 d (bump (bump (bump w))) = (Ok ?tid, w')"
      and row: "task_tab w' = task_tab w @ [t]" "tk_id t = ?tid" "tk_resource_id t = gen_resource_id x d" "tk_state t = Init"
        "gen_resource_id x d \<in> ri_id ` set (res_tab w')"
      using add_task_inner_total[OF quiet(1,2) addr(2), of C2 d "bump (bump (bump w))" ?c] new by auto
    have "rpc_add_task x e DbResource (addr_to_string x a) ?c C2 d (bump (bump (bump w))) = (Ok ?tid, w')"
      using add by (simp add: rpc_add_task_def and_then_def lift_res_def invalid_params_def addr(1) param)
    then have "wc_add_task x e DbResource (addr_to_string x a) ?c C2 d (bump (bump w)) = (Ok ?tid, w')"
      using transport_exact[OF b64, of e "bump (bump w)"] quiet(3) by blast
    then have "ensure_task p x e DbResource input d w = (Ok ?tid, w')"
      using got nf by (simp add: ensure_task_def Let_def addr(3) map_ok_def map_err_def)
    with row new show ?thesis by (intro exI[of _ w']) simp
  qed
qed

definition demo_plugin :: "(string, bytes) plugin_ext" where
  "demo_plugin = \<lparr>input_to_vec = (\<lambda>i. Ok (in_c1out i)), addr_new_id = (\<lambda>m. ''f0'' @ show_nat (unat m)),
     sector_text = (\<lambda>s. show_nat (unat s)),
     request_from_str = (\<lambda>l. if l = '''' then Err ''EOF'' else
       Ok \<lparr>rq_id = 7, rq_task = \<lparr>in_c1out = [1], in_prover_id = [], in_sector_id = 3, in_miner_id = 9\<rparr>\<rparr>),
     response_to_string = (\<lambda>r. Ok (show_nat (unat (rs_id r))))\<rparr>"

definition demo_cfg :: c2_plugin_cfg where
  "demo_cfg = \<lparr>cfg_url = ''127.0.0.1:18888'', pool_task_interval = 60\<rparr>"

definition demo_tid :: string where
  "demo_tid = gen_task_id demo_ext ''f09'' C2 [1]"

definition demo_input :: "bytes c2_input" where
  "demo_input = \<lparr>in_c1out = [1], in_prover_id = [], in_sector_id = 3, in_miner_id = 9\<rparr>"

lemma demo_wire: "str_contains (wire_err demo_ext (Call (Failed m))) m"
  using str_contains_infix[of "''RPC call failed: ''" m "[]"] by (simp add: demo_ext_def)

definition failed_world :: world where
  "failed_world = empty_world\<lparr>task_tab := [mk_task ''other'' ''r'' Error ''w2'' 1,
     mk_task demo_tid (gen_resource_id demo_ext [1]) Error ''w1'' 1]\<rparr>"

theorem plugin_finds_or_submits_witness:
  "\<exists>w' t v'. ensure_task demo_plugin demo_ext quiet DbResource demo_input [1] empty_world = (Ok demo_tid, w') \<and>
      task_tab w' = [t] \<and> tk_id t = demo_tid \<and> tk_state t = Init \<and>
    ensure_task demo_plugin demo_ext quiet DbResource demo_input [1] failed_world = (Ok demo_tid, v') \<and>
      map tk_state (task_tab v') = [Error, Init]"
proof -
  have a: "''f09'' = addr_new_id demo_plugin (in_miner_id demo_input)" by code_simp
  have s: "addr_from_str demo_ext (addr_to_string demo_ext ''f09'') = Ok ''f09''"
    "addr_to_string demo_ext ''f09'' \<noteq> []" by (simp_all add: demo_ext_def)
  have q: "\<forall>i. db_fault quiet i = None" "\<forall>i. io_fault quiet i = None" "\<forall>i. net quiet i = Delivered" by simp_all
  have c: "c2_from_slice demo_ext [1] = Ok \<lparr>prover_id = [], sector_id = 0, c1out = [1]\<rparr>" by (simp add: demo_ext_def)
  have k: "keyed task_tab tk_id empty_world" by (simp add: keyed_def empty_world_def)
  have new: "demo_tid \<notin> tk_id ` set (task_tab empty_world)" by (simp add: empty_world_def)
  obtain w' t where w': "ensure_task demo_plugin demo_ext quiet DbResource demo_input [1] empty_world = (Ok demo_tid, w')"
    "task_tab w' = task_tab empty_world @ [t]" "tk_id t = demo_tid" "tk_state t = Init"
    using plugin_finds_or_submits[OF q demo_b64 demo_wire s a c k, folded demo_tid_def, unfolded if_not_P[OF new]]
    by (elim exE conjE) (rule that)
  have other: "''other'' \<noteq> demo_tid" by code_simp
  then have k2: "keyed task_tab tk_id failed_world" by (simp add: keyed_def failed_world_def mk_task_def)
  have there: "demo_tid \<in> tk_id ` set (task_tab failed_world)" by (simp add: failed_world_def mk_task_def)
  obtain v' where v': "ensure_task demo_plugin demo_ext quiet DbResource demo_input [1] failed_world = (Ok demo_tid, v')"
    "task_tab v' = map (\<lambda>t. if tk_id t = demo_tid \<and> tk_state t = Error then t\<lparr>tk_state := Init\<rparr> else t) (task_tab failed_world)"
    using plugin_finds_or_submits[OF q demo_b64 demo_wire s a c k2, folded demo_tid_def, unfolded if_P[OF there]]
    by (elim exE conjE) (rule that)
  have "map tk_state (task_tab v') = [Error, Init]"
    unfolding v'(2) using other by (simp add: failed_world_def mk_task_def)
  moreover have "task_tab w' = [t]" using w'(2) by (simp add: empty_world_def)
  ultimately show ?thesis using w' v'(1) by (intro exI[of _ w'] exI[of _ t] exI[of _ v'] conjI)
qed

text \<open>A server on which the task of this input is completed.\<close>

definition done_task :: task where
  "done_task = (mk_task demo_tid (gen_resource_id demo_ext [1]) Completed ''w1'' 1)\<lparr>tk_proof := [99, 1]\<rparr>"

definition done_world :: world where
  "done_world = empty_world\<lparr>task_tab := [done_task]\<rparr>"

definition no_others :: "nat \<Rightarrow> request list" where
  "no_others n = []"

lemma done_poll:
  "\<exists>w'. wc_get_task demo_ext quiet DbResource demo_tid w = (Ok done_task, w')
     \<and> task_tab w' = task_tab done_world" if "task_tab w = task_tab done_world"
proof -
  let ?t = "done_task"
  have "query quiet task_tab (\<lambda>t. tk_id t = demo_tid) (Asc tk_create_at) (bump (bump w)) = [?t]"
    using that by (intro query_single) (simp add: done_world_def done_task_def mk_task_def)
  then have "fetch quiet demo_tid (bump w) = (Ok ?t, bump (bump w))" by (simp add: fetch_quiet)
  then have "wc_get_task demo_ext quiet DbResource demo_tid w = (Ok ?t, bump (bump w))"
    by (simp add: wc_get_task_def and_then_def rpc_call_def map_ok_def get_task_def internal_call_error_def map_err_def
        expect_task_def ok_def)
  with that show ?thesis by simp
qed

lemma done_trace:
  assumes "task_tab w = task_tab done_world"
  shows "\<exists>n w'. trace_task_result demo_plugin demo_ext quiet DbResource no_others 3 demo_tid w = Some (Ok [99, 1], n, w')"
proof -
  from done_poll[OF assms] obtain w' where
    "wc_get_task demo_ext quiet DbResource demo_tid w = (Ok done_task, w')"
    by blast
  then have "poll_task demo_plugin demo_ext quiet DbResource no_others 3 demo_tid (0, w) = (Some (Ok [99, 1]), 1, w')"
    by (simp add: poll_task_def no_others_def after_poll_def done_task_def mk_task_def)
  then show ?thesis unfolding trace_task_result_def by (subst poll_loop.simps) simp
qed

theorem trace_reports_recorded_outcome_witness:
  "\<exists>w' :: world. \<exists>t \<in> set (task_tab w'). tk_id t = demo_tid \<and> tk_state t = Completed \<and> tk_proof t = [99, 1]"
proof -
  from done_trace[OF HOL.refl] obtain n w' where
    run: "trace_task_result demo_plugin demo_ext quiet DbResource no_others 3 demo_tid done_world = Some (Ok [99, 1], n, w')" by blast
  from trace_reports_recorded_outcome[OF run] obtain t where "t \<in> set (task_tab w')" "tk_id t = demo_tid"
    "tk_state t = Completed" "tk_proof t = [99, 1]" by auto
  then show ?thesis by blast
qed

lemma done_line:
  "handle_line demo_plugin demo_ext quiet DbResource demo_platform demo_cfg no_others ''job'' done_world = Some (write_value 7 [99, 1])"
proof -
  have tid: "gen_task_id demo_ext (addr_new_id demo_plugin (in_miner_id demo_input)) C2 [1] = demo_tid" by code_simp
  have vec: "input_to_vec demo_plugin demo_input = Ok [1]" by (simp add: demo_plugin_def demo_input_def)
  have api: "is_ok (get_proxy_api demo_platform (cfg_url demo_cfg))" by code_simp
  from done_poll[OF HOL.refl] obtain w1 where
    got: "wc_get_task demo_ext quiet DbResource demo_tid done_world = (Ok done_task, w1)"
    and tab: "task_tab w1 = task_tab done_world" by blast
  have "ensure_task demo_plugin demo_ext quiet DbResource demo_input [1] done_world = (Ok demo_tid, w1)"
    by (simp add: ensure_task_def Let_def tid got done_task_def mk_task_def ok_def)
  then have found: "find_or_submit demo_plugin demo_ext quiet DbResource demo_platform demo_cfg demo_input done_world = (Ok demo_tid, w1)"
    using api by (auto simp: find_or_submit_def and_then_Ok_iff map_err_Ok_iff lift_res_Ok_iff vec is_ok_iff)
  from done_trace[OF tab] obtain n w' where
    run: "trace_task_result demo_plugin demo_ext quiet DbResource no_others 3 demo_tid w1 = Some (Ok [99, 1], n, w')" by blast
  have req: "request_from_str demo_plugin ''job'' = Ok \<lparr>rq_id = 7, rq_task = demo_input\<rparr>"
    by (simp add: demo_plugin_def demo_input_def)
  have sec: "in_sector_id demo_input = 3" by (simp add: demo_input_def)
  have "process_request demo_plugin demo_ext quiet DbResource demo_platform demo_cfg no_others
      demo_input done_world = Some (Ok [99, 1], w')"
    by (simp add: process_request_def found run sec)
  then show ?thesis by (simp add: handle_line_def req)
qed

theorem plugin_output_authentic_witness:
  "\<exists>resp. handle_line demo_plugin demo_ext quiet DbResource demo_platform demo_cfg no_others ''job'' done_world = Some resp \<and>
     rs_id resp = 7 \<and> rs_err_msg resp = None \<and> rs_output resp = Some [99, 1]"
  using plugin_output_authentic[OF done_line] done_line by (simp add: write_value_def)

end
