(* ===== verification/Proof_Authenticity.thy ===== *)
theory Proof_Authenticity
  imports C2_Plugin
begin

text \<open>
  Why a recorded proof is the right one. \<open>U\<close> is the set of all pairs of miner address and
  parameter bytes that are submitted, and the version 5 UUID is assumed not to collide on the byte strings
  hashed for them. A world is \<open>authentic_world\<close> if every task comes from such a pair, every stored resource is the
  bytes of one under its own id, and every completed task carries a proof that a run of \<open>c2\<close> returned on the parameters of its pair.
  Requests that do not forge a result keep this, and so do all steps of a worker, which sends no other.
\<close>

section \<open>Submissions and their hashes\<close>

text \<open>\<open>U\<close>: the pairs of miner address and parameter bytes that are ever submitted.\<close>

definition hashed :: "('addr, 'c1) ext \<Rightarrow> ('addr \<times> bytes) set \<Rightarrow> bytes set" where
  "hashed x U = snd ` U \<union> (\<Union>(a, d) \<in> U. range (\<lambda>ty. task_id_buf x a ty d))"

definition collision_free :: "('addr, 'c1) ext \<Rightarrow> ('addr \<times> bytes) set \<Rightarrow> bool" where
  "collision_free x U \<longleftrightarrow> inj_on (uuid_v5 x) (hashed x U) \<and> (\<forall>d \<in> snd ` U. length (uuid_v5 x d) = 36)"

lemma same_resource:
  "collision_free x U \<Longrightarrow> d \<in> snd ` U \<Longrightarrow> d' \<in> snd ` U \<Longrightarrow> gen_resource_id x d = gen_resource_id x d' \<Longrightarrow> d = d'"
  by (auto simp: collision_free_def hashed_def gen_resource_id_def dest!: inj_onD)

lemma same_task:
  assumes free: "collision_free x U" and mem: "(a, d) \<in> U" "(a', d') \<in> U"
    and eq: "gen_task_id x a t d = gen_task_id x a' t' d'"
  shows "d = d'"
proof -
  have "{d, d', task_id_buf x a t d, task_id_buf x a' t' d'} \<subseteq> hashed x U"
    using mem by (force simp: hashed_def)
  moreover have "inj_on (uuid_v5 x) (hashed x U)" using free by (simp add: collision_free_def)
  ultimately have "inj_on (uuid_v5 x) {d, d', task_id_buf x a t d, task_id_buf x a' t' d'}"
    by (rule inj_on_subset[rotated])
  moreover have "length (uuid_v5 x d) = length (uuid_v5 x d')"
    using free bspec[of "snd ` U" _ d] bspec[of "snd ` U" _ d'] mem by (simp add: collision_free_def image_iff) (metis snd_conv)
  ultimately show ?thesis using gen_task_id_inj[OF _ _ eq] by blast
qed

section \<open>Worlds whose proofs are authentic\<close>

text \<open>The task was made from the submission of \<open>d\<close>, and names its resource.\<close>

definition rooted :: "('addr, 'c1) ext \<Rightarrow> ('addr \<times> bytes) set \<Rightarrow> task \<Rightarrow> bytes \<Rightarrow> bool" where
  "rooted x U t d \<longleftrightarrow> (\<exists>a. (a, d) \<in> U \<and> tk_id t = gen_task_id x a (tk_type t) d) \<and> tk_resource_id t = gen_resource_id x d"

definition genuine :: "('addr, 'c1) ext \<Rightarrow> 'c1 prover set \<Rightarrow> ('addr \<times> bytes) set \<Rightarrow> task \<Rightarrow> bool" where
  "genuine x seals U t \<longleftrightarrow> (\<exists>d. rooted x U t d \<and> (tk_state t = Completed \<longrightarrow> proof_of x seals d (tk_proof t)))"

definition authentic_world :: "('addr, 'c1) ext \<Rightarrow> 'c1 prover set \<Rightarrow> ('addr \<times> bytes) set \<Rightarrow> world \<Rightarrow> bool" where
  "authentic_world x seals U w \<longleftrightarrow> (\<forall>t \<in> set (task_tab w). genuine x seals U t) \<and>
     (\<forall>r \<in> set (res_tab w). ri_data r \<in> snd ` U \<and> ri_id r = gen_resource_id x (ri_data r))"

text \<open>A client may submit what is in \<open>U\<close>, set states except to completed, and record a proof only if it is the one of the task it names.\<close>

fun authentic_request :: "('addr, 'c1) ext \<Rightarrow> 'c1 prover set \<Rightarrow> ('addr \<times> bytes) set \<Rightarrow> request \<Rightarrow> bool" where
  "authentic_request x seals U (UpdateStatusById _ s) \<longleftrightarrow> s \<noteq> Completed"
| "authentic_request x seals U (RecordProof _ tid s) \<longleftrightarrow>
     (\<forall>p. b64_param x s = Ok p \<longrightarrow> (\<exists>a ty d. (a, d) \<in> U \<and> tid = gen_task_id x a ty d \<and> proof_of x seals d p))"
| "authentic_request x seals U r \<longleftrightarrow> (\<forall>a d. submits x r a d \<longrightarrow> (a, d) \<in> U)"

lemma authentic_bump [simp]: "authentic_world x seals U (bump w) = authentic_world x seals U w"
  by (simp add: authentic_world_def)

lemma authentic_rollback: "authentic_world x seals U w0 \<Longrightarrow> authentic_world x seals U (rollback w0 w)"
  by (simp add: authentic_world_def)

interpretation au: world_rel "\<lambda>w w'. authentic_world x seals U w \<longrightarrow> authentic_world x seals U w'" for x seals U
proof (standard, goal_cases)
  case (4 w0 w)
  then show ?case using authentic_rollback by blast
qed simp_all

lemma only_workers_authentic: "only_workers w w' \<Longrightarrow> authentic_world x seals U w \<longrightarrow> authentic_world x seals U w'"
  by (simp add: only_workers_def authentic_world_def)

lemma authentic_update:
  assumes "\<And>t. genuine x seals U t \<Longrightarrow> P t \<Longrightarrow> genuine x seals U (f t)"
  shows "authentic_world x seals U w \<longrightarrow> authentic_world x seals U (task_tab_update (update_rows P f) w)"
  using assms by (auto simp: authentic_world_def set_update_rows)

lemma genuine_open: "genuine x seals U t \<Longrightarrow> s \<noteq> Completed \<Longrightarrow> genuine x seals U (t\<lparr>tk_state := s\<rparr>)"
  "genuine x seals U t \<Longrightarrow> genuine x seals U (claim_row wk n t)"
  "genuine x seals U t \<Longrightarrow> genuine x seals U (error_row wk m t)"
  by (auto simp: genuine_def rooted_def row_defs)

lemma task_ops_authentic:
  "preserves (authentic_world x seals U) (has_task e i)" "preserves (authentic_world x seals U) (fetch e i)"
  "preserves (authentic_world x seals U) (db_list_task e wo so)" "preserves (authentic_world x seals U) (db_fetch_uncompleted e wk)"
  "preserves (authentic_world x seals U) (fetch_one_todo e wk types)"
  "preserves (authentic_world x seals U) (db_record_error e wk i m)"
  "s \<noteq> Completed \<Longrightarrow> preserves (authentic_world x seals U) (db_update_status_by_id e is s)"
  unfolding task_op_defs
  by (intro evolve au.stmts au.writes authentic_update genuine_open; simp)+

lemma res_ops_authentic:
  "preserves (authentic_world x seals U) (db_has_resource e i)" "preserves (authentic_world x seals U) (db_get_resource_info e i)"
  "preserves (authentic_world x seals U) (db_delete_resource e i)"
  "d \<in> snd ` U \<Longrightarrow> preserves (authentic_world x seals U) (db_store_resource_info e (gen_resource_id x d) d)"
  unfolding res_op_defs
  by (intro evolve au.stmts au.writes; simp add: authentic_world_def)+

lemma add_task_authentic:
  "(a, d) \<in> U \<Longrightarrow> preserves (authentic_world x seals U) (db_add_task x e (gen_task_id x a ty d) a ty (gen_resource_id x d) c)"
  unfolding db_add_task_def
  by (intro evolve au.stmts au.writes) (auto simp: authentic_world_def genuine_def rooted_def)

lemma add_task_inner_authentic:
  assumes "(a, d) \<in> U"
  shows "preserves (authentic_world x seals U) (add_task_inner x e DbResource a c ty d)"
proof -
  have "d \<in> snd ` U" using assms by force
  with assms show ?thesis unfolding add_task_inner_def Let_def backend_ops
    by (intro evolve au.stmts res_ops_authentic task_ops_authentic add_task_authentic)
qed

lemma record_proof_authentic:
  assumes free: "collision_free x U" and src: "(a, d) \<in> U" "tid = gen_task_id x a ty d" "proof_of x seals d p"
  shows "preserves (authentic_world x seals U) (db_record_proof e wk tid p)"
proof -
  have "genuine x seals U (proof_row wk p n t)" if "genuine x seals U t" "tk_id t = tid" for n t
  proof -
    from that obtain a' d' where t: "(a', d') \<in> U" "tk_id t = gen_task_id x a' (tk_type t) d'" "tk_resource_id t = gen_resource_id x d'"
      by (auto simp: genuine_def rooted_def)
    have "d = d'" using t(2) that(2) src(2) by (intro same_task[OF free src(1) t(1)]) simp
    with t src(3) show ?thesis unfolding genuine_def rooted_def by (intro exI[of _ d]) (auto simp: proof_row_def)
  qed
  then show ?thesis unfolding db_record_proof_def by (intro evolve au.stmts au.writes authentic_update)
qed

lemma serve_authentic:
  assumes free: "collision_free x U" and req: "authentic_request x seals U r"
  shows "preserves (authentic_world x seals U) (serve x e DbResource r)"
proof (cases r)
  case (SubmitC2Task p miner c prover sector)
  then show ?thesis using req
    by (simp only: serve.simps submit_c2_task_def invalid_params_def[symmetric])
      (intro evolve lift_seq[OF au.step_rel_axioms] add_task_inner_authentic; force)
next
  case (AddTask miner c ty p)
  then show ?thesis using req
    by (simp only: serve.simps rpc_add_task_def)
      (intro evolve lift_seq[OF au.step_rel_axioms] au.seq au.pure_rules add_task_inner_authentic; force)
next
  case (RecordProof wk tid s)
  have "preserves (authentic_world x seals U) (db_record_proof e wk tid p)" if p: "b64_param x s = Ok p" for p
    using req p RecordProof record_proof_authentic[OF free] by auto
  then show ?thesis unfolding RecordProof serve.simps record_proof_def backend_ops
    by (intro evolve lift_seq[OF au.step_rel_axioms] au.seq task_ops_authentic res_ops_authentic)
next
  case (UpdateStatusById tids s)
  then show ?thesis using req by (simp add: handler_defs) (intro evolve task_ops_authentic)
qed (simp_all add: handler_defs backend_ops,
    (intro evolve au.stmts task_ops_authentic res_ops_authentic workers_evolve[OF only_workers_authentic], (assumption+)?)+)

section \<open>Workers report authentic proofs\<close>

text \<open>A worker that reads from the store of the server reads what was submitted under the id.\<close>

definition reads_submitted :: "('addr, 'c1) ext \<Rightarrow> 'c1 prover set \<Rightarrow> ('addr \<times> bytes) set \<Rightarrow> (string \<Rightarrow> bytes db) \<Rightarrow> bool" where
  "reads_submitted x seals U resource \<longleftrightarrow> (\<forall>i. preserves (authentic_world x seals U) (resource i) \<and>
     (\<forall>w d w'. authentic_world x seals U w \<longrightarrow> resource i w = (Ok d, w') \<longrightarrow> d \<in> snd ` U \<and> gen_resource_id x d = i))"

text \<open>What a worker holds in an authentic world: tasks of submissions, their own parameters, and results computed from them.\<close>

definition work_authentic :: "('addr, 'c1) ext \<Rightarrow> 'c1 prover set \<Rightarrow> ('addr \<times> bytes) set \<Rightarrow> machine \<Rightarrow> bool" where
  "work_authentic x seals U m \<longleftrightarrow>
     (\<forall>t \<in> set (held m) \<union> set (waiting m). \<exists>d. rooted x U t d) \<and>
     (\<forall>t d. (t, d) \<in> set (jobs m) \<longrightarrow> d \<in> snd ` U \<and> gen_resource_id x d = tk_resource_id t) \<and>
     (\<forall>t r. (t, r) \<in> set (outs m) \<longrightarrow> (\<exists>d \<in> snd ` U. gen_resource_id x d = tk_resource_id t \<and> (\<exists>seal \<in> seals. r = c2 x seal d)))"

lemma authentic_rows: "authentic_world x seals U w \<Longrightarrow> t \<in> set (task_tab w) \<Longrightarrow> \<exists>d. rooted x U t d"
  by (auto simp: authentic_world_def genuine_def)

lemma reported_authentic:
  assumes free: "collision_free x U" and b64: "\<And>d. b64_decode x (b64_encode x d) = Ok d"
    and t: "rooted x U t d0" and d: "d \<in> snd ` U" "gen_resource_id x d = tk_resource_id t"
    and seal: "seal \<in> seals"
  shows "preserves (authentic_world x seals U) (report_result x e DbResource lw t (c2 x seal d))"
proof -
  have "d = d0" using t d by (intro same_resource[OF free]) (force simp: rooted_def)+
  then obtain a where "(a, d) \<in> U" "tk_id t = gen_task_id x a (tk_type t) d" using t by (auto simp: rooted_def)
  then have req: "authentic_request x seals U (RecordProof wk (tk_id t) (b64_encode x p))" if "c2 x seal d = Ok p" for wk p
    using that b64 seal by (auto simp: b64_param_def base64byte_deserialize_def proof_of_def)
  have err: "authentic_request x seals U (RecordError wk i m)" for wk i m by simp
  note call = wc_evolves[OF au.world_rel_axioms serve_authentic[OF free] expect_evolves(3)[OF au.step_rel_axioms]]
  show ?thesis
    by (cases "c2 x seal d")
      (auto simp: report_result_def wc_worker_defs base64byte_serialize_def intro: call req err au.pure_lift_res)
qed

lemma execute_c2: "execute_task x seal t d = c2 x seal d"
  by (cases "tk_type t") (simp add: execute_task_def)

lemma worker_calls_authentic:
  assumes free: "collision_free x U"
  shows "preserves (authentic_world x seals U) (wc_fetch_uncompleted x e DbResource wk)"
    "preserves (authentic_world x seals U) (wc_fetch_one_todo x e DbResource wk types)"
    "authentic_request x seals U r \<Longrightarrow> authentic_world x seals U w \<Longrightarrow> authentic_world x seals U (exchange x e DbResource r w)"
proof -
  note call = wc_evolves[OF au.world_rel_axioms serve_authentic[OF free]]
  show "preserves (authentic_world x seals U) (wc_fetch_uncompleted x e DbResource wk)"
    unfolding wc_worker_defs by (rule call[OF _ expect_evolves(2)[OF au.step_rel_axioms]]) simp
  show "preserves (authentic_world x seals U) (wc_fetch_one_todo x e DbResource wk types)"
    unfolding wc_worker_defs by (rule call[OF _ expect_evolves(1)[OF au.step_rel_axioms]]) simp
  show "authentic_request x seals U r \<Longrightarrow> authentic_world x seals U w \<Longrightarrow> authentic_world x seals U (exchange x e DbResource r w)"
    unfolding exchange_def by (rule preservesD[OF rpc_call_evolves[OF au.world_rel_axioms serve_authentic[OF free]]])
qed

lemma fetched_rows:
  "wc_fetch_uncompleted x e b wk w = (Ok ts, w') \<Longrightarrow> set ts \<subseteq> set (task_tab w)"
  "wc_fetch_one_todo x e b wk types w = (Ok t, w') \<Longrightarrow> t \<in> set (task_tab w')"
proof -
  assume "wc_fetch_uncompleted x e b wk w = (Ok ts, w')"
  from uncompleted_tasks(2)[OF this] show "set ts \<subseteq> set (task_tab w)" by auto
next
  assume "wc_fetch_one_todo x e b wk types w = (Ok t, w')"
  then have "rpc_call x e b (FetchTodo wk types) w = (Ok (RTask t), w')"
    by (auto simp: wc_fetch_one_todo_def and_then_Ok_iff expect_Ok)
  from rpc_call_Ok[OF this] have "fetch_one_todo e wk types (bump w) = (Ok t, w')"
    by (auto simp: map_ok_Ok_iff fetch_todo_def internal_call_error_Ok)
  then show "t \<in> set (task_tab w')"
    by (auto simp: fetch_one_todo_def transaction_Ok_iff stmt_Ok_iff split: option.splits if_splits dest!: first_query_Some)
qed

lemma worker_step_authentic:
  assumes step: "worker_step x e DbResource resource seals rs lw allowed m m'"
    and inv: "authentic_world x seals U (wld m)" "work_authentic x seals U m"
    and free: "collision_free x U" and b64: "\<And>d. b64_decode x (b64_encode x d) = Ok d"
    and reads: "reads_submitted x seals U resource" and clients: "\<And>r. allowed r \<Longrightarrow> authentic_request x seals U r"
  shows "authentic_world x seals U (wld m') \<and> work_authentic x seals U m'"
proof -
  have res: "authentic_world x seals U w'" if "resource i (wld m) = (r, w')" for i r w'
    using reads inv(1) that preservesD[of "authentic_world x seals U" "resource i" "wld m"] by (simp add: reads_submitted_def)
  note calls = worker_calls_authentic[OF free]
  note eqs = work_authentic_def held_def waiting_def
  from step show ?thesis
  proof cases
    case (resume ts w')
    have "authentic_world x seals U w'" using evolves_Ok[OF calls(1) resume(3)] inv(1) by blast
    with fetched_rows(1)[OF resume(3)] resume inv(2) authentic_rows[OF inv(1)] show ?thesis by (auto simp: eqs)
  next
    case (resume_panic r w')
    with evolves_Ok[OF calls(1) resume_panic(3)] inv show ?thesis by (auto simp: eqs)
  next
    case (fetch t w')
    have "authentic_world x seals U w'" using evolves_Ok[OF calls(2) fetch(4)] inv(1) by blast
    with fetched_rows(2)[OF fetch(4)] fetch inv(2) authentic_rows[of x seals U w' t] show ?thesis by (auto simp: eqs)
  next
    case (fetch_none r w')
    with evolves_Ok[OF calls(2) fetch_none(4)] inv show ?thesis by (auto simp: eqs)
  next
    case (pop ts)
    then have "set (butlast ts) \<subseteq> set ts" "last ts \<in> set ts" by (auto dest: in_set_butlastD)
    with pop inv show ?thesis by (auto simp: eqs)
  next
    case (prepared t rc r w' d)
    then have "resource (tk_resource_id t) (wld m) = (Ok d, w')" by (simp add: after_attempt_Prepared)
    then have "d \<in> snd ` U" "gen_resource_id x d = tk_resource_id t" using reads inv(1)
      unfolding reads_submitted_def by blast+
    with prepared inv res[OF prepared(3)] show ?thesis by (auto simp: eqs)
  next
    case (finish t d seal)
    have jobs: "set (jobs m') \<subseteq> set (jobs m)" using finish(1) by (simp add: set_remove1_subset)
    have "t \<in> fst ` set (jobs m)" using finish(2) by force
    then have "set (held m') \<union> set (waiting m') \<subseteq> set (held m) \<union> set (waiting m)"
      using jobs finish(1) by (auto simp: held_def waiting_def)
    then have "\<forall>t \<in> set (held m') \<union> set (waiting m'). \<exists>d. rooted x U t d"
      using inv(2) unfolding work_authentic_def by blast
    moreover have "d \<in> snd ` U \<and> gen_resource_id x d = tk_resource_id t"
      using inv(2) finish(2) unfolding work_authentic_def by blast
    then have "\<forall>t r. (t, r) \<in> set (outs m') \<longrightarrow> (\<exists>d \<in> snd ` U. gen_resource_id x d = tk_resource_id t \<and>
        (\<exists>seal \<in> seals. r = c2 x seal d))"
      using inv(2) finish(1,3) by (simp add: work_authentic_def execute_c2) blast
    moreover have "\<forall>t d. (t, d) \<in> set (jobs m') \<longrightarrow> d \<in> snd ` U \<and> gen_resource_id x d = tk_resource_id t"
      using inv(2) jobs unfolding work_authentic_def by blast
    ultimately show ?thesis using inv(1) finish(1) by (simp add: work_authentic_def)
  next
    case (report t r os)
    have mem: "(t, r) \<in> set (outs m)" "t \<in> set (held m)" using report(3) by (simp_all add: held_def)
    from mem(1) inv(2) obtain d seal where d: "d \<in> snd ` U" "gen_resource_id x d = tk_resource_id t" "seal \<in> seals" "r = c2 x seal d"
      unfolding work_authentic_def by blast
    from mem(2) inv(2) obtain d0 where t: "rooted x U t d0" unfolding work_authentic_def by blast
    have "authentic_world x seals U (snd (report_result x e DbResource lw t r (wld m)))"
      unfolding d(4) by (rule preservesD[OF reported_authentic[OF free b64 t d(1,2,3)] inv(1)])
    with report inv(2) show ?thesis by (simp add: eqs)
  next
    case (others req)
    with calls(3)[OF clients[OF others(2)] inv(1)] inv(2) show ?thesis by (auto simp: eqs)
  next
    case (retry t rc r w' rc')
    with inv(2) res[OF retry(3)] show ?thesis by (auto simp: eqs)
  next
    case (abandon t rc r w')
    with inv(2) res[OF abandon(3)] show ?thesis by (auto simp: eqs)
  next
    case (crash t rc p w')
    with inv(2) res[OF crash(3)] show ?thesis by (auto simp: eqs)
  qed (use inv in \<open>auto simp: eqs\<close>)
qed

end
