(* ===== verification/Deployment.thy ===== *)
theory Deployment
  imports Proof_Authenticity
begin

text \<open>
  A server with its database and any number of workers, composed: each worker is the transition system of
  \<open>Local_Worker\<close> over the one shared world, may be killed and started again at any time, and other clients send requests
  in between. The theory lifts the authenticity of results and the rule that no task is in two hands
  from one worker to all of them.
\<close>

section \<open>A server and its workers\<close>

text \<open>Where a worker reads parameters: the store of its own process (a worker inside the server), or
  the resource given on its command line.\<close>

datatype reader = InServer | Outside worker_source

record site =
  st_worker :: local_worker
  st_retries :: "32 word"
  st_reader :: reader

definition site_read :: "('addr, 'c1) ext \<Rightarrow> env \<Rightarrow> backend \<Rightarrow> site \<Rightarrow> string \<Rightarrow> bytes db" where
  "site_read x e b s i = (case st_reader s of
     InServer \<Rightarrow> get_resource_info b e i | Outside src \<Rightarrow> worker_resource x e b src i)"

record deployment =
  dep_world :: world
  dep_machines :: "machine list"

text \<open>A worker makes a step on the shared world, is started afresh after a crash, or a client sends a request.\<close>

inductive deploy_step ::
  "('addr, 'c1) ext \<Rightarrow> env \<Rightarrow> backend \<Rightarrow> 'c1 prover set \<Rightarrow> site list \<Rightarrow> (request \<Rightarrow> bool) \<Rightarrow> deployment \<Rightarrow> deployment \<Rightarrow> bool"
  for x e b seals sites allowed where
  work: "i < length sites \<Longrightarrow>
     worker_step x e b (site_read x e b (sites ! i)) seals (st_retries (sites ! i)) (st_worker (sites ! i)) (\<lambda>_. False)
       ((dep_machines s ! i)\<lparr>wld := dep_world s\<rparr>) m \<Longrightarrow>
     deploy_step x e b seals sites allowed s (s\<lparr>dep_world := wld m, dep_machines := (dep_machines s)[i := m]\<rparr>)"
| restart: "i < length sites \<Longrightarrow> process_tasks (st_worker (sites ! i)) (dep_world s) = Ok m \<Longrightarrow>
     deploy_step x e b seals sites allowed s (s\<lparr>dep_machines := (dep_machines s)[i := m]\<rparr>)"
| client: "allowed r \<Longrightarrow>
     deploy_step x e b seals sites allowed s (s\<lparr>dep_world := exchange x e b r (dep_world s)\<rparr>)"

inductive deploy_reach ::
  "('addr, 'c1) ext \<Rightarrow> env \<Rightarrow> backend \<Rightarrow> 'c1 prover set \<Rightarrow> site list \<Rightarrow> (request \<Rightarrow> bool) \<Rightarrow> world \<Rightarrow> deployment \<Rightarrow> bool"
  for x e b seals sites allowed w0 where
  start: "list_all2 (\<lambda>s m. process_tasks (st_worker s) w0 = Ok m) sites ms \<Longrightarrow>
     deploy_reach x e b seals sites allowed w0 \<lparr>dep_world = w0, dep_machines = ms\<rparr>"
| step: "deploy_reach x e b seals sites allowed w0 s \<Longrightarrow> deploy_step x e b seals sites allowed s s' \<Longrightarrow>
     deploy_reach x e b seals sites allowed w0 s'"

lemma process_tasks_shape: "process_tasks lw w = Ok m \<Longrightarrow>
    wld m = w \<and> fet m = Starting \<and> exe m = Selecting \<and> chan m = [] \<and> jobs m = [] \<and> outs m = [] \<and> held m = [] \<and> waiting m = []"
  by (auto simp: process_tasks_def held_def waiting_def split: if_splits)

lemma machine_wld [simp]: "held (m\<lparr>wld := w\<rparr>) = held m" "waiting (m\<lparr>wld := w\<rparr>) = waiting m"
  by (simp_all add: held_def waiting_def)

section \<open>What the workers of a deployment report\<close>

lemma work_authentic_wld [simp]: "work_authentic x seals U (m\<lparr>wld := w\<rparr>) = work_authentic x seals U m"
  by (simp add: work_authentic_def)

lemma process_tasks_authentic: "process_tasks lw w = Ok m \<Longrightarrow> work_authentic x seals U m"
  by (drule process_tasks_shape) (simp add: work_authentic_def)

lemma db_read_submitted: "authentic_world x seals U w \<Longrightarrow> get_resource_info DbResource e i w = (Ok d, w') \<Longrightarrow>
    d \<in> snd ` U \<and> gen_resource_id x d = i"
  by (auto simp: backend_ops db_get_resource_info_def stmt_Ok_iff authentic_world_def dest!: first_query_Some)

lemma site_reads_submitted:
  assumes free: "collision_free x U" and b64: "\<And>d. b64_decode x (b64_encode x d) = Ok d"
    and r: "st_reader s \<in> {InServer, Outside OverRpc}"
  shows "reads_submitted x seals U (site_read x e DbResource s)"
proof -
  have call: "preserves (authentic_world x seals U) (wc_repo_get_resource_info x e DbResource i)" for i
    unfolding wc_repo_get_resource_info_def
    by (rule wc_evolves[OF au.world_rel_axioms serve_authentic[OF free] expect_evolves(4)[OF au.step_rel_axioms]]) simp
  have rpc: "d \<in> snd ` U \<and> gen_resource_id x d = i"
    if "authentic_world x seals U w" "wc_repo_get_resource_info x e DbResource i w = (Ok d, w')" for i w d w'
  proof -
    from that(2) obtain a w1 where call: "rpc_call x e DbResource (GetResourceInfo i) w = (Ok a, w1)" and a: "expect_bytes x a w1 = (Ok d, w')"
      by (auto simp: wc_repo_get_resource_info_def and_then_Ok_iff)
    from rpc_call_Ok[OF call] obtain d' where g: "get_resource_info DbResource e i (bump w) = (Ok d', w1)" "a = RBytes (b64_encode x d')"
      by (auto simp: map_ok_Ok_iff rpc_get_resource_info_def internal_call_error_Ok base64byte_serialize_def)
    from g(2) a have "d' = d" by (simp add: expect_bytes_def base64byte_deserialize_def b64 lift_res_def)
    with db_read_submitted[OF _ g(1)] that(1) show ?thesis by simp
  qed
  from r consider "st_reader s = InServer" | "st_reader s = Outside OverRpc" by auto
  then show ?thesis
  proof cases
    case 1
    have "preserves (authentic_world x seals U) (get_resource_info DbResource e i)" for i
      by (simp add: backend_ops res_ops_authentic)
    with 1 db_read_submitted show ?thesis unfolding reads_submitted_def site_read_def by (simp only: reader.case) blast
  next
    case 2
    with rpc call show ?thesis unfolding reads_submitted_def site_read_def worker_resource_def by simp
  qed
qed

definition deploy_authentic :: "('addr, 'c1) ext \<Rightarrow> 'c1 prover set \<Rightarrow> ('addr \<times> bytes) set \<Rightarrow> deployment \<Rightarrow> bool" where
  "deploy_authentic x seals U s \<longleftrightarrow> authentic_world x seals U (dep_world s) \<and>
     (\<forall>m \<in> set (dep_machines s). work_authentic x seals U m)"

lemma deploy_reach_length: "deploy_reach x e b seals sites allowed w0 s \<Longrightarrow> length (dep_machines s) = length sites"
  by (induction rule: deploy_reach.induct) (auto simp: list_all2_lengthD elim: deploy_step.cases)

lemma set_list_update: "set (xs[i := y]) \<subseteq> insert y (set xs)"
  by (rule set_update_subset_insert)

lemma deploy_reach_authentic:
  assumes "deploy_reach x e DbResource seals sites allowed w0 s"
    and free: "collision_free x U" and b64: "\<And>d. b64_decode x (b64_encode x d) = Ok d"
    and readers: "\<forall>s \<in> set sites. st_reader s \<in> {InServer, Outside OverRpc}"
    and clients: "\<And>r. allowed r \<Longrightarrow> authentic_request x seals U r" and init: "authentic_world x seals U w0"
  shows "deploy_authentic x seals U s"
  using assms(1)
proof (induction rule: deploy_reach.induct)
  case (start ms)
  then have "\<forall>m \<in> set ms. work_authentic x seals U m"
    using process_tasks_authentic[of _ w0] by (fastforce simp: list_all2_conv_all_nth in_set_conv_nth)
  with init show ?case by (simp add: deploy_authentic_def)
next
  case (step s s')
  from step.hyps(2) show ?case
  proof cases
    case (work i m)
    have i: "i < length (dep_machines s)" using work(2) deploy_reach_length[OF step.hyps(1)] by simp
    have reads: "reads_submitted x seals U (site_read x e DbResource (sites ! i))"
      using readers work(2) by (intro site_reads_submitted[OF free b64]) auto
    have "authentic_world x seals U (wld m) \<and> work_authentic x seals U m"
      using step.IH i by (intro worker_step_authentic[OF work(3) _ _ free b64 reads]) (auto simp: deploy_authentic_def)
    with step.IH set_list_update[of "dep_machines s" i m] work(1) show ?thesis by (auto simp: deploy_authentic_def)
  next
    case (restart i m)
    with step.IH process_tasks_authentic[OF restart(3), of x seals U] set_list_update[of "dep_machines s" i m]
    show ?thesis by (auto simp: deploy_authentic_def)
  next
    case (client r)
    with step.IH worker_calls_authentic(3)[OF free clients[OF client(2)]] show ?thesis by (simp add: deploy_authentic_def)
  qed
qed

section \<open>No task in two hands\<close>

text \<open>The tasks that are given out and not to anybody but this worker.\<close>

definition owned :: "world \<Rightarrow> string \<Rightarrow> string set" where
  "owned w wk = tk_id ` {t \<in> set (task_tab w). Init < tk_state t \<and> (tk_state t = Running \<longrightarrow> tk_worker_id t = wk)}"

definition keeps_owner :: "world \<Rightarrow> world \<Rightarrow> bool" where
  "keeps_owner w w' \<longleftrightarrow> (\<forall>wk. owned w wk \<subseteq> owned w' wk)"

fun no_revival :: "request \<Rightarrow> bool" where
  "no_revival (UpdateStatusById _ s) \<longleftrightarrow> Running < s"
| "no_revival _ \<longleftrightarrow> True"

lemma owned_tab: "task_tab w = task_tab w' \<Longrightarrow> owned w wk = owned w' wk"
  by (simp add: owned_def)

interpretation ko: world_rel keeps_owner
proof (standard, goal_cases)
  case (2 s t u)
  then show ?case unfolding keeps_owner_def by blast
qed (simp_all add: keeps_owner_def owned_def)

lemma keeps_owner_same: "only_store w w' \<Longrightarrow> keeps_owner w w'" "only_workers w w' \<Longrightarrow> keeps_owner w w'"
  by (auto simp: keeps_owner_def owned_def only_store_def only_workers_def)

lemma keeps_owner_update:
  assumes "\<And>t. tk_id (f t) = tk_id t"
    and "\<And>t. P t \<Longrightarrow> Init < tk_state t \<Longrightarrow> Running < tk_state (f t)"
  shows "keeps_owner w (task_tab_update (update_rows P f) w)"
proof -
  have "tk_id t \<in> owned (task_tab_update (update_rows P f) w) wk"
    if "t \<in> set (task_tab w)" "Init < tk_state t" "tk_state t = Running \<longrightarrow> tk_worker_id t = wk" for t wk
  proof -
    let ?u = "if P t then f t else t"
    have "?u \<in> set (update_rows P f (task_tab w))" using that(1) by (simp only: set_update_rows) blast
    moreover have "Init < tk_state ?u \<and> (tk_state ?u = Running \<longrightarrow> tk_worker_id ?u = wk)"
      using that(2,3) assms(2)[of t] by (auto simp: past_Init_iff less_task_state_def state_num_def split: task_state.splits)
    ultimately show ?thesis using assms(1) unfolding owned_def
      by (intro image_eqI[of _ _ ?u]) auto
  qed
  then show ?thesis by (auto simp: keeps_owner_def owned_def)
qed

lemma keeps_owner_insert: "keeps_owner w (task_tab_update (\<lambda>ts. ts @ [t]) w)"
  by (auto simp: keeps_owner_def owned_def)

lemma Running_less: "Running < s \<longleftrightarrow> s = Error \<or> s = Completed"
  by (cases s) (simp_all add: less_task_state_def state_num_def)

lemma task_ops_keep_owner:
  "evolves keeps_owner (db_add_task x e i a ty r c)" "evolves keeps_owner (has_task e i)"
  "evolves keeps_owner (fetch e i)" "evolves keeps_owner (db_list_task e wo so)"
  "evolves keeps_owner (fetch_one_todo e wk types)" "evolves keeps_owner (db_fetch_uncompleted e wk)"
  "evolves keeps_owner (db_record_error e wk i m)" "evolves keeps_owner (db_record_proof e wk i p)"
  "Running < s \<Longrightarrow> evolves keeps_owner (db_update_status_by_id e is s)"
  unfolding task_op_defs
  by (intro evolve ko.stmts ko.writes keeps_owner_insert keeps_owner_update; simp add: Running_less claim_guard_def past_Init_iff)+

lemma serve_keeps_owner: "no_revival r \<Longrightarrow> evolves keeps_owner (serve x e b r)"
proof (rule handlers_evolve, rule ko.world_rel_axioms)
  fix "is" st assume "no_revival r" "r = UpdateStatusById is st"
  then show "evolves keeps_owner (db_update_status_by_id e is st)" by (simp add: task_ops_keep_owner)
qed (auto intro: task_ops_keep_owner store_evolves[OF keeps_owner_same(1)] workers_evolve[OF keeps_owner_same(2)])

lemma calls_keep_owner:
  "evolves keeps_owner (wc_fetch_uncompleted x e b wk)" "evolves keeps_owner (wc_fetch_one_todo x e b wk ts)"
  "evolves keeps_owner (report_result x e b lw t r)"
  "no_revival req \<Longrightarrow> keeps_owner w (exchange x e b req w)"
proof -
  note call = wc_evolves[OF ko.world_rel_axioms serve_keeps_owner]
  show "evolves keeps_owner (report_result x e b lw t r)"
    by (cases r) (simp_all add: report_result_def wc_worker_defs ko.pure_lift_res,
        (rule call[OF _ expect_evolves(3)[OF ko.step_rel_axioms]], simp)+)
  show "no_revival req \<Longrightarrow> keeps_owner w (exchange x e b req w)"
    unfolding exchange_def by (rule evolvesD[OF rpc_call_evolves[OF ko.world_rel_axioms serve_keeps_owner]])
  show "evolves keeps_owner (wc_fetch_uncompleted x e b wk)" unfolding wc_worker_defs
    by (rule call[OF _ expect_evolves(2)[OF ko.step_rel_axioms]]) simp
  show "evolves keeps_owner (wc_fetch_one_todo x e b wk ts)" unfolding wc_worker_defs
    by (rule call[OF _ expect_evolves(1)[OF ko.step_rel_axioms]]) simp
qed

lemma owned_past: "owned w wk \<subseteq> past_ids w"
  by (auto simp: owned_def past_ids_def)

lemma no_revival_safe: "no_revival r \<Longrightarrow> claim_safe r"
  by (cases r) (auto simp: Running_less past_Init_iff)

text \<open>What a worker gets from the server by a step: a task nobody had been given, or one that is running under its name.\<close>

definition gained :: "string \<Rightarrow> world \<Rightarrow> world \<Rightarrow> string \<Rightarrow> bool" where
  "gained wk w w' k \<longleftrightarrow> k \<in> owned w' wk \<and>
     (k \<notin> past_ids w \<or> (\<exists>t \<in> set (task_tab w). tk_id t = k \<and> tk_state t = Running \<and> tk_worker_id t = wk))"

lemma fetch_gains:
  assumes key: "keyed task_tab tk_id w" and run: "wc_fetch_one_todo x e b wk types w = (Ok t, w')"
  shows "gained wk w w' (tk_id t)"
proof -
  have "handed_out x e b (FetchTodo wk types) w = Some (tk_id t)" using run by (simp add: handed_out_def)
  then have "tk_id t \<notin> past_ids w" by (rule handout.claim_fresh[OF key])
  moreover have "rpc_call x e b (FetchTodo wk types) w = (Ok (RTask t), w')"
    using run by (auto simp: wc_fetch_one_todo_def and_then_Ok_iff expect_Ok)
  then have run': "fetch_one_todo e wk types (bump w) = (Ok t, w')"
    by (auto dest!: rpc_call_Ok simp: map_ok_Ok_iff fetch_todo_def internal_call_error_Ok)
  have key': "keyed task_tab tk_id (bump w)" using key by (simp add: keyed_def)
  from fetch_one_todo_claims[OF key' run'] obtain u n where u: "u \<in> set (task_tab w)"
    "t = u\<lparr>tk_state := Running, tk_worker_id := wk, tk_start_at := n\<rparr>"
    "task_tab w' = map (\<lambda>r. if tk_id r = tk_id u then t else r) (task_tab w)"
    by auto
  then have "t \<in> set (task_tab w')" by force
  with u(2) have "tk_id t \<in> owned w' wk"
    unfolding owned_def by (intro image_eqI[of _ _ t]) (auto simp: past_Init_iff)
  ultimately show ?thesis by (simp add: gained_def)
qed

lemma resume_gains:
  assumes run: "wc_fetch_uncompleted x e b wk w = (Ok ts, w')" and t: "t \<in> set ts"
  shows "gained wk w w' (tk_id t)"
proof -
  from t have row: "t \<in> set (task_tab w)" "tk_state t = Running" "tk_worker_id t = wk"
    unfolding uncompleted_tasks(2)[OF run] by simp_all
  then have "tk_id t \<in> owned w wk" by (auto simp: owned_def past_Init_iff)
  with evolves_Ok[OF calls_keep_owner(1) run] row show ?thesis by (auto simp: gained_def keeps_owner_def)
qed

lemma worker_step_owner:
  assumes step: "worker_step x e b resource seals rs lw allowed m m'" and key: "keyed task_tab tk_id (wld m)"
    and res: "\<And>i. evolves only_store (resource i)" and clients: "\<And>r. allowed r \<Longrightarrow> no_revival r"
  shows "keeps_owner (wld m) (wld m') \<and>
    (\<forall>k \<in> set (ids m'). k \<in> set (ids m) \<or> gained (lw_worker_id lw) (wld m) (wld m') k)"
proof -
  have res': "keeps_owner w w'" if "resource i w = (r, w')" for i r w w'
    using evolves_Ok[OF res that] by (rule keeps_owner_same(1))
  note eqs = ids_def held_def waiting_def ko.refl
  from step show ?thesis
  proof cases
    case (resume ts w')
    with evolves_Ok[OF calls_keep_owner(1) resume(3)] resume_gains[OF resume(3)] show ?thesis by (auto simp: eqs)
  next
    case (resume_panic r w')
    with evolves_Ok[OF calls_keep_owner(1) resume_panic(3)] show ?thesis by (auto simp: eqs)
  next
    case (fetch t w')
    with evolves_Ok[OF calls_keep_owner(2) fetch(4)] fetch_gains[OF key fetch(4)] show ?thesis by (auto simp: eqs)
  next
    case (fetch_none r w')
    with evolves_Ok[OF calls_keep_owner(2) fetch_none(4)] show ?thesis by (auto simp: eqs)
  next
    case (pop ts)
    then have "set (butlast ts) \<subseteq> set ts" "last ts \<in> set ts" by (auto dest: in_set_butlastD)
    with pop show ?thesis by (auto simp: eqs)
  next
    case (finish t d seal)
    have "set (remove1 (t, d) (jobs m)) \<subseteq> set (jobs m)" by (rule set_remove1_subset)
    moreover have "tk_id t \<in> tk_id ` fst ` set (jobs m)" using finish(2) by force
    ultimately have "set (ids m') \<subseteq> set (ids m)" using finish(1) by (auto simp: ids_def held_def waiting_def)
    with finish(1) show ?thesis by (auto simp: ko.refl)
  next
    case (report t r os)
    have "keeps_owner (wld m) (snd (report_result x e b lw t r (wld m)))" by (rule evolvesD[OF calls_keep_owner(3)])
    with report show ?thesis by (auto simp: eqs)
  next
    case (others req)
    with calls_keep_owner(4)[OF clients[OF others(2)]] show ?thesis by (auto simp: eqs)
  next
    case (retry t rc r w' rc')
    with res'[OF retry(3)] show ?thesis by (auto simp: eqs)
  next
    case (prepared t rc r w' d)
    with res'[OF prepared(3)] show ?thesis by (auto simp: eqs)
  next
    case (abandon t rc r w')
    with res'[OF abandon(3)] show ?thesis by (auto simp: eqs)
  next
    case (crash t rc p w')
    with res'[OF crash(3)] show ?thesis by (auto simp: eqs)
  qed (auto simp: eqs)
qed


lemma site_read_only_store: "evolves only_store (site_read x e b s i)"
proof -
  have "evolves only_store (wc_repo_get_resource_info x e b i)"
    using wc_resource_only_store[of x e b i] by (simp add: wc_repo_get_resource_info_def wc_get_resource_info_def)
  then show ?thesis
    by (auto simp: site_read_def worker_resource_def intro: backend_only_store file_ops_only_store
        split: reader.split worker_source.split)
qed

text \<open>The invariant: the hands of the workers are disjoint, and they have what the table says they own.\<close>

definition exclusive :: "site list \<Rightarrow> deployment \<Rightarrow> bool" where
  "exclusive sites s \<longleftrightarrow> keyed task_tab tk_id (dep_world s) \<and> length (dep_machines s) = length sites \<and>
     (\<forall>i < length sites. distinct (ids (dep_machines s ! i)) \<and>
        set (ids (dep_machines s ! i)) \<subseteq> owned (dep_world s) (lw_worker_id (st_worker (sites ! i))) \<and>
        (fet (dep_machines s ! i) = Starting \<longrightarrow> held (dep_machines s ! i) = [])) \<and>
     (\<forall>i < length sites. \<forall>j < length sites. i \<noteq> j \<longrightarrow> set (ids (dep_machines s ! i)) \<inter> set (ids (dep_machines s ! j)) = {})"

lemma ids_wld [simp]: "ids (m\<lparr>wld := w\<rparr>) = ids m"
  by (simp add: ids_def)

lemma exclusive_world:
  assumes "exclusive sites s" "keyed task_tab tk_id w" "keeps_owner (dep_world s) w"
  shows "exclusive sites (s\<lparr>dep_world := w\<rparr>)"
  using assms unfolding exclusive_def keeps_owner_def by simp blast

lemma gained_elsewhere:
  assumes "keyed task_tab tk_id w" "gained wk w w' k" "k \<in> owned w wk'"
  shows "wk' = wk"
proof -
  from assms(2,3) owned_past[of w wk'] obtain t where t: "t \<in> set (task_tab w)" "tk_id t = k" "tk_state t = Running" "tk_worker_id t = wk"
    by (auto simp: gained_def)
  from assms(3) obtain u where u: "u \<in> set (task_tab w)" "tk_id u = k" "tk_state u = Running \<longrightarrow> tk_worker_id u = wk'"
    by (auto simp: owned_def)
  with t assms(1) have "u = t" using distinct_keys_same[of tk_id "task_tab w" u t] by (simp add: keyed_def)
  with t u show ?thesis by simp
qed

lemma exclusive_work:
  assumes inv: "exclusive sites s" and i: "i < length sites"
    and names: "distinct (map (\<lambda>s. lw_worker_id (st_worker s)) sites)"
    and step: "worker_step x e b (site_read x e b (sites ! i)) seals rs (st_worker (sites ! i)) (\<lambda>_. False)
       ((dep_machines s ! i)\<lparr>wld := dep_world s\<rparr>) m"
  shows "exclusive sites (s\<lparr>dep_world := wld m, dep_machines := (dep_machines s)[i := m]\<rparr>)"
proof -
  let ?wk = "\<lambda>i. lw_worker_id (st_worker (sites ! i))" and ?m = "\<lambda>i. dep_machines s ! i"
  have key: "keyed task_tab tk_id (dep_world s)" and len: "length (dep_machines s) = length sites"
    using inv by (simp_all add: exclusive_def)
  have single: "single_inv ((?m i)\<lparr>wld := dep_world s\<rparr>)"
    using inv i owned_past[of "dep_world s" "?wk i"] by (auto simp: exclusive_def single_inv_def)
  have m: "single_inv m" by (rule worker_step_single[OF step single site_read_only_store]) simp
  have "keeps_owner (dep_world s) (wld m)" and ids_m: "\<forall>k \<in> set (ids m). k \<in> set (ids (?m i)) \<or> gained (?wk i) (dep_world s) (wld m) k"
    using worker_step_owner[OF step _ site_read_only_store] key by simp_all
  then have keeps: "owned (dep_world s) wk \<subseteq> owned (wld m) wk" for wk by (simp add: keeps_owner_def)
  have mine: "set (ids m) \<subseteq> owned (wld m) (?wk i)"
    using ids_m inv i keeps[of "?wk i"] by (auto simp: exclusive_def gained_def)
  have others: "set (ids m) \<inter> set (ids (?m j)) = {}" if j: "j < length sites" "j \<noteq> i" for j
  proof -
    have "k \<notin> set (ids m)" if k: "k \<in> set (ids (?m j))" for k
    proof
      assume "k \<in> set (ids m)"
      moreover have "k \<notin> set (ids (?m i))" using inv i j k by (fastforce simp: exclusive_def)
      ultimately have "gained (?wk i) (dep_world s) (wld m) k" using ids_m by blast
      moreover have "k \<in> owned (dep_world s) (?wk j)" using inv j k by (auto simp: exclusive_def)
      ultimately have "?wk j = ?wk i" using gained_elsewhere[OF key] by blast
      with names i j show False by (simp add: distinct_conv_nth)
    qed
    then show ?thesis by blast
  qed
  let ?ms = "(dep_machines s)[i := m]"
  have nth: "?ms ! j = (if j = i then m else ?m j)" if "j < length sites" for j using that len by (simp add: nth_list_update)
  have own: "set (ids (?m j)) \<subseteq> owned (wld m) (?wk j)" if "j < length sites" for j
    using inv that keeps[of "?wk j"] unfolding exclusive_def by blast
  have "\<forall>j < length sites. distinct (ids (?ms ! j)) \<and> set (ids (?ms ! j)) \<subseteq> owned (wld m) (?wk j) \<and>
      (fet (?ms ! j) = Starting \<longrightarrow> held (?ms ! j) = [])"
    using inv m mine own unfolding exclusive_def single_inv_def by (simp add: nth)
  moreover have "\<forall>j < length sites. \<forall>k < length sites. j \<noteq> k \<longrightarrow> set (ids (?ms ! j)) \<inter> set (ids (?ms ! k)) = {}"
    using inv others unfolding exclusive_def by (simp add: nth Int_commute)
  ultimately show ?thesis using m len unfolding exclusive_def by (simp add: single_inv_def)
qed

lemma deploy_reach_exclusive:
  assumes "deploy_reach x e b seals sites allowed w0 s"
    and names: "distinct (map (\<lambda>s. lw_worker_id (st_worker s)) sites)"
    and init: "keyed task_tab tk_id w0" and clients: "\<And>r. allowed r \<Longrightarrow> no_revival r"
  shows "exclusive sites s"
  using assms(1)
proof (induction rule: deploy_reach.induct)
  case (start ms)
  have "ids (ms ! i) = [] \<and> held (ms ! i) = []" if "i < length sites" for i
    using start that process_tasks_shape[of "st_worker (sites ! i)" w0 "ms ! i"]
    by (simp add: list_all2_conv_all_nth ids_def)
  with start init show ?case by (simp add: exclusive_def list_all2_lengthD)
next
  case (step s s')
  from step.hyps(2) show ?case
  proof cases
    case (work i m)
    with exclusive_work[OF step.IH work(2) names work(3)] show ?thesis by simp
  next
    case (restart i m)
    have m: "ids m = []" "held m = []" using process_tasks_shape[OF restart(3)] by (simp_all add: ids_def)
    have len: "length (dep_machines s) = length sites" using step.IH by (simp add: exclusive_def)
    then have nth: "(dep_machines s)[i := m] ! j = (if j = i then m else dep_machines s ! j)" if "j < length sites" for j
      using that by (simp add: nth_list_update)
    show ?thesis using step.IH m len unfolding exclusive_def restart(1) by (simp add: nth)
  next
    case (client r)
    have "keyed task_tab tk_id (exchange x e b r (dep_world s))"
      by (rule handout.inv_step) (use step.IH in \<open>simp add: exclusive_def\<close>)
    then show ?thesis unfolding client(1)
      by (rule exclusive_world[OF step.IH]) (rule calls_keep_owner(4)[OF clients[OF client(2)]])
  qed
qed

text \<open>C4. With workers of different ids on one server, whatever crashes, restarts and losses of messages
  happen and as long as no client resets a task to open or running, no worker has a task twice, no task is with two workers,
  and the row of a task that a worker has is no longer open and, while it is marked running, names this worker.\<close>

theorem deployment_exclusive:
  assumes "deploy_reach x e b seals sites allowed w0 s"
    and "distinct (map (\<lambda>s. lw_worker_id (st_worker s)) sites)"
    and "keyed task_tab tk_id w0" and "\<And>r. allowed r \<Longrightarrow> no_revival r"
  shows "(\<forall>i < length sites. distinct (map tk_id (held (dep_machines s ! i) @ waiting (dep_machines s ! i)))) \<and>
    (\<forall>i < length sites. \<forall>j < length sites. i \<noteq> j \<longrightarrow>
       set (map tk_id (held (dep_machines s ! i) @ waiting (dep_machines s ! i))) \<inter>
       set (map tk_id (held (dep_machines s ! j) @ waiting (dep_machines s ! j))) = {}) \<and>
    (\<forall>i < length sites. \<forall>t \<in> set (held (dep_machines s ! i) @ waiting (dep_machines s ! i)).
       \<exists>r \<in> set (task_tab (dep_world s)). tk_id r = tk_id t \<and> Init < tk_state r \<and>
         (tk_state r = Running \<longrightarrow> tk_worker_id r = lw_worker_id (st_worker (sites ! i))))"
proof -
  let ?h = "\<lambda>i. held (dep_machines s ! i) @ waiting (dep_machines s ! i)"
  have inv: "exclusive sites s" by (rule deploy_reach_exclusive[OF assms])
  then have own: "set (map tk_id (?h i)) \<subseteq> owned (dep_world s) (lw_worker_id (st_worker (sites ! i)))" if "i < length sites" for i
    using that unfolding exclusive_def ids_def by blast
  have "\<exists>r \<in> set (task_tab (dep_world s)). tk_id r = tk_id t \<and> Init < tk_state r \<and>
      (tk_state r = Running \<longrightarrow> tk_worker_id r = lw_worker_id (st_worker (sites ! i)))"
    if "i < length sites" "t \<in> set (?h i)" for i t
  proof -
    from that(2) have "tk_id t \<in> set (map tk_id (?h i))" unfolding set_map by (rule imageI)
    with own[OF that(1)] have "tk_id t \<in> owned (dep_world s) (lw_worker_id (st_worker (sites ! i)))" by (rule subsetD)
    then show ?thesis unfolding owned_def by (elim imageE CollectE) metis
  qed
  then have rows: "\<forall>i < length sites. \<forall>t \<in> set (?h i). \<exists>r \<in> set (task_tab (dep_world s)). tk_id r = tk_id t \<and>
      Init < tk_state r \<and> (tk_state r = Running \<longrightarrow> tk_worker_id r = lw_worker_id (st_worker (sites ! i)))"
    by blast
  have "\<forall>i < length sites. distinct (ids (dep_machines s ! i))" and
    "\<forall>i < length sites. \<forall>j < length sites. i \<noteq> j \<longrightarrow> set (ids (dep_machines s ! i)) \<inter> set (ids (dep_machines s ! j)) = {}"
    using inv by (simp_all add: exclusive_def)
  then show ?thesis unfolding ids_def using rows by (intro conjI)
qed

end
