(* ===== verification/End_To_End.thy ===== *)
theory End_To_End
  imports Deployment
begin

text \<open>
  The whole way of a proof: from a line of the sealing cluster on the input of the plugin, through the submission, the
  server and any of its workers, back to the output of the plugin.
\<close>

section \<open>From the request of the plugin to the proof\<close>

text \<open>C6. On a server that keeps parameters in its database, with workers that read them inside the server or from it
  over RPC and none from files, and whatever the steps, crashes and restarts of these workers, the requests of clients and the order
  of all of them: a completed task carries a proof that a run of the prover returned on exactly the parameters its id was derived from.
  It is assumed that the database holds nothing forged at the start, that clients submit and read and set states but neither record
  proofs that are not the task's nor set a task to completed, that the hashes of what is submitted do not collide, and that Base64
  decodes what it encodes.\<close>

theorem completed_tasks_authentic:
  assumes "deploy_reach x e DbResource seals sites allowed w0 s"
    and free: "collision_free x U" and b64: "\<And>d. b64_decode x (b64_encode x d) = Ok d"
    and readers: "\<forall>s \<in> set sites. st_reader s \<in> {InServer, Outside OverRpc}"
    and clients: "\<And>r. allowed r \<Longrightarrow> authentic_request x seals U r" and init: "authentic_world x seals U w0"
    and t: "t \<in> set (task_tab (dep_world s))" "tk_state t = Completed"
  shows "\<exists>a d. (a, d) \<in> U \<and> tk_id t = gen_task_id x a C2 d \<and> tk_resource_id t = gen_resource_id x d \<and>
    proof_of x seals d (tk_proof t)"
proof -
  have "authentic_world x seals U (dep_world s)"
    using deploy_reach_authentic[OF assms(1) free b64 readers clients init] by (simp add: deploy_authentic_def)
  with t(1) have "genuine x seals U t" by (simp add: authentic_world_def)
  moreover have "tk_type t = C2" by (cases "tk_type t") simp
  ultimately show ?thesis using t(2) unfolding genuine_def rooted_def by auto
qed

lemma proof_of_parameters:
  assumes free: "collision_free x U" and auth: "authentic_world x seals U w" and mine: "(a, d) \<in> U"
    and t: "t \<in> set (task_tab w)" "tk_state t = Completed" "tk_id t = gen_task_id x a C2 d"
  shows "proof_of x seals d (tk_proof t)"
proof -
  from auth t obtain a' d' where src: "(a', d') \<in> U" "tk_id t = gen_task_id x a' (tk_type t) d'" "proof_of x seals d' (tk_proof t)"
    by (auto simp: authentic_world_def genuine_def rooted_def)
  have "d' = d" using src(2) t(3) by (intro same_task[OF free src(1) mine, of "tk_type t" C2]) simp
  with src(3) show ?thesis by simp
qed

lemma run_requests_authentic:
  "collision_free x U \<Longrightarrow> \<forall>r \<in> set rs. authentic_request x seals U r \<Longrightarrow> authentic_world x seals U w \<Longrightarrow>
   authentic_world x seals U (run_requests x e DbResource rs w)"
  using run_requests_rel[OF au.world_rel_axioms serve_authentic, where x = x] by blast

lemma wc_authentic:
  assumes free: "collision_free x U" and auth: "authentic_world x seals U w"
  shows "authentic_world x seals U (snd (wc_get_task x e DbResource i w))"
    "s \<noteq> Completed \<Longrightarrow> authentic_world x seals U (snd (wc_update_status_by_id x e DbResource is s w))"
    "authentic_request x seals U (AddTask m c ty (base64byte_serialize x d)) \<Longrightarrow>
     authentic_world x seals U (snd (wc_add_task x e DbResource m c ty d w))"
proof -
  note call = preservesD[OF wc_evolves[OF au.world_rel_axioms serve_authentic[OF free]] auth]
  have str: "preserves (authentic_world x seals U) (expect_string r)" for r
    by (auto simp: evolves_def expect_string_def bad_reply_def ok_def lift_res_def split: response.split)
  show "authentic_world x seals U (snd (wc_get_task x e DbResource i w))"
    unfolding wc_get_task_def by (rule call[OF _ expect_evolves(1)[OF au.step_rel_axioms]]) simp
  show "authentic_world x seals U (snd (wc_update_status_by_id x e DbResource is s w))" if "s \<noteq> Completed"
    unfolding wc_update_status_by_id_def by (rule call[OF _ expect_evolves(3)[OF au.step_rel_axioms]]) (simp add: that)
  show "authentic_world x seals U (snd (wc_add_task x e DbResource m c ty d w))"
    if "authentic_request x seals U (AddTask m c ty (base64byte_serialize x d))"
    unfolding wc_add_task_def by (rule call[OF that str])
qed

lemma trace_authentic:
  assumes run: "trace_task_result p x e DbResource others sector i w = Some (r, n, w')"
    and free: "collision_free x U" and auth: "authentic_world x seals U w"
    and others: "\<And>n. \<forall>r \<in> set (others n). authentic_request x seals U r"
  shows "authentic_world x seals U w'"
proof -
  have step: "authentic_world x seals U (snd (snd (poll_task p x e DbResource others sector i s)))" if "authentic_world x seals U (snd s)" for s
    using wc_authentic(1)[OF free run_requests_authentic[OF free others that]]
    by (simp add: poll_task_def case_prod_beta)
  have step': "authentic_world x seals U (snd t)"
    if "authentic_world x seals U (snd s)" "poll_task p x e DbResource others sector i s = (q, t)" for s q t
    using step[OF that(1)] that(2) by simp
  have "authentic_world x seals U (snd (n, w'))"
    by (rule poll_loop_inv[where I = "\<lambda>s. authentic_world x seals U (snd s)" and Q = "\<lambda>r s. authentic_world x seals U (snd s)",
          OF run[unfolded trace_task_result_def]])
      (use auth step' in \<open>simp, blast, blast\<close>)
  then show ?thesis by simp
qed

lemma ensure_task_authentic:
  assumes free: "collision_free x U" and auth: "authentic_world x seals U w" and b64: "\<And>d. b64_decode x (b64_encode x d) = Ok d"
    and a: "addr_from_str x (addr_to_string x (addr_new_id p (in_miner_id input))) = Ok (addr_new_id p (in_miner_id input))"
    and mine: "(addr_new_id p (in_miner_id input), d) \<in> U"
  shows "authentic_world x seals U (snd (ensure_task p x e DbResource input d w))"
proof -
  have req: "authentic_request x seals U (AddTask (addr_to_string x (addr_new_id p (in_miner_id input))) c C2 (base64byte_serialize x d))" for c
    using a mine b64 by (auto simp: b64_param_def base64byte_deserialize_def base64byte_serialize_def)
  let ?i = "gen_task_id x (addr_new_id p (in_miner_id input)) C2 d"
  have got: "authentic_world x seals U (snd (wc_get_task x e DbResource ?i w))" by (rule wc_authentic(1)[OF free auth])
  show ?thesis
    using got wc_authentic(2)[OF free got, of Init e "[?i]"] wc_authentic(3)[OF free got req]
    by (auto simp: ensure_task_def Let_def ok_def split: prod.splits result.splits)
qed

text \<open>The output the plugin answers a request with is the result of the prover on the parameters of this
  request, when it talks to a server on which nobody forges results: it submits or finds the task, others' requests are served
  in between, and what it finally reads cannot be the proof of anything else.\<close>

theorem plugin_end_to_end:
  assumes free: "collision_free x U" and b64: "\<And>d. b64_decode x (b64_encode x d) = Ok d"
    and init: "authentic_world x seals U w" and others: "\<And>n. \<forall>r \<in> set (others n). authentic_request x seals U r"
    and line: "handle_line p x e DbResource pf cfg others line w = Some resp" "rs_output resp = Some pr"
    and req: "request_from_str p line = Ok req" "input_to_vec p (rq_task req) = Ok d"
    and mine: "(addr_new_id p (in_miner_id (rq_task req)), d) \<in> U"
    and addr: "addr_from_str x (addr_to_string x (addr_new_id p (in_miner_id (rq_task req)))) = Ok (addr_new_id p (in_miner_id (rq_task req)))"
  shows "proof_of x seals d pr"
proof -
  let ?a = "addr_new_id p (in_miner_id (rq_task req))"
  from handle_line_output[OF line(1)] line(2) req obtain w' t where
    t: "t \<in> set (task_tab w')" "tk_state t = Completed" "tk_proof t = pr" "tk_id t = gen_task_id x ?a C2 d"
    and run: "process_request p x e DbResource pf cfg others (rq_task req) w = Some (Ok pr, w')"
    by auto
  from run obtain i w1 n where f: "find_or_submit p x e DbResource pf cfg (rq_task req) w = (Ok i, w1)"
    and tr: "trace_task_result p x e DbResource others (in_sector_id (rq_task req)) i w1 = Some (Ok pr, n, w')"
    by (auto simp: process_request_def split: prod.splits result.splits)
  have "ensure_task p x e DbResource (rq_task req) d w = (Ok i, w1)"
    using f req(2) by (auto simp: find_or_submit_def and_then_Ok_iff map_err_Ok_iff lift_res_Ok_iff)
  with ensure_task_authentic[OF free init b64 addr mine, of e] have "authentic_world x seals U w1" by simp
  with trace_authentic[OF tr free _ others] have "authentic_world x seals U w'" by blast
  from proof_of_parameters[OF free this mine t(1,2,4)] t(3) show ?thesis by simp
qed


section \<open>A run of a deployment\<close>

definition demo_pairs :: "(string \<times> bytes) set" where
  "demo_pairs = {(''f09'', [1])}"

lemma demo_collision_free: "collision_free demo_ext demo_pairs"
proof -
  have "uuid_v5 demo_ext [1] \<noteq> uuid_v5 demo_ext (task_id_buf demo_ext ''f09'' C2 [1])" by code_simp
  moreover have "length (uuid_v5 demo_ext [1]) = 36" by code_simp
  moreover have "range (\<lambda>ty. task_id_buf demo_ext ''f09'' ty [1]) = {task_id_buf demo_ext ''f09'' C2 [1]}"
  proof -
    have "(UNIV :: task_type set) = {C2}" by (auto intro: task_type.exhaust)
    show ?thesis unfolding \<open>UNIV = {C2}\<close> by simp
  qed
  ultimately show ?thesis by (auto simp: collision_free_def hashed_def demo_pairs_def)
qed

lemma demo_rooted: "rooted demo_ext demo_pairs t [1] \<longleftrightarrow>
    tk_id t = demo_tid \<and> tk_resource_id t = gen_resource_id demo_ext [1]"
  by (cases "tk_type t") (auto simp: rooted_def demo_pairs_def demo_tid_def)

lemma demo_authentic: "authentic_world demo_ext demo_seals demo_pairs done_world"
proof -
  have "proof_of demo_ext demo_seals [1] [99, 1]" unfolding proof_of_single by code_simp
  then have "genuine demo_ext demo_seals demo_pairs done_task"
    unfolding genuine_def by (intro exI[of _ "[1]"]) (simp add: demo_rooted done_task_def mk_task_def)
  then show ?thesis by (simp add: authentic_world_def done_world_def empty_world_def)
qed

theorem plugin_end_to_end_witness:
  "\<exists>resp. handle_line demo_plugin demo_ext quiet DbResource demo_platform demo_cfg no_others ''job'' done_world = Some resp \<and>
     rs_output resp = Some [99, 1] \<and> proof_of demo_ext demo_seals [1] [99, 1]"
proof -
  have a: "addr_new_id demo_plugin 9 = ''f09''" by code_simp
  have "proof_of demo_ext demo_seals [1] [99, 1]"
  proof (rule plugin_end_to_end[OF demo_collision_free demo_b64 demo_authentic _ done_line])
    show "\<forall>r \<in> set (no_others n). authentic_request demo_ext demo_seals demo_pairs r" for n by (simp add: no_others_def)
    show "rs_output (write_value 7 [99, 1]) = Some [99, 1]" by (simp add: write_value_def)
    show "request_from_str demo_plugin ''job'' = Ok \<lparr>rq_id = 7, rq_task = demo_input\<rparr>"
      by (simp add: demo_plugin_def demo_input_def)
    show "input_to_vec demo_plugin (rq_task \<lparr>rq_id = 7, rq_task = demo_input\<rparr>) = Ok [1]"
      by (simp add: demo_plugin_def demo_input_def)
  qed (simp_all add: demo_input_def a demo_pairs_def, simp add: demo_ext_def)
  with done_line show ?thesis by (simp add: write_value_def)
qed

definition demo_site :: site where
  "demo_site = \<lparr>st_worker = demo_worker, st_retries = 5, st_reader = InServer\<rparr>"

definition running_task :: task where
  "running_task = mk_task demo_tid (gen_resource_id demo_ext [1]) Running ''w1'' 1"

definition running_world :: world where
  "running_world = empty_world\<lparr>task_tab := [running_task],
     res_tab := [\<lparr>ri_id = gen_resource_id demo_ext [1], ri_data = [1], ri_create_at = 1\<rparr>]\<rparr>"

definition demo_client :: "request \<Rightarrow> bool" where
  "demo_client r \<longleftrightarrow> authentic_request demo_ext demo_seals demo_pairs r \<and> no_revival r"

abbreviation demo_deploy :: "deployment \<Rightarrow> bool" where
  "demo_deploy \<equiv> deploy_reach demo_ext quiet DbResource demo_seals [demo_site] demo_client running_world"

lemma demo_read: "site_read demo_ext quiet DbResource demo_site = get_resource_info DbResource quiet"
  by (simp add: fun_eq_iff site_read_def demo_site_def)

lemma demo_work:
  assumes "demo_deploy \<lparr>dep_world = w, dep_machines = [m]\<rparr>" "wld m = w"
    and "worker_step demo_ext quiet DbResource (get_resource_info DbResource quiet) demo_seals 5 demo_worker (\<lambda>_. False) m m'"
  shows "demo_deploy \<lparr>dep_world = wld m', dep_machines = [m']\<rparr>"
proof (rule deploy_reach.step[OF assms(1)])
  have "m\<lparr>wld := w\<rparr> = m" using assms(2) by simp
  then show "deploy_step demo_ext quiet DbResource demo_seals [demo_site] demo_client
      \<lparr>dep_world = w, dep_machines = [m]\<rparr> \<lparr>dep_world = wld m', dep_machines = [m']\<rparr>"
    using deploy_step.work[of 0 "[demo_site]" demo_ext quiet DbResource demo_seals "\<lparr>dep_world = w, dep_machines = [m]\<rparr>" m' demo_client] assms(3)
    by (simp add: demo_read) (simp add: demo_site_def)
qed

lemma demo_deploy_run:
  "\<exists>w m. demo_deploy \<lparr>dep_world = w, dep_machines = [m]\<rparr> \<and> held m @ waiting m = [running_task]"
  "\<exists>w m t. demo_deploy \<lparr>dep_world = w, dep_machines = [m]\<rparr> \<and> task_tab w = [t] \<and> tk_state t = Completed \<and>
     tk_id t = demo_tid \<and> tk_proof t = [99, 1]"
proof -
  let ?t = running_task
  let ?boot = "wc_fetch_uncompleted demo_ext quiet DbResource ''w1'' running_world"
  let ?read = "get_resource_info DbResource quiet (tk_resource_id ?t) (snd ?boot)"
  let ?rep = "report_result demo_ext quiet DbResource demo_worker ?t (execute_task demo_ext demo_seal ?t [1]) (snd ?read)"
  have boot: "?boot = (Ok [?t], snd ?boot)"
  proof -
    have "fst ?boot = Ok [?t]" by code_simp
    then show ?thesis by (metis prod.collapse)
  qed
  have read: "?read = (Ok [1], snd ?read)"
  proof -
    have "fst ?read = Ok [1]" by code_simp
    then show ?thesis by (metis prod.collapse)
  qed
  let ?m0 = "\<lparr>wld = running_world, count = 0, chan = [], fet = Starting, exe = Selecting, jobs = [], outs = []\<rparr> :: machine"
  let ?m1 = "?m0\<lparr>wld := snd ?boot, fet := Waiting [?t]\<rparr>"
  let ?m2 = "?m1\<lparr>fet := Sending (butlast [?t]) (last [?t])\<rparr>"
  let ?m3 = "?m2\<lparr>chan := chan ?m2 @ [?t], fet := Counting []\<rparr>"
  let ?m4 = "?m3\<lparr>chan := [], exe := Preparing ?t 1\<rparr>"
  let ?m5 = "?m4\<lparr>wld := snd ?read, exe := Selecting, jobs := (?t, [1]) # jobs ?m4\<rparr>"
  let ?m6 = "?m5\<lparr>jobs := remove1 (?t, [1]) (jobs ?m5), outs := outs ?m5 @ [(?t, execute_task demo_ext demo_seal ?t [1])]\<rparr>"
  let ?m7 = "?m6\<lparr>wld := snd ?rep, outs := [], count := count ?m6 - 1\<rparr>"
  have "demo_deploy \<lparr>dep_world = running_world, dep_machines = [?m0]\<rparr>"
    by (rule deploy_reach.start) (simp add: process_tasks_def demo_site_def demo_worker_def)
  then have "demo_deploy \<lparr>dep_world = wld ?m1, dep_machines = [?m1]\<rparr>"
    by (rule demo_work) (simp, (rule worker_step.resume; simp add: demo_worker_def; rule boot))
  then have "demo_deploy \<lparr>dep_world = wld ?m2, dep_machines = [?m2]\<rparr>"
    by (rule demo_work) (simp, (rule worker_step.pop[where ts = "[?t]"]; simp add: demo_worker_def))
  then have r3: "demo_deploy \<lparr>dep_world = wld ?m3, dep_machines = [?m3]\<rparr>"
    by (rule demo_work) (simp, (rule worker_step.send; simp add: demo_worker_def))
  then have "demo_deploy \<lparr>dep_world = wld ?m4, dep_machines = [?m4]\<rparr>"
    by (rule demo_work) (simp, (rule worker_step.recv; simp))
  then have "demo_deploy \<lparr>dep_world = wld ?m5, dep_machines = [?m5]\<rparr>"
  proof (rule demo_work)
    have "get_resource_info DbResource quiet (tk_resource_id ?t) (wld ?m4) = (Ok [1], snd ?read)"
      using read by simp
    then show "worker_step demo_ext quiet DbResource (get_resource_info DbResource quiet) demo_seals 5
        demo_worker (\<lambda>_. False) ?m4 ?m5"
      by (rule worker_step.prepared[rotated]) (simp_all add: after_attempt_def)
  qed simp
  then have "demo_deploy \<lparr>dep_world = wld ?m6, dep_machines = [?m6]\<rparr>"
    by (rule demo_work) (simp, rule worker_step.finish, simp, simp)
  then have r7: "demo_deploy \<lparr>dep_world = wld ?m7, dep_machines = [?m7]\<rparr>"
  proof (rule demo_work)
    have "outs ?m6 = (?t, execute_task demo_ext demo_seal ?t [1]) # []" "exe ?m6 = Selecting" "wld ?m6 = snd ?read" by simp_all
    then show "worker_step demo_ext quiet DbResource (get_resource_info DbResource quiet) demo_seals 5
        demo_worker (\<lambda>_. False) ?m6 ?m7"
      using worker_step.report[of ?m6 ?t "execute_task demo_ext demo_seal ?t [1]" "[]"] by simp
  qed simp
  show "\<exists>w m. demo_deploy \<lparr>dep_world = w, dep_machines = [m]\<rparr> \<and> held m @ waiting m = [running_task]"
    using r3 by (intro exI[of _ "wld ?m3"] exI[of _ ?m3] conjI) (simp_all add: held_def waiting_def)
  have "map (\<lambda>t. (tk_state t, tk_id t, tk_proof t)) (task_tab (snd ?rep)) = [(Completed, demo_tid, [99, 1])]" by code_simp
  then obtain t where "task_tab (snd ?rep) = [t]" "tk_state t = Completed" "tk_id t = demo_tid" "tk_proof t = [99, 1]" by auto
  with r7 show "\<exists>w m t. demo_deploy \<lparr>dep_world = w, dep_machines = [m]\<rparr> \<and> task_tab w = [t] \<and> tk_state t = Completed \<and>
     tk_id t = demo_tid \<and> tk_proof t = [99, 1]"
    by (intro exI[of _ "wld ?m7"] exI[of _ ?m7] exI[of _ t]) simp
qed

theorem completed_tasks_authentic_witness:
  "\<exists>w m t. demo_deploy \<lparr>dep_world = w, dep_machines = [m]\<rparr> \<and> t \<in> set (task_tab w) \<and> tk_state t = Completed \<and>
     tk_proof t = [99, 1] \<and> proof_of demo_ext demo_seals [1] (tk_proof t)"
proof -
  obtain w m t where run: "demo_deploy \<lparr>dep_world = w, dep_machines = [m]\<rparr>" "task_tab w = [t]" "tk_state t = Completed"
    "tk_proof t = [99, 1]" using demo_deploy_run(2) by blast
  have init: "authentic_world demo_ext demo_seals demo_pairs running_world"
  proof -
    have "rooted demo_ext demo_pairs running_task [1]" by (simp add: demo_rooted running_task_def mk_task_def)
    then have "genuine demo_ext demo_seals demo_pairs running_task"
      unfolding genuine_def by (intro exI[of _ "[1]"]) (simp add: running_task_def mk_task_def)
    then show ?thesis by (simp add: authentic_world_def running_world_def demo_pairs_def)
  qed
  have "\<exists>a d. (a, d) \<in> demo_pairs \<and> tk_id t = gen_task_id demo_ext a C2 d \<and>
      tk_resource_id t = gen_resource_id demo_ext d \<and> proof_of demo_ext demo_seals d (tk_proof t)"
    by (rule completed_tasks_authentic[OF run(1) demo_collision_free demo_b64 _ _ init])
      (simp_all add: run demo_site_def demo_client_def)
  with run show ?thesis by (auto simp: demo_pairs_def)
qed

theorem deployment_exclusive_witness:
  "\<exists>w m. demo_deploy \<lparr>dep_world = w, dep_machines = [m]\<rparr> \<and> held m @ waiting m = [running_task] \<and>
     distinct (map tk_id (held m @ waiting m))"
proof -
  obtain w m where run: "demo_deploy \<lparr>dep_world = w, dep_machines = [m]\<rparr>" "held m @ waiting m = [running_task]"
    using demo_deploy_run(1) by blast
  have key: "keyed task_tab tk_id running_world" by (simp add: keyed_def running_world_def)
  have names: "distinct (map (\<lambda>s. lw_worker_id (st_worker s)) [demo_site])" by simp
  have safe: "no_revival r" if "demo_client r" for r using that by (simp add: demo_client_def)
  from deployment_exclusive[OF run(1) names key safe] have "distinct (map tk_id (held m @ waiting m))"
    by (simp del: distinct_append map_append)
  with run show ?thesis by blast
qed

end
