(* ===== verification/Plugin_System.thy ===== *)
theory Plugin_System
  imports End_To_End
begin

text \<open>
  The plugin as it runs beside everything else: every line on its input becomes a job of its own, the jobs make their
  calls one at a time, and between any two calls the server, its workers, other clients and other jobs go on. The steps of
  one job, left alone, are the sequential \<open>process_request\<close> of \<open>C2_Plugin\<close> (lemma \<open>undisturbed_job\<close>).
\<close>

section \<open>One request of the plugin, call by call\<close>

text \<open>Where a job is, with the parameters it carries.\<close>

datatype phase =
    Looking
  | Resetting bytes
  | Submitting bytes
  | Polling bytes
  | Decided "(bytes, string) result"
  | Answered

record 'c1 job =
  jb_request :: "'c1 plugin_request"
  jb_phase :: phase

definition job_task_id :: "('addr, 'c1) plugin_ext \<Rightarrow> ('addr, 'c1) ext \<Rightarrow> 'c1 plugin_request \<Rightarrow> bytes \<Rightarrow> string" where
  "job_task_id p x req d = gen_task_id x (addr_new_id p (in_miner_id (rq_task req))) C2 d"

definition after_look :: "bytes \<Rightarrow> (task, string) result \<Rightarrow> phase" where
  "after_look d r = (case r of
     Ok task \<Rightarrow> if tk_state task = Error then Resetting d else Polling d
   | Err m \<Rightarrow> if str_contains m ''not found'' then Submitting d else Decided (Err m)
   | Panic m \<Rightarrow> Decided (Panic m))"

definition after_reset :: "bytes \<Rightarrow> (unit, string) result \<Rightarrow> phase" where
  "after_reset d r = (case r of Ok _ \<Rightarrow> Polling d | Err m \<Rightarrow> Decided (Err m) | Panic m \<Rightarrow> Decided (Panic m))"

definition after_submit :: "bytes \<Rightarrow> (string, string) result \<Rightarrow> phase" where
  "after_submit d r = (case r of Ok _ \<Rightarrow> Polling d | Err m \<Rightarrow> Decided (Err ''add task'') | Panic m \<Rightarrow> Decided (Panic m))"

definition job_comment :: "('addr, 'c1) plugin_ext \<Rightarrow> 'c1 c2_input \<Rightarrow> string" where
  "job_comment p input = sector_text p (in_sector_id input) @ '' MinerId('' @ show_nat (unat (in_miner_id input)) @ '')''"

text \<open>One call of \<open>process_request\<close> and what follows it up to the next call. Building the client makes no call.\<close>

definition job_step ::
  "('addr, 'c1) plugin_ext \<Rightarrow> ('addr, 'c1) ext \<Rightarrow> env \<Rightarrow> backend \<Rightarrow> platform \<Rightarrow> c2_plugin_cfg \<Rightarrow> 'c1 plugin_request \<Rightarrow>
   phase \<times> world \<Rightarrow> phase \<times> world" where
  "job_step p x e b pf cfg req s = (case s of (ph, w) \<Rightarrow> let input = rq_task req; tid = job_task_id p x req in
     case ph of
       Looking \<Rightarrow>
         (case input_to_vec p input of
            Ok d \<Rightarrow>
              (case get_proxy_api pf (cfg_url cfg) of
                 Ok _ \<Rightarrow> (case wc_get_task x e b (tid d) w of (r, w') \<Rightarrow> (after_look d r, w'))
               | Err _ \<Rightarrow> (Decided (Err ''connect gpu proxy url''), w)
               | Panic m \<Rightarrow> (Decided (Panic m), w))
          | Err _ \<Rightarrow> (Decided (Err ''unmarshal c2 input''), w)
          | Panic m \<Rightarrow> (Decided (Panic m), w))
     | Resetting d \<Rightarrow> (case wc_update_status_by_id x e b [tid d] Init w of (r, w') \<Rightarrow> (after_reset d r, w'))
     | Submitting d \<Rightarrow>
         (case wc_add_task x e b (addr_to_string x (addr_new_id p (in_miner_id input))) (job_comment p input) C2 d w of
            (r, w') \<Rightarrow> (after_submit d r, w'))
     | Polling d \<Rightarrow>
         (case wc_get_task x e b (tid d) w of
            (r, w') \<Rightarrow> (case after_poll p (in_sector_id input) (tid d) r of
               Some res \<Rightarrow> (Decided res, w') | None \<Rightarrow> (Polling d, w')))
     | _ \<Rightarrow> (ph, w))"

text \<open>Left alone, the steps are \<open>process_request\<close>.\<close>

lemma poll_steps:
  assumes "trace_task_result p x e b (\<lambda>_. []) (in_sector_id (rq_task req)) (job_task_id p x req d) w = Some (r, n, w')"
  shows "\<exists>k. (job_step p x e b pf cfg req ^^ k) (Polling d, w) = (Decided r, w')"
proof -
  let ?step = "poll_task p x e b (\<lambda>_. []) (in_sector_id (rq_task req)) (job_task_id p x req d)"
  let ?J = "job_step p x e b pf cfg req"
  have one: "?J (Polling d, snd s) = (case fst (?step s) of Some q \<Rightarrow> Decided q | None \<Rightarrow> Polling d, snd (snd (?step s)))" for s
    by (cases s) (simp add: job_step_def poll_task_def split: prod.split option.split)
  have "\<exists>k. (?J ^^ k) (Polling d, w) = (Decided r, snd (n, w'))"
  proof (rule poll_loop_inv[where I = "\<lambda>s. \<exists>k. (?J ^^ k) (Polling d, w) = (Polling d, snd s)", OF assms[unfolded trace_task_result_def]])
    show "\<exists>k. (?J ^^ k) (Polling d, w) = (Polling d, snd (0::nat, w))" by (intro exI[of _ 0]) simp
  next
    fix s t assume "\<exists>k. (?J ^^ k) (Polling d, w) = (Polling d, snd s)" "?step s = (None, t)"
    then obtain k where "(?J ^^ k) (Polling d, w) = (Polling d, snd s)" "?step s = (None, t)" by blast
    then show "\<exists>k. (?J ^^ k) (Polling d, w) = (Polling d, snd t)" by (intro exI[of _ "Suc k"]) (simp add: one)
  next
    fix s q t assume "\<exists>k. (?J ^^ k) (Polling d, w) = (Polling d, snd s)" "?step s = (Some q, t)"
    then obtain k where "(?J ^^ k) (Polling d, w) = (Polling d, snd s)" "?step s = (Some q, t)" by blast
    then show "\<exists>k. (?J ^^ k) (Polling d, w) = (Decided q, snd t)" by (intro exI[of _ "Suc k"]) (simp add: one)
  qed
  then show ?thesis by simp
qed

lemma job_once: "job_step p x e b pf cfg req s = t \<Longrightarrow> \<exists>k. (job_step p x e b pf cfg req ^^ k) s = t"
  by (intro exI[of _ 1]) simp

lemma job_twice: "job_step p x e b pf cfg req s = u \<Longrightarrow> job_step p x e b pf cfg req u = t \<Longrightarrow> \<exists>k. (job_step p x e b pf cfg req ^^ k) s = t"
  by (intro exI[of _ 2]) (simp add: numeral_2_eq_2)

lemma ensure_steps:
  assumes "input_to_vec p (rq_task req) = Ok d" "get_proxy_api pf (cfg_url cfg) = Ok u"
    and run: "ensure_task p x e b (rq_task req) d w = (r, w')"
  shows "\<exists>k. (job_step p x e b pf cfg req ^^ k) (Looking, w) =
    (case r of Ok _ \<Rightarrow> Polling d | Err m \<Rightarrow> Decided (Err m) | Panic m \<Rightarrow> Decided (Panic m), w')"
proof -
  let ?J = "job_step p x e b pf cfg req"
  obtain q w1 where got: "wc_get_task x e b (job_task_id p x req d) w = (q, w1)" by fastforce
  then have look: "?J (Looking, w) = (after_look d q, w1)" using assms(1,2) by (simp add: job_step_def)
  show ?thesis
  proof (cases "\<exists>t. q = Ok t \<and> tk_state t = Error")
    case True
    obtain u w2 where upd: "wc_update_status_by_id x e b [job_task_id p x req d] Init w1 = (u, w2)" by fastforce
    have "?J (Looking, w) = (Resetting d, w1)" using True look by (auto simp: after_look_def)
    moreover have "?J (Resetting d, w1) = (after_reset d u, w2)" using upd by (simp add: job_step_def)
    moreover have "r = res_map_ok (\<lambda>_. job_task_id p x req d) u \<and> w' = w2"
      using run got True upd by (auto simp: ensure_task_def Let_def job_task_id_def map_ok_def)
    ultimately show ?thesis by (cases u) (auto simp: after_reset_def intro: job_twice)
  next
    case other: False
    show ?thesis
    proof (cases "\<exists>m. q = Err m \<and> str_contains m ''not found''")
      case True
      obtain u w2 where add: "wc_add_task x e b (addr_to_string x (addr_new_id p (in_miner_id (rq_task req)))) (job_comment p (rq_task req)) C2 d w1 = (u, w2)"
        by fastforce
      have "?J (Looking, w) = (Submitting d, w1)" using True look by (auto simp: after_look_def)
      moreover have "?J (Submitting d, w1) = (after_submit d u, w2)" using add by (simp add: job_step_def Let_def)
      moreover have "r = res_map_ok (\<lambda>_. job_task_id p x req d) (res_map_err (\<lambda>_. ''add task'') u) \<and> w' = w2"
        using run got True add by (auto simp: ensure_task_def Let_def job_task_id_def job_comment_def map_ok_def map_err_def)
      ultimately show ?thesis by (cases u) (auto simp: after_submit_def intro: job_twice)
    next
      case False
      have "w' = w1 \<and> after_look d q = (case r of Ok _ \<Rightarrow> Polling d | Err m \<Rightarrow> Decided (Err m) | Panic m \<Rightarrow> Decided (Panic m))"
        using run got other False
        by (cases q) (auto simp: ensure_task_def Let_def job_task_id_def after_look_def ok_def)
      with look show ?thesis by (intro job_once) simp
    qed
  qed
qed

text \<open>So a job that nobody disturbs ends as the sequential model of the request does.\<close>

lemma undisturbed_job:
  assumes "process_request p x e b pf cfg (\<lambda>_. []) (rq_task req) w = Some (r, w')"
  shows "\<exists>k. (job_step p x e b pf cfg req ^^ k) (Looking, w) = (Decided r, w')"
proof -
  let ?J = "job_step p x e b pf cfg req"
  show ?thesis
  proof (cases "input_to_vec p (rq_task req)")
    case vec: (Ok d)
    show ?thesis
    proof (cases "get_proxy_api pf (cfg_url cfg)")
      case api: (Ok u)
      obtain q w1 where run: "ensure_task p x e b (rq_task req) d w = (q, w1)" by fastforce
      then have f: "find_or_submit p x e b pf cfg (rq_task req) w = (q, w1)"
        by (simp add: find_or_submit_def and_then_def map_err_def lift_res_def vec api)
      note steps = ensure_steps[OF vec api run]
      show ?thesis
      proof (cases q)
        case (Ok i)
        have i: "i = job_task_id p x req d" using ensure_task_Ok[OF run[unfolded Ok]] by (simp add: job_task_id_def)
        from assms f Ok obtain n where
          tr: "trace_task_result p x e b (\<lambda>_. []) (in_sector_id (rq_task req)) (job_task_id p x req d) w1 = Some (r, n, w')"
          by (auto simp: process_request_def i)
        obtain k j where "(?J ^^ k) (Looking, w) = (Polling d, w1)" "(?J ^^ j) (Polling d, w1) = (Decided r, w')"
          using steps poll_steps[OF tr, of pf cfg] Ok by auto
        then have "(?J ^^ (j + k)) (Looking, w) = (Decided r, w')" by (simp add: funpow_add)
        then show ?thesis by blast
      qed (use steps assms f in \<open>auto simp: process_request_def\<close>)
    qed (use assms vec in \<open>auto simp: process_request_def find_or_submit_def and_then_def map_err_def lift_res_def job_step_def intro!: job_once\<close>)
  next
    case (Err m)
    with assms show ?thesis
      by (intro job_once) (auto simp: process_request_def find_or_submit_def and_then_def map_err_def lift_res_def job_step_def)
  next
    case (Panic m)
    with assms have "r = Panic m" "w' = w"
      by (simp_all add: process_request_def find_or_submit_def and_then_def map_err_def lift_res_def)
    with Panic show ?thesis by (intro job_once) (simp add: job_step_def)
  qed
qed

section \<open>The whole system\<close>

record 'c1 system =
  sy_dep :: deployment
  sy_jobs :: "'c1 job list"
  sy_out :: "plugin_response list"

text \<open>\<open>lines\<close> are the lines the cluster may send. An answer may fail to be written, then it is lost.\<close>

inductive sys_step ::
  "('addr, 'c1) plugin_ext \<Rightarrow> ('addr, 'c1) ext \<Rightarrow> env \<Rightarrow> backend \<Rightarrow> platform \<Rightarrow> c2_plugin_cfg \<Rightarrow> 'c1 prover set \<Rightarrow> site list \<Rightarrow>
   (request \<Rightarrow> bool) \<Rightarrow> (string \<Rightarrow> bool) \<Rightarrow> 'c1 system \<Rightarrow> 'c1 system \<Rightarrow> bool"
  for p x e b pf cfg seals sites allowed lines where
  server: "deploy_step x e b seals sites allowed (sy_dep s) d \<Longrightarrow>
     sys_step p x e b pf cfg seals sites allowed lines s (s\<lparr>sy_dep := d\<rparr>)"
| read: "lines line \<Longrightarrow> request_from_str p line = Ok req \<Longrightarrow>
     sys_step p x e b pf cfg seals sites allowed lines s (s\<lparr>sy_jobs := sy_jobs s @ [\<lparr>jb_request = req, jb_phase = Looking\<rparr>]\<rparr>)"
| call: "i < length (sy_jobs s) \<Longrightarrow> sy_jobs s ! i = j \<Longrightarrow>
     job_step p x e b pf cfg (jb_request j) (jb_phase j, dep_world (sy_dep s)) = (ph, w) \<Longrightarrow>
     sys_step p x e b pf cfg seals sites allowed lines s
       (s\<lparr>sy_jobs := (sy_jobs s)[i := j\<lparr>jb_phase := ph\<rparr>], sy_dep := (sy_dep s)\<lparr>dep_world := w\<rparr>\<rparr>)"
| answer: "i < length (sy_jobs s) \<Longrightarrow> sy_jobs s ! i = j \<Longrightarrow>
     (jb_phase j = Decided (Ok v) \<and> resp = write_value (rq_id (jb_request j)) v \<or>
      jb_phase j = Decided (Err m) \<and> resp = write_err (rq_id (jb_request j)) m) \<Longrightarrow>
     sys_step p x e b pf cfg seals sites allowed lines s
       (s\<lparr>sy_jobs := (sy_jobs s)[i := j\<lparr>jb_phase := Answered\<rparr>], sy_out := sy_out s @ (if written then [resp] else [])\<rparr>)"

inductive sys_reach ::
  "('addr, 'c1) plugin_ext \<Rightarrow> ('addr, 'c1) ext \<Rightarrow> env \<Rightarrow> backend \<Rightarrow> platform \<Rightarrow> c2_plugin_cfg \<Rightarrow> 'c1 prover set \<Rightarrow> site list \<Rightarrow>
   (request \<Rightarrow> bool) \<Rightarrow> (string \<Rightarrow> bool) \<Rightarrow> world \<Rightarrow> 'c1 system \<Rightarrow> bool"
  for p x e b pf cfg seals sites allowed lines w0 where
  begun: "list_all2 (\<lambda>s m. process_tasks (st_worker s) w0 = Ok m) sites ms \<Longrightarrow>
     sys_reach p x e b pf cfg seals sites allowed lines w0 \<lparr>sy_dep = \<lparr>dep_world = w0, dep_machines = ms\<rparr>, sy_jobs = [], sy_out = []\<rparr>"
| further: "sys_reach p x e b pf cfg seals sites allowed lines w0 s \<Longrightarrow>
     sys_step p x e b pf cfg seals sites allowed lines s s' \<Longrightarrow>
     sys_reach p x e b pf cfg seals sites allowed lines w0 s'"

text \<open>The requests the plugin makes for one line.\<close>

definition plugin_asks ::
  "('addr, 'c1) plugin_ext \<Rightarrow> ('addr, 'c1) ext \<Rightarrow> 'c1 plugin_request \<Rightarrow> bytes \<Rightarrow> request set" where
  "plugin_asks p x req d = {GetTask (job_task_id p x req d), UpdateStatusById [job_task_id p x req d] Init,
     AddTask (addr_to_string x (addr_new_id p (in_miner_id (rq_task req)))) (job_comment p (rq_task req)) C2 (base64byte_serialize x d)}"

definition asked :: "('addr, 'c1) plugin_ext \<Rightarrow> ('addr, 'c1) ext \<Rightarrow> (string \<Rightarrow> bool) \<Rightarrow> request \<Rightarrow> bool" where
  "asked p x lines r \<longleftrightarrow> (\<exists>line req d. lines line \<and> request_from_str p line = Ok req \<and> input_to_vec p (rq_task req) = Ok d \<and>
     r \<in> plugin_asks p x req d)"

lemma snd_and_then: "(\<And>a w. snd (f a w) = w) \<Longrightarrow> snd (and_then m f w) = snd (m w)"
  by (simp add: and_then_def split: prod.split result.split)

lemma expect_snd: "snd (expect_task a w) = w" "snd (expect_unit a w) = w" "snd (expect_string a w) = w"
  by (cases a; simp add: expect_task_def expect_unit_def expect_string_def bad_reply_def ok_def lift_res_def)+

lemma call_world:
  "snd (wc_get_task x e b i w) = exchange x e b (GetTask i) w"
  "snd (wc_update_status_by_id x e b tids st w) = exchange x e b (UpdateStatusById tids st) w"
  "snd (wc_add_task x e b m c ty d w) = exchange x e b (AddTask m c ty (base64byte_serialize x d)) w"
  unfolding exchange_def wc_get_task_def wc_update_status_by_id_def wc_add_task_def
  by (rule snd_and_then, rule expect_snd)+

text \<open>The parameters a job carries are those of its request, and a decided proof is the one the job has read.\<close>

fun phase_params :: "phase \<Rightarrow> bytes option" where
  "phase_params (Resetting d) = Some d"
| "phase_params (Submitting d) = Some d"
| "phase_params (Polling d) = Some d"
| "phase_params _ = None"

lemma call_runs:
  "wc_get_task x e b i w = (r1, w') \<Longrightarrow> w' = exchange x e b (GetTask i) w"
  "wc_update_status_by_id x e b tids st w = (r2, w') \<Longrightarrow> w' = exchange x e b (UpdateStatusById tids st) w"
  "wc_add_task x e b m c ty d w = (r3, w') \<Longrightarrow> w' = exchange x e b (AddTask m c ty (base64byte_serialize x d)) w"
  unfolding call_world[symmetric] by simp_all

lemma job_step_world:
  assumes run: "job_step p x e b pf cfg req (ph, w) = (ph', w')"
    and params: "\<And>d. phase_params ph = Some d \<Longrightarrow> input_to_vec p (rq_task req) = Ok d"
  shows "w' = w \<or> (\<exists>d. input_to_vec p (rq_task req) = Ok d \<and> (\<exists>r \<in> plugin_asks p x req d. w' = exchange x e b r w))"
proof (cases ph)
  case Looking
  with run have "w' = w \<or> (\<exists>d r. input_to_vec p (rq_task req) = Ok d \<and> wc_get_task x e b (job_task_id p x req d) w = (r, w'))"
    by (auto simp: job_step_def split: prod.splits result.splits)
  then show ?thesis unfolding plugin_asks_def by (blast dest: call_runs(1))
next
  case (Resetting d)
  with run obtain r where "wc_update_status_by_id x e b [job_task_id p x req d] Init w = (r, w')"
    by (auto simp: job_step_def split: prod.splits)
  from params[of d] Resetting call_runs(2)[OF this] show ?thesis by (auto simp: plugin_asks_def)
next
  case (Submitting d)
  with run obtain r where "wc_add_task x e b (addr_to_string x (addr_new_id p (in_miner_id (rq_task req)))) (job_comment p (rq_task req)) C2 d w = (r, w')"
    by (auto simp: job_step_def Let_def split: prod.splits)
  from params[of d] Submitting call_runs(3)[OF this] show ?thesis by (auto simp: plugin_asks_def)
next
  case (Polling d)
  with run obtain r where "wc_get_task x e b (job_task_id p x req d) w = (r, w')"
    by (auto simp: job_step_def Let_def split: prod.splits option.splits)
  from params[of d] Polling call_runs(1)[OF this] show ?thesis by (auto simp: plugin_asks_def)
qed (use run in \<open>auto simp: job_step_def\<close>)

lemma job_step_params:
  assumes "job_step p x e b pf cfg req (ph, w) = (ph', w')"
    and "\<And>d. phase_params ph = Some d \<Longrightarrow> input_to_vec p (rq_task req) = Ok d"
    and "phase_params ph' = Some d"
  shows "input_to_vec p (rq_task req) = Ok d"
  using assms
  by (cases ph) (auto simp: job_step_def Let_def after_look_def after_reset_def after_submit_def
      split: prod.splits result.splits option.splits if_splits)

lemma job_step_proof:
  assumes run: "job_step p x e b pf cfg req (ph, w) = (ph', w')" and ph': "ph' = Decided (Ok pr)"
    and "\<And>d. phase_params ph = Some d \<Longrightarrow> input_to_vec p (rq_task req) = Ok d"
  shows "ph = Decided (Ok pr) \<or> (\<exists>d t. input_to_vec p (rq_task req) = Ok d \<and> t \<in> set (task_tab w') \<and> tk_id t = job_task_id p x req d \<and>
    tk_state t = Completed \<and> tk_proof t = pr)"
proof (cases ph)
  case (Polling d)
  with assms obtain r where r: "wc_get_task x e b (job_task_id p x req d) w = (r, w')"
    "after_poll p (in_sector_id (rq_task req)) (job_task_id p x req d) r = Some (Ok pr)"
    by (auto simp: job_step_def Let_def split: prod.splits option.splits)
  from r(1) show ?thesis
  proof (cases rule: wc_get_task_cases)
    case (got t)
    with r(2) assms(3) Polling show ?thesis by (auto simp: after_poll_def split: if_splits)
  next
    case (failed m)
    with r(2) show ?thesis by (simp add: after_poll_def)
  qed
qed (use assms in \<open>auto simp: job_step_def Let_def after_look_def after_reset_def after_submit_def
      split: prod.splits result.splits option.splits if_splits\<close>)

section \<open>What the plugin writes\<close>

definition job_ok :: "('addr, 'c1) plugin_ext \<Rightarrow> (string \<Rightarrow> bool) \<Rightarrow> (bytes \<Rightarrow> bytes \<Rightarrow> bool) \<Rightarrow> 'c1 job \<Rightarrow> bool" where
  "job_ok p lines good j \<longleftrightarrow> (\<exists>line. lines line \<and> request_from_str p line = Ok (jb_request j)) \<and>
     (\<forall>d. phase_params (jb_phase j) = Some d \<longrightarrow> input_to_vec p (rq_task (jb_request j)) = Ok d) \<and>
     (\<forall>pr. jb_phase j = Decided (Ok pr) \<longrightarrow> (\<exists>d. input_to_vec p (rq_task (jb_request j)) = Ok d \<and> good d pr))"

definition answer_ok :: "('addr, 'c1) plugin_ext \<Rightarrow> (string \<Rightarrow> bool) \<Rightarrow> (bytes \<Rightarrow> bytes \<Rightarrow> bool) \<Rightarrow> plugin_response \<Rightarrow> bool" where
  "answer_ok p lines good resp \<longleftrightarrow> (\<exists>line req. lines line \<and> request_from_str p line = Ok req \<and> rs_id resp = rq_id req \<and>
     (rs_err_msg resp = None) = (rs_output resp \<noteq> None) \<and>
     (\<forall>pr. rs_output resp = Some pr \<longrightarrow> (\<exists>d. input_to_vec p (rq_task req) = Ok d \<and> good d pr)))"

lemma all_updated: "\<forall>j \<in> set xs. P j \<Longrightarrow> P y \<Longrightarrow> \<forall>j \<in> set (xs[i := y]). P j"
  using set_update_subset_insert[of xs i y] by auto

text \<open>The server and its workers see the plugin as one more client.\<close>

lemma sys_reach_deploy:
  assumes "sys_reach p x e b pf cfg seals sites allowed lines w0 s"
  shows "deploy_reach x e b seals sites (\<lambda>r. allowed r \<or> asked p x lines r) w0 (sy_dep s) \<and>
    (\<forall>j \<in> set (sy_jobs s). job_ok p lines (\<lambda>_ _. True) j)"
  using assms
proof (induction rule: sys_reach.induct)
  case (begun ms)
  then show ?case by (simp add: deploy_reach.start)
next
  case (further s s')
  let ?any = "\<lambda>r. allowed r \<or> asked p x lines r"
  have reach: "deploy_reach x e b seals sites ?any w0 (sy_dep s)" and jobs: "\<forall>j \<in> set (sy_jobs s). job_ok p lines (\<lambda>_ _. True) j"
    using further.IH by simp_all
  from further.hyps(2) show ?case
  proof cases
    case (server d)
    then have "deploy_step x e b seals sites ?any (sy_dep s) d"
      by (auto elim!: deploy_step.cases intro: deploy_step.intros)
    with deploy_reach.step[OF reach] server jobs show ?thesis by simp
  next
    case (read line req)
    with reach jobs show ?thesis by (auto simp: job_ok_def)
  next
    case (call i j ph w)
    then have j: "job_ok p lines (\<lambda>_ _. True) j" using jobs by auto
    then obtain line where line: "lines line" "request_from_str p line = Ok (jb_request j)" by (auto simp: job_ok_def)
    have params: "input_to_vec p (rq_task (jb_request j)) = Ok d" if "phase_params (jb_phase j) = Some d" for d
      using j that by (simp add: job_ok_def)
    have "deploy_reach x e b seals sites ?any w0 ((sy_dep s)\<lparr>dep_world := w\<rparr>)"
    proof (cases "w = dep_world (sy_dep s)")
      case False
      with job_step_world[OF call(4) params] obtain d r where "input_to_vec p (rq_task (jb_request j)) = Ok d"
        "r \<in> plugin_asks p x (jb_request j) d" "w = exchange x e b r (dep_world (sy_dep s))" by blast
      with line deploy_reach.step[OF reach deploy_step.client[of ?any r]] show ?thesis by (auto simp: asked_def)
    qed (use reach in simp)
    moreover have "job_ok p lines (\<lambda>_ _. True) (j\<lparr>jb_phase := ph\<rparr>)"
      using j job_step_params[OF call(4) params] job_step_proof[OF call(4) _ params] by (fastforce simp: job_ok_def)
    ultimately show ?thesis using call(1) all_updated[OF jobs] by simp
  next
    case (answer i j v resp m written)
    then have "job_ok p lines (\<lambda>_ _. True) (j\<lparr>jb_phase := Answered\<rparr>)" using jobs by (auto simp: job_ok_def)
    with reach all_updated[OF jobs] answer(1) show ?thesis by simp
  qed
qed

text \<open>Each job is answered at most once.\<close>

definition answered_ids :: "'c1 job list \<Rightarrow> 64 word multiset" where
  "answered_ids js = image_mset (\<lambda>j. rq_id (jb_request j)) (filter_mset (\<lambda>j. jb_phase j = Answered) (mset js))"

lemma answered_update:
  assumes "i < length js" "js ! i = j" "jb_phase j \<noteq> Answered"
  shows "answered_ids (js[i := j\<lparr>jb_phase := ph\<rparr>]) =
    (if ph = Answered then add_mset (rq_id (jb_request j)) (answered_ids js) else answered_ids js)"
proof -
  have m: "mset (js[i := j\<lparr>jb_phase := ph\<rparr>]) = add_mset (j\<lparr>jb_phase := ph\<rparr>) (mset js - {#j#})"
    using assms(1,2) by (simp add: mset_update)
  have "j \<in># mset js" using assms(1,2) by auto
  then obtain M where M: "mset js = add_mset j M" by (metis mset_add)
  show ?thesis unfolding answered_ids_def m M using assms(3) by simp
qed

lemma sys_reach_answers:
  assumes "sys_reach p x e b pf cfg seals sites allowed lines w0 s"
  shows "mset (map rs_id (sy_out s)) \<subseteq># answered_ids (sy_jobs s)"
  using assms
proof (induction rule: sys_reach.induct)
  case (further s s')
  from further.hyps(2) show ?case
  proof cases
    case (call i j ph w)
    show ?thesis
    proof (cases "jb_phase j = Answered")
      case True
      with call(4) have "j\<lparr>jb_phase := ph\<rparr> = j" by (simp add: job_step_def)
      moreover have "(sy_jobs s)[i := j] = sy_jobs s" using call(3) by (metis list_update_id)
      ultimately show ?thesis using call(1) further.IH by simp
    next
      case False
      with answered_update[OF call(2,3) False, of ph] further.IH call(1) show ?thesis
        by (auto intro: subset_mset.order_trans)
    qed
  next
    case (answer i j v resp m written)
    then have "jb_phase j \<noteq> Answered" "rs_id resp = rq_id (jb_request j)" by (auto simp: write_value_def write_err_def)
    with answered_update[OF answer(2,3), of Answered] further.IH answer(1) show ?thesis
      by (auto intro: subset_mset.order_trans)
  qed (use further.IH in \<open>auto simp: answered_ids_def intro: subset_mset.order_trans\<close>)
qed (simp add: answered_ids_def)

lemma sys_reach_good:
  assumes reach: "sys_reach p x e DbResource pf cfg seals sites allowed lines w0 s" and free: "collision_free x U"
    and world: "\<And>s. sys_reach p x e DbResource pf cfg seals sites allowed lines w0 s \<Longrightarrow> authentic_world x seals U (dep_world (sy_dep s))"
    and mine: "\<And>line req d. lines line \<Longrightarrow> request_from_str p line = Ok req \<Longrightarrow> input_to_vec p (rq_task req) = Ok d \<Longrightarrow>
      (addr_new_id p (in_miner_id (rq_task req)), d) \<in> U"
  shows "(\<forall>j \<in> set (sy_jobs s). job_ok p lines (\<lambda>d pr. proof_of x seals d pr) j) \<and>
    (\<forall>resp \<in> set (sy_out s). answer_ok p lines (\<lambda>d pr. proof_of x seals d pr) resp)"
  using reach
proof (induction rule: sys_reach.induct)
  case (further s s')
  from further.hyps(2) show ?case
  proof cases
    case (call i j ph w)
    then have j: "job_ok p lines (\<lambda>d pr. proof_of x seals d pr) j" using further.IH by auto
    then obtain line where line: "lines line" "request_from_str p line = Ok (jb_request j)" by (auto simp: job_ok_def)
    have params: "input_to_vec p (rq_task (jb_request j)) = Ok d" if "phase_params (jb_phase j) = Some d" for d
      using j that by (simp add: job_ok_def)
    have good: "\<exists>d. input_to_vec p (rq_task (jb_request j)) = Ok d \<and> proof_of x seals d pr" if "ph = Decided (Ok pr)" for pr
    proof -
      have "jb_phase j = Decided (Ok pr) \<or> (\<exists>d t. input_to_vec p (rq_task (jb_request j)) = Ok d \<and> t \<in> set (task_tab w) \<and>
          tk_id t = job_task_id p x (jb_request j) d \<and> tk_state t = Completed \<and> tk_proof t = pr)"
        by (rule job_step_proof[OF call(4) that]) (rule params)
      then show ?thesis
      proof (elim disjE exE conjE)
        assume "jb_phase j = Decided (Ok pr)"
        with j show ?thesis by (simp add: job_ok_def)
      next
        fix d t assume d: "input_to_vec p (rq_task (jb_request j)) = Ok d" and t: "t \<in> set (task_tab w)" "tk_state t = Completed"
          "tk_id t = job_task_id p x (jb_request j) d" "tk_proof t = pr"
        have "authentic_world x seals U w" using world[OF sys_reach.further[OF further.hyps]] call(1) by simp
        from proof_of_parameters[OF free this _ t(1,2)] t(3,4) mine[OF line d] d show ?thesis
          by (auto simp: job_task_id_def)
      qed
    qed
    have "job_ok p lines (\<lambda>d pr. proof_of x seals d pr) (j\<lparr>jb_phase := ph\<rparr>)"
      using j good job_step_params[OF call(4) params] by (simp add: job_ok_def)
    with call(1) further.IH all_updated[of "sy_jobs s" "job_ok p lines (\<lambda>d pr. proof_of x seals d pr)" _ i] show ?thesis by simp
  next
    case (answer i j v resp m written)
    then have j: "job_ok p lines (\<lambda>d pr. proof_of x seals d pr) j" using further.IH by auto
    then have "job_ok p lines (\<lambda>d pr. proof_of x seals d pr) (j\<lparr>jb_phase := Answered\<rparr>)" by (simp add: job_ok_def)
    moreover have "answer_ok p lines (\<lambda>d pr. proof_of x seals d pr) resp"
      using j answer(4) by (auto simp: job_ok_def answer_ok_def write_value_def write_err_def)
    ultimately show ?thesis using answer(1) further.IH all_updated[of "sy_jobs s" "job_ok p lines (\<lambda>d pr. proof_of x seals d pr)" _ i] by auto
  qed (use further.IH in \<open>auto simp: job_ok_def\<close>)
qed simp

lemma system_answers:
  assumes reach: "sys_reach p x e DbResource pf cfg seals sites allowed lines w0 s"
    and free: "collision_free x U" and b64: "\<And>d. b64_decode x (b64_encode x d) = Ok d"
    and readers: "\<forall>s \<in> set sites. st_reader s \<in> {InServer, Outside OverRpc}"
    and clients: "\<And>r. allowed r \<Longrightarrow> authentic_request x seals U r" and init: "authentic_world x seals U w0"
    and mine: "\<And>line req d. lines line \<Longrightarrow> request_from_str p line = Ok req \<Longrightarrow> input_to_vec p (rq_task req) = Ok d \<Longrightarrow>
      (addr_new_id p (in_miner_id (rq_task req)), d) \<in> U \<and>
      addr_from_str x (addr_to_string x (addr_new_id p (in_miner_id (rq_task req)))) = Ok (addr_new_id p (in_miner_id (rq_task req)))"
  shows "(\<forall>resp \<in> set (sy_out s). answer_ok p lines (\<lambda>d pr. proof_of x seals d pr) resp) \<and>
    mset (map rs_id (sy_out s)) \<subseteq># mset (map (\<lambda>j. rq_id (jb_request j)) (sy_jobs s))"
proof -
  have asks: "authentic_request x seals U r" if r: "allowed r \<or> asked p x lines r" for r
  proof (cases "allowed r")
    case False
    with r mine show ?thesis
      by (fastforce simp: asked_def plugin_asks_def b64_param_def base64byte_deserialize_def base64byte_serialize_def b64)
  qed (simp add: clients)
  have world: "authentic_world x seals U (dep_world (sy_dep s))"
    if "sys_reach p x e DbResource pf cfg seals sites allowed lines w0 s" for s
    using deploy_reach_authentic[OF conjunct1[OF sys_reach_deploy[OF that]] free b64 readers asks init]
    by (simp add: deploy_authentic_def)
  have "\<forall>resp \<in> set (sy_out s). answer_ok p lines (\<lambda>d pr. proof_of x seals d pr) resp"
    using sys_reach_good[OF reach free world] mine by blast
  moreover have "answered_ids (sy_jobs s) \<subseteq># mset (map (\<lambda>j. rq_id (jb_request j)) (sy_jobs s))"
    unfolding answered_ids_def mset_map by (rule image_mset_subseteq_mono) simp
  ultimately show ?thesis
    using sys_reach_answers[OF reach] by (auto intro: subset_mset.order_trans)
qed

text \<open>C3. In a whole system, a server with its database, any number of workers that may crash and restart, other
  clients, and the plugin with any number of jobs at once, all interleaved call by call over a network that loses messages:
  every line the plugin has answered is a line it was given, is answered with the id of that line and with either an
  error or an output, the output is a proof that a run of the prover returned on exactly the parameters of that line, and no line is
  answered twice. The conditions: the server keeps the parameters in
  its database and not in files, every worker reads them inside the server or from it over RPC and none from files, the database
  holds nothing forged at the start, clients submit and read and set states but neither record proofs that are not the task's nor set
  a task to completed, the hashes of what is submitted do not collide, Base64 decodes what it encodes, and the miner
  addresses the plugin writes are read back as the addresses they were.\<close>

theorem system_end_to_end:
  assumes reach: "sys_reach p x e DbResource pf cfg seals sites allowed lines w0 s"
    and free: "collision_free x U" and b64: "\<And>d. b64_decode x (b64_encode x d) = Ok d"
    and readers: "\<forall>s \<in> set sites. st_reader s \<in> {InServer, Outside OverRpc}"
    and clients: "\<And>r. allowed r \<Longrightarrow> authentic_request x seals U r" and init: "authentic_world x seals U w0"
    and mine: "\<And>line req d. lines line \<Longrightarrow> request_from_str p line = Ok req \<Longrightarrow> input_to_vec p (rq_task req) = Ok d \<Longrightarrow>
      (addr_new_id p (in_miner_id (rq_task req)), d) \<in> U \<and>
      addr_from_str x (addr_to_string x (addr_new_id p (in_miner_id (rq_task req)))) = Ok (addr_new_id p (in_miner_id (rq_task req)))"
  shows "(\<forall>resp \<in> set (sy_out s). \<exists>line req. lines line \<and> request_from_str p line = Ok req \<and> rs_id resp = rq_id req \<and>
     (rs_err_msg resp = None) = (rs_output resp \<noteq> None) \<and>
     (\<forall>pr. rs_output resp = Some pr \<longrightarrow> (\<exists>d. input_to_vec p (rq_task req) = Ok d \<and> proof_of x seals d pr))) \<and>
    mset (map rs_id (sy_out s)) \<subseteq># mset (map (\<lambda>j. rq_id (jb_request j)) (sy_jobs s))"
  by (rule system_answers[OF assms, unfolded answer_ok_def])

section \<open>Two runs\<close>

definition demo_req :: "bytes plugin_request" where
  "demo_req = \<lparr>rq_id = 7, rq_task = demo_input\<rparr>"

abbreviation demo_sys :: "site list \<Rightarrow> world \<Rightarrow> bytes system \<Rightarrow> bool" where
  "demo_sys sites w0 \<equiv> sys_reach demo_plugin demo_ext quiet DbResource demo_platform demo_cfg demo_seals sites (\<lambda>_. False) (\<lambda>l. l = ''job'') w0"

abbreviation demo_sys_step :: "site list \<Rightarrow> bytes system \<Rightarrow> bytes system \<Rightarrow> bool" where
  "demo_sys_step sites \<equiv> sys_step demo_plugin demo_ext quiet DbResource demo_platform demo_cfg demo_seals sites (\<lambda>_. False) (\<lambda>l. l = ''job'')"

abbreviation demo_job :: "phase \<times> world \<Rightarrow> phase \<times> world" where
  "demo_job \<equiv> job_step demo_plugin demo_ext quiet DbResource demo_platform demo_cfg demo_req"

lemma demo_line: "request_from_str demo_plugin ''job'' = Ok demo_req"
  by (simp add: demo_plugin_def demo_req_def demo_input_def)

lemma demo_read_line:
  "demo_sys sites w0 s \<Longrightarrow> demo_sys sites w0 (s\<lparr>sy_jobs := sy_jobs s @ [\<lparr>jb_request = demo_req, jb_phase = Looking\<rparr>]\<rparr>)"
  by (erule sys_reach.further) (rule sys_step.read[OF HOL.refl demo_line])

lemma demo_call:
  assumes "demo_sys sites w0 s" "i < length (sy_jobs s)" "sy_jobs s ! i = \<lparr>jb_request = demo_req, jb_phase = ph\<rparr>"
    and "demo_job (ph, dep_world (sy_dep s)) = (ph', w)"
  shows "demo_sys sites w0 (s\<lparr>sy_jobs := (sy_jobs s)[i := \<lparr>jb_request = demo_req, jb_phase = ph'\<rparr>], sy_dep := (sy_dep s)\<lparr>dep_world := w\<rparr>\<rparr>)"
  using sys_reach.further[OF assms(1) sys_step.call[OF assms(2,3), of demo_plugin demo_ext quiet DbResource demo_platform demo_cfg ph' w]] assms(4)
  by simp

lemma demo_jobs_run:
  "demo_job (Looking, done_world) = (Polling [1], snd (demo_job (Looking, done_world)))"
  "demo_job (Polling [1], snd (demo_job (Looking, done_world))) =
    (Decided (Ok [99, 1]), snd (demo_job (Polling [1], snd (demo_job (Looking, done_world)))))"
proof -
  have "fst (demo_job (Looking, done_world)) = Polling [1]" by code_simp
  then show "demo_job (Looking, done_world) = (Polling [1], snd (demo_job (Looking, done_world)))" by (metis prod.collapse)
  have "fst (demo_job (Polling [1], snd (demo_job (Looking, done_world)))) = Decided (Ok [99, 1])" by code_simp
  then show "demo_job (Polling [1], snd (demo_job (Looking, done_world))) =
    (Decided (Ok [99, 1]), snd (demo_job (Polling [1], snd (demo_job (Looking, done_world)))))" by (metis prod.collapse)
qed

text \<open>The last two states of a run in which one job answers.\<close>

lemma demo_sys_answer: "\<exists>s s'. demo_sys [] done_world s \<and> sy_out s = [] \<and> demo_sys_step [] s s' \<and> sy_out s' = [write_value 7 [99, 1]]"
proof -
  let ?w1 = "snd (demo_job (Looking, done_world))"
  let ?w2 = "snd (demo_job (Polling [1], ?w1))"
  let ?J = "\<lambda>ph. [\<lparr>jb_request = demo_req, jb_phase = ph\<rparr>]"
  let ?D = "\<lambda>w. \<lparr>dep_world = w, dep_machines = []\<rparr>"
  have "demo_sys [] done_world \<lparr>sy_dep = ?D done_world, sy_jobs = [], sy_out = []\<rparr>" by (rule sys_reach.begun) simp
  from demo_read_line[OF this] have "demo_sys [] done_world \<lparr>sy_dep = ?D done_world, sy_jobs = ?J Looking, sy_out = []\<rparr>" by simp
  from demo_call[OF this, of 0 Looking "Polling [1]" ?w1] have
    "demo_sys [] done_world \<lparr>sy_dep = ?D ?w1, sy_jobs = ?J (Polling [1]), sy_out = []\<rparr>" using demo_jobs_run(1) by simp
  from demo_call[OF this, of 0 "Polling [1]" "Decided (Ok [99, 1])" ?w2] have
    r: "demo_sys [] done_world \<lparr>sy_dep = ?D ?w2, sy_jobs = ?J (Decided (Ok [99, 1])), sy_out = []\<rparr>" using demo_jobs_run(2) by simp
  let ?s = "\<lparr>sy_dep = ?D ?w2, sy_jobs = ?J (Decided (Ok [99, 1])), sy_out = []\<rparr> :: bytes system"
  from r sys_step.answer[of 0 ?s "?J (Decided (Ok [99, 1])) ! 0" "[99, 1]" "write_value 7 [99, 1]" "[]" _ _ _ _ _ _ _ _ _ _ True]
  show ?thesis by (intro exI[of _ ?s] exI[of _ "\<lparr>sy_dep = ?D ?w2, sy_jobs = ?J Answered, sy_out = [write_value 7 [99, 1]]\<rparr>"]) (simp add: demo_req_def)
qed

lemma demo_sys_run: "\<exists>s. demo_sys [] done_world s \<and> sy_out s = [write_value 7 [99, 1]]"
  using demo_sys_answer sys_reach.further by blast

lemma demo_mine:
  assumes "line = ''job''" "request_from_str demo_plugin line = Ok req" "input_to_vec demo_plugin (rq_task req) = Ok d"
  shows "(addr_new_id demo_plugin (in_miner_id (rq_task req)), d) \<in> demo_pairs \<and>
      addr_from_str demo_ext (addr_to_string demo_ext (addr_new_id demo_plugin (in_miner_id (rq_task req)))) = Ok (addr_new_id demo_plugin (in_miner_id (rq_task req)))"
proof -
  have vals: "input_to_vec demo_plugin (rq_task demo_req) = Ok [1]" "addr_new_id demo_plugin (in_miner_id (rq_task demo_req)) = ''f09''"
    "addr_from_str demo_ext (addr_to_string demo_ext ''f09'') = Ok ''f09''"
    by code_simp+
  have "req = demo_req" using assms(1,2) by (simp add: demo_line)
  with assms(3) vals show ?thesis by (simp add: demo_pairs_def)
qed

theorem system_end_to_end_witness:
  "\<exists>s. demo_sys [] done_world s \<and> sy_out s = [write_value 7 [99, 1]] \<and> proof_of demo_ext demo_seals [1] [99, 1]"
proof -
  obtain s where s: "demo_sys [] done_world s" "sy_out s = [write_value 7 [99, 1]]" using demo_sys_run by blast
  have "\<forall>resp \<in> set (sy_out s). \<exists>line req. line = ''job'' \<and> request_from_str demo_plugin line = Ok req \<and> rs_id resp = rq_id req \<and>
     (rs_err_msg resp = None) = (rs_output resp \<noteq> None) \<and>
     (\<forall>pr. rs_output resp = Some pr \<longrightarrow> (\<exists>d. input_to_vec demo_plugin (rq_task req) = Ok d \<and> proof_of demo_ext demo_seals d pr))"
    by (rule conjunct1[OF system_end_to_end[OF s(1) demo_collision_free demo_b64 _ _ demo_authentic demo_mine]]) simp_all
  then obtain req d where "request_from_str demo_plugin ''job'' = Ok req" "input_to_vec demo_plugin (rq_task req) = Ok d"
    "proof_of demo_ext demo_seals d [99, 1]"
    unfolding s(2) by (auto simp: write_value_def)
  moreover have "input_to_vec demo_plugin (rq_task demo_req) = Ok [1]" by code_simp
  ultimately show ?thesis using s by (auto simp: demo_line)
qed

section \<open>A reset that comes too late\<close>

definition failed_world :: world where
  "failed_world = empty_world\<lparr>task_tab := [mk_task demo_tid (gen_resource_id demo_ext [1]) Error ''w0'' 1],
     res_tab := [\<lparr>ri_id = gen_resource_id demo_ext [1], ri_data = [1], ri_create_at = 1\<rparr>]\<rparr>"

definition second_site :: site where
  "second_site = \<lparr>st_worker = demo_worker\<lparr>lw_worker_id := ''w2''\<rparr>, st_retries = 5, st_reader = InServer\<rparr>"

abbreviation race_state :: "world \<Rightarrow> machine \<Rightarrow> machine \<Rightarrow> phase \<Rightarrow> phase \<Rightarrow> bytes system" where
  "race_state w m1 m2 ph1 ph2 \<equiv> \<lparr>sy_dep = \<lparr>dep_world = w, dep_machines = [m1, m2]\<rparr>,
     sy_jobs = [\<lparr>jb_request = demo_req, jb_phase = ph1\<rparr>, \<lparr>jb_request = demo_req, jb_phase = ph2\<rparr>], sy_out = []\<rparr>"

abbreviation race_run :: "bytes system \<Rightarrow> bool" where
  "race_run \<equiv> demo_sys [demo_site, second_site] failed_world"

lemma race_calls:
  assumes "race_run (race_state w m1 m2 ph1 ph2)"
  shows "demo_job (ph1, w) = (ph, w') \<Longrightarrow> race_run (race_state w' m1 m2 ph ph2)"
    and "demo_job (ph2, w) = (ph, w') \<Longrightarrow> race_run (race_state w' m1 m2 ph1 ph)"
  using demo_call[OF assms, of 0 ph1 ph w'] demo_call[OF assms, of 1 ph2 ph w'] by simp_all

lemma race_work:
  assumes run: "race_run (race_state w m1 m2 ph1 ph2)"
  shows "worker_step demo_ext quiet DbResource (site_read demo_ext quiet DbResource demo_site) demo_seals 5 demo_worker (\<lambda>_. False) (m1\<lparr>wld := w\<rparr>) m \<Longrightarrow>
      race_run (race_state (wld m) m m2 ph1 ph2)"
    and "worker_step demo_ext quiet DbResource (site_read demo_ext quiet DbResource second_site) demo_seals 5 (st_worker second_site) (\<lambda>_. False) (m2\<lparr>wld := w\<rparr>) m' \<Longrightarrow>
      race_run (race_state (wld m') m1 m' ph1 ph2)"
proof -
  let ?d = "\<lparr>dep_world = w, dep_machines = [m1, m2]\<rparr>"
  note work = sys_reach.further[OF run sys_step.server[OF deploy_step.work]]
  show "race_run (race_state (wld m) m m2 ph1 ph2)"
    if "worker_step demo_ext quiet DbResource (site_read demo_ext quiet DbResource demo_site) demo_seals 5 demo_worker (\<lambda>_. False) (m1\<lparr>wld := w\<rparr>) m"
    using work[of 0 m] that by (simp add: demo_site_def)
  show "race_run (race_state (wld m') m1 m' ph1 ph2)"
    if "worker_step demo_ext quiet DbResource (site_read demo_ext quiet DbResource second_site) demo_seals 5 (st_worker second_site) (\<lambda>_. False) (m2\<lparr>wld := w\<rparr>) m'"
    using work[of 1 m'] that by (simp add: second_site_def)
qed

lemma solo_calls:
  assumes w: "task_tab w = [t]" "tk_id t = demo_tid"
  shows "\<exists>w'. wc_get_task demo_ext quiet DbResource demo_tid w = (Ok t, w') \<and> task_tab w' = [t]"
    and "\<exists>w'. wc_update_status_by_id demo_ext quiet DbResource [demo_tid] Init w = (Ok (), w') \<and> task_tab w' = [t\<lparr>tk_state := Init\<rparr>]"
    and "tk_state t \<noteq> Running \<Longrightarrow> \<exists>w'. wc_fetch_uncompleted demo_ext quiet DbResource wk w = (Ok [], w') \<and> task_tab w' = [t]"
    and "tk_state t = Init \<Longrightarrow> \<exists>n w'. wc_fetch_one_todo demo_ext quiet DbResource wk (Some [C2]) w = (Ok (claim_row wk n t), w') \<and>
      task_tab w' = [claim_row wk n t]"
proof -
  have "query quiet task_tab (\<lambda>t. tk_id t = demo_tid) (Asc tk_create_at) (bump (bump w)) = [t]"
    using w by (intro query_single) simp
  then have "fetch quiet demo_tid (bump w) = (Ok t, bump (bump w))" by (simp add: fetch_quiet)
  then show "\<exists>w'. wc_get_task demo_ext quiet DbResource demo_tid w = (Ok t, w') \<and> task_tab w' = [t]"
    using w by (simp add: wc_get_task_def and_then_def rpc_call_def map_ok_def get_task_def internal_call_error_def map_err_def
        expect_task_def ok_def)
  show "\<exists>w'. wc_update_status_by_id demo_ext quiet DbResource [demo_tid] Init w = (Ok (), w') \<and> task_tab w' = [t\<lparr>tk_state := Init\<rparr>]"
    using w by (simp add: wc_update_status_by_id_def and_then_def rpc_call_def map_ok_def update_status_by_id_def internal_call_error_def
        map_err_def db_update_status_by_id_def update_many_def sql_def expect_unit_def ok_def update_rows_def)
  show "\<exists>w'. wc_fetch_uncompleted demo_ext quiet DbResource wk w = (Ok [], w') \<and> task_tab w' = [t]" if "tk_state t \<noteq> Running"
    using w that by (simp add: wc_fetch_uncompleted_def and_then_def rpc_call_def map_ok_def fetch_uncompleted_def internal_call_error_def
        map_err_def db_fetch_uncompleted_def find_all_def sql_def expect_tasks_def ok_def)
  show "\<exists>n w'. wc_fetch_one_todo demo_ext quiet DbResource wk (Some [C2]) w = (Ok (claim_row wk n t), w') \<and>
      task_tab w' = [claim_row wk n t]" if init: "tk_state t = Init"
  proof -
    have key: "keyed task_tab tk_id (bump w)" using w by (simp add: keyed_def)
    have "tk_type t = C2" by (cases "tk_type t") simp
    then have todo: "is_todo (Some [C2]) t" using init by (simp add: is_todo_def)
    have "is_ok (fst (fetch_one_todo quiet wk (Some [C2]) (bump w)))"
      by (rule fetch_one_todo_finds[OF _ key _ todo]) (simp_all add: w)
    then obtain u w' where run: "fetch_one_todo quiet wk (Some [C2]) (bump w) = (Ok u, w')" by (metis is_ok_iff prod.collapse)
    obtain v n where "v \<in> set (task_tab (bump w))" "u = claim_row wk n v"
      "task_tab w' = update_rows (\<lambda>r. tk_id r = tk_id v) (claim_row wk n) (task_tab (bump w))"
      by (rule fetch_one_todo_Ok[OF key run]) blast
    with w run show ?thesis
      by (intro exI[of _ n] exI[of _ w'])
        (simp add: wc_fetch_one_todo_def and_then_def rpc_call_def map_ok_def fetch_todo_def internal_call_error_def map_err_def
          expect_task_def ok_def update_rows_def)
  qed
qed

lemma solo_jobs:
  assumes w: "task_tab w = [t]" "tk_id t = demo_tid"
  shows "tk_state t = Error \<Longrightarrow> \<exists>w'. demo_job (Looking, w) = (Resetting [1], w') \<and> task_tab w' = [t]"
    and "\<exists>w'. demo_job (Resetting [1], w) = (Polling [1], w') \<and> task_tab w' = [t\<lparr>tk_state := Init\<rparr>]"
proof -
  have tid: "job_task_id demo_plugin demo_ext demo_req [1] = demo_tid" by code_simp
  have vec: "input_to_vec demo_plugin (rq_task demo_req) = Ok [1]" by code_simp
  have "is_ok (get_proxy_api demo_platform (cfg_url demo_cfg))" by code_simp
  then obtain u where api: "get_proxy_api demo_platform (cfg_url demo_cfg) = Ok u" by (auto simp: is_ok_iff)
  from solo_calls(1)[OF w] show "\<exists>w'. demo_job (Looking, w) = (Resetting [1], w') \<and> task_tab w' = [t]" if "tk_state t = Error"
    using that by (auto simp: job_step_def vec api tid after_look_def)
  from solo_calls(2)[OF w] show "\<exists>w'. demo_job (Resetting [1], w) = (Polling [1], w') \<and> task_tab w' = [t\<lparr>tk_state := Init\<rparr>]"
    by (auto simp: job_step_def tid after_reset_def)
qed

definition idle_machine :: "world \<Rightarrow> machine" where
  "idle_machine w = \<lparr>wld = w, count = 0, chan = [], fet = Starting, exe = Selecting, jobs = [], outs = []\<rparr>"

lemma solo_take:
  assumes w: "task_tab w = [t]" "tk_id t = demo_tid" "tk_state t = Init"
    and lw: "lw = demo_worker\<lparr>lw_worker_id := wk\<rparr>"
  shows "\<exists>m m' u. worker_step demo_ext quiet DbResource res demo_seals rs lw (\<lambda>_. False) (idle_machine w) m \<and>
    worker_step demo_ext quiet DbResource res demo_seals rs lw (\<lambda>_. False) m m' \<and>
    waiting m' = [u] \<and> tk_id u = demo_tid \<and> tk_state u = Running \<and> task_tab (wld m') = [u]"
proof -
  obtain w1 where up: "wc_fetch_uncompleted demo_ext quiet DbResource wk w = (Ok [], w1)" "task_tab w1 = [t]"
    using solo_calls(3)[OF w(1,2)] w(3) by auto
  obtain n w2 where got: "wc_fetch_one_todo demo_ext quiet DbResource wk (Some [C2]) w1 = (Ok (claim_row wk n t), w2)"
    "task_tab w2 = [claim_row wk n t]"
    using solo_calls(4)[OF up(2) w(2,3)] by blast
  let ?m = "(idle_machine w)\<lparr>wld := w1, fet := Waiting []\<rparr>"
  let ?m' = "?m\<lparr>wld := w2, fet := Sending [] (claim_row wk n t)\<rparr>"
  have "worker_step demo_ext quiet DbResource res demo_seals rs lw (\<lambda>_. False) (idle_machine w) ?m"
    by (rule worker_step.resume) (simp_all add: idle_machine_def lw up)
  moreover have "worker_step demo_ext quiet DbResource res demo_seals rs lw (\<lambda>_. False) ?m ?m'"
    by (rule worker_step.fetch) (simp_all add: idle_machine_def lw demo_worker_def got)
  moreover have "waiting ?m' = [claim_row wk n t]" by (simp add: waiting_def)
  ultimately show ?thesis using w(2) got(2) by fastforce
qed

text \<open>C29. The reset of a failed task is not atomic with the look that found it failed. Two jobs of the plugin with
  the same parameters, and no other client, can put a running task back to open, so that two workers
  have it at the same time.\<close>

theorem late_reset_runs_task_twice:
  "\<exists>s t u. demo_sys [demo_site, second_site] failed_world s \<and>
     waiting (dep_machines (sy_dep s) ! 0) = [t] \<and> waiting (dep_machines (sy_dep s) ! 1) = [u] \<and>
     tk_id t = demo_tid \<and> tk_id u = demo_tid \<and> tk_state t = Running \<and> tk_state u = Running"
proof -
  let ?m = "idle_machine failed_world"
  let ?t = "mk_task demo_tid (gen_resource_id demo_ext [1]) Error ''w0'' 1"
  have t: "task_tab failed_world = [?t]" "tk_id ?t = demo_tid" "tk_state ?t = Error" by (simp_all add: failed_world_def mk_task_def)
  have lw: "demo_worker = demo_worker\<lparr>lw_worker_id := ''w1''\<rparr>" "st_worker second_site = demo_worker\<lparr>lw_worker_id := ''w2''\<rparr>"
    by (simp_all add: demo_worker_def second_site_def)
  have "demo_sys [demo_site, second_site] failed_world \<lparr>sy_dep = \<lparr>dep_world = failed_world, dep_machines = [?m, ?m]\<rparr>, sy_jobs = [], sy_out = []\<rparr>"
    by (rule sys_reach.begun) (simp add: process_tasks_def idle_machine_def demo_site_def second_site_def demo_worker_def)
  from demo_read_line[OF demo_read_line[OF this]] have r0: "race_run (race_state failed_world ?m ?m Looking Looking)" by simp
  obtain w1 where j1: "demo_job (Looking, failed_world) = (Resetting [1], w1)" "task_tab w1 = [?t]"
    using solo_jobs(1)[OF t(1,2,3)] by blast
  obtain w2 where j2: "demo_job (Looking, w1) = (Resetting [1], w2)" "task_tab w2 = [?t]"
    using solo_jobs(1)[OF j1(2) t(2,3)] by blast
  obtain w3 where j3: "demo_job (Resetting [1], w2) = (Polling [1], w3)" "task_tab w3 = [?t\<lparr>tk_state := Init\<rparr>]"
    using solo_jobs(2)[OF j2(2) t(2)] by blast
  have r3: "race_run (race_state w3 ?m ?m (Polling [1]) (Resetting [1]))"
    by (rule race_calls(1)[OF race_calls(2)[OF race_calls(1)[OF r0 j1(1)] j2(1)] j3(1)])
  obtain a a' u where a: "worker_step demo_ext quiet DbResource (site_read demo_ext quiet DbResource demo_site) demo_seals 5 demo_worker (\<lambda>_. False) (idle_machine w3) a"
      "worker_step demo_ext quiet DbResource (site_read demo_ext quiet DbResource demo_site) demo_seals 5 demo_worker (\<lambda>_. False) a a'"
    and u: "waiting a' = [u]" "tk_id u = demo_tid" "tk_state u = Running" "task_tab (wld a') = [u]"
    using solo_take[OF j3(2) _ _ lw(1), where res = "site_read demo_ext quiet DbResource demo_site" and rs = 5] t(2) by auto
  have "race_run (race_state (wld a) a ?m (Polling [1]) (Resetting [1]))"
    using race_work(1)[OF r3, of a] a(1) by (simp add: idle_machine_def)
  then have r4: "race_run (race_state (wld a') a' ?m (Polling [1]) (Resetting [1]))"
    using race_work(1)[of "wld a" a] a(2) by simp
  obtain w4 where j4: "demo_job (Resetting [1], wld a') = (Polling [1], w4)" "task_tab w4 = [u\<lparr>tk_state := Init\<rparr>]"
    using solo_jobs(2)[OF u(4,2)] by blast
  have r5: "race_run (race_state w4 a' ?m (Polling [1]) (Polling [1]))" by (rule race_calls(2)[OF r4 j4(1)])
  obtain c c' v where c: "worker_step demo_ext quiet DbResource (site_read demo_ext quiet DbResource second_site) demo_seals 5 (st_worker second_site) (\<lambda>_. False) (idle_machine w4) c"
      "worker_step demo_ext quiet DbResource (site_read demo_ext quiet DbResource second_site) demo_seals 5 (st_worker second_site) (\<lambda>_. False) c c'"
    and v: "waiting c' = [v]" "tk_id v = demo_tid" "tk_state v = Running"
    using solo_take[OF j4(2) _ _ lw(2), where res = "site_read demo_ext quiet DbResource second_site" and rs = 5] u(2) by auto
  have "race_run (race_state (wld c) a' c (Polling [1]) (Polling [1]))"
    using race_work(2)[OF r5, of c] c(1) by (simp add: idle_machine_def)
  then have "race_run (race_state (wld c') a' c' (Polling [1]) (Polling [1]))"
    using race_work(2)[of "wld c" a' c] c(2) by simp
  with u v show ?thesis
    by (intro exI[of _ "race_state (wld c') a' c' (Polling [1]) (Polling [1])"] exI[of _ u] exI[of _ v]) simp
qed

end
