(* ===== verification/Plugin_Output.thy ===== *)
theory Plugin_Output
  imports C2_Plugin
begin

text \<open>
  The standard output of the plugin (\<open>PluginOut\<close> of \<open>gpuproxy/src/cluster_c2_plugin/main.rs\<close>): one buffered
  writer behind one lock, shared by \<open>run\<close>, which writes the greeting, and by the tasks that answer. A write
  takes the lock, hands its bytes to the buffer piece by piece, waits until the buffer has gone out, and gives the
  lock back; it can be interrupted between any two of these, and each of them can fail. The lock lets in one at a time; the
  buffer keeps the order of what it takes; a flush that succeeds leaves it empty. A failed write leaves in the buffer what it has
  put there, so that nothing is claimed once one has failed.
\<close>

section \<open>Writers\<close>

datatype write_phase = Locking | Writing string | Flushing | Written | WriteFailed

text \<open>\<open>wr_text\<close> is what \<open>write_all\<close> was called with; \<open>Writing\<close> has what is not yet in the buffer.\<close>

record writer =
  wr_text :: string
  wr_phase :: write_phase

record plugin_out =
  po_writers :: "writer list"
  po_lock :: "nat option"
  po_buffer :: string
  po_stdout :: string

definition new_writer :: "string \<Rightarrow> writer" where
  "new_writer data = \<lparr>wr_text = data, wr_phase = Locking\<rparr>"

definition set_phase :: "nat \<Rightarrow> write_phase \<Rightarrow> plugin_out \<Rightarrow> plugin_out" where
  "set_phase i ph s = s\<lparr>po_writers := (po_writers s)[i := (po_writers s ! i)\<lparr>wr_phase := ph\<rparr>]\<rparr>"

definition in_phase :: "plugin_out \<Rightarrow> nat \<Rightarrow> write_phase \<Rightarrow> bool" where
  "in_phase s i ph \<longleftrightarrow> i < length (po_writers s) \<and> wr_phase (po_writers s ! i) = ph"

text \<open>The new \<open>PluginOut\<close>, with the greeting of \<open>run\<close> about to be written.\<close>

definition plugin_out_new :: plugin_out where
  "plugin_out_new = \<lparr>po_writers = [], po_lock = None, po_buffer = [], po_stdout = []\<rparr>"

definition greeting :: plugin_out where
  "greeting = plugin_out_new\<lparr>po_writers := [new_writer (ready_msg ''c2'')]\<rparr>"

text \<open>\<open>respond\<close>: \<open>run\<close> reads no line before its greeting is out. \<open>lock\<close> to \<open>flushed\<close> are \<open>write_all\<close>.\<close>

inductive write_step :: "('addr, 'c1) plugin_ext \<Rightarrow> plugin_out \<Rightarrow> plugin_out \<Rightarrow> bool" for p where
  respond: "in_phase s 0 Written \<Longrightarrow> write_resp p resp = Ok data \<Longrightarrow>
     write_step p s (s\<lparr>po_writers := po_writers s @ [new_writer data]\<rparr>)"
| lock: "in_phase s i Locking \<Longrightarrow> po_lock s = None \<Longrightarrow>
     write_step p s (set_phase i (Writing (wr_text (po_writers s ! i))) (s\<lparr>po_lock := Some i\<rparr>))"
| hand: "in_phase s i (Writing (piece @ rem)) \<Longrightarrow>
     write_step p s (set_phase i (Writing rem) (s\<lparr>po_buffer := po_buffer s @ piece\<rparr>))"
| drain: "po_lock s \<noteq> None \<Longrightarrow> po_buffer s = piece @ rem \<Longrightarrow>
     write_step p s (s\<lparr>po_buffer := rem, po_stdout := po_stdout s @ piece\<rparr>)"
| flush: "in_phase s i (Writing []) \<Longrightarrow> write_step p s (set_phase i Flushing s)"
| flushed: "in_phase s i Flushing \<Longrightarrow> po_buffer s = [] \<Longrightarrow>
     write_step p s (set_phase i Written (s\<lparr>po_lock := None\<rparr>))"
| fail: "in_phase s i (Writing rem) \<or> in_phase s i Flushing \<Longrightarrow>
     write_step p s (set_phase i WriteFailed (s\<lparr>po_lock := None\<rparr>))"

inductive write_reach :: "('addr, 'c1) plugin_ext \<Rightarrow> plugin_out \<Rightarrow> bool" for p where
  fresh: "write_reach p greeting"
| more: "write_reach p s \<Longrightarrow> write_step p s s' \<Longrightarrow> write_reach p s'"

section \<open>What a reader of the output sees\<close>

definition newline :: char where
  "newline = char_of (10 :: nat)"

lemma greeting_line: "ready_msg ''c2'' = ''c2 processor ready'' @ [newline]" "newline \<notin> set ''c2 processor ready''"
  by code_simp+

text \<open>The complete lines of a text, without their ends.\<close>

fun lines_from :: "string \<Rightarrow> string \<Rightarrow> string list" where
  "lines_from acc [] = []"
| "lines_from acc (c # cs) = (if c = newline then acc # lines_from [] cs else lines_from (acc @ [c]) cs)"

definition complete_lines :: "string \<Rightarrow> string list" where
  "complete_lines t = lines_from [] t"

definition one_line :: "string \<Rightarrow> bool" where
  "one_line t \<longleftrightarrow> (\<exists>l. t = l @ [newline] \<and> newline \<notin> set l)"

lemma lines_from_open: "newline \<notin> set l \<Longrightarrow> lines_from acc (l @ t) = lines_from (acc @ l) t"
  by (induction l arbitrary: acc) auto

lemma lines_open: "newline \<notin> set l \<Longrightarrow> complete_lines l = []"
  using lines_from_open[of l "[]" "[]"] by (simp add: complete_lines_def)

lemma lines_one: "one_line t \<Longrightarrow> complete_lines (t @ u) = butlast t # complete_lines u"
  by (auto simp: one_line_def complete_lines_def lines_from_open)

lemma lines_concat: "\<forall>t \<in> set ts. one_line t \<Longrightarrow> complete_lines (concat ts @ u) = map butlast ts @ complete_lines u"
  by (induction ts) (simp_all add: lines_one)

text \<open>Of one line at most its end is missing.\<close>

lemma lines_prefix:
  assumes "one_line t" "prefix u t"
  shows "u = t \<and> complete_lines u = [butlast t] \<or> u \<noteq> t \<and> complete_lines u = []"
proof (cases "u = t")
  case True
  with lines_one[OF assms(1), of "[]"] show ?thesis by (simp add: complete_lines_def)
next
  case False
  from assms obtain l where "t = l @ [newline]" "newline \<notin> set l" by (auto simp: one_line_def)
  with assms(2) False have "prefix u l" by (simp add: prefix_snoc)
  with \<open>newline \<notin> set l\<close> have "newline \<notin> set u" by (auto dest: set_mono_prefix)
  with False show ?thesis by (simp add: lines_open)
qed

section \<open>The invariant\<close>

definition text_of :: "plugin_out \<Rightarrow> nat \<Rightarrow> string" where
  "text_of s i = wr_text (po_writers s ! i)"

text \<open>The holder of the lock has handed \<open>taken\<close> to the buffer.\<close>

definition holding :: "plugin_out \<Rightarrow> nat \<Rightarrow> string \<Rightarrow> bool" where
  "holding s i taken \<longleftrightarrow> in_phase s i Flushing \<and> text_of s i = taken \<or>
     (\<exists>rem. in_phase s i (Writing rem) \<and> text_of s i = taken @ rem)"

text \<open>Those that are done, in the order in which they had the lock, and what has gone out of the text of the holder.\<close>

definition out_inv :: "plugin_out \<Rightarrow> nat list \<Rightarrow> string \<Rightarrow> bool" where
  "out_inv s fin gone \<longleftrightarrow>
     distinct fin \<and> (\<forall>i. i \<in> set fin \<longleftrightarrow> in_phase s i Written) \<and>
     po_stdout s = concat (map (text_of s) fin) @ gone \<and>
     (po_lock s = None \<longrightarrow> gone = [] \<and> po_buffer s = []) \<and> (\<forall>i. po_lock s = Some i \<longrightarrow> holding s i (gone @ po_buffer s)) \<and>
     (\<forall>i ph. in_phase s i ph \<longrightarrow> ph \<in> {Locking, Written} \<or> po_lock s = Some i) \<and>
     (if fin = [] then length (po_writers s) = 1 else hd fin = 0)"

text \<open>What is written is the greeting, by the first writer, or a response.\<close>

definition may_write :: "('addr, 'c1) plugin_ext \<Rightarrow> nat \<Rightarrow> string \<Rightarrow> bool" where
  "may_write p i t \<longleftrightarrow> (if i = 0 then t = ready_msg ''c2'' else \<exists>resp. write_resp p resp = Ok t)"

definition origin :: "('addr, 'c1) plugin_ext \<Rightarrow> plugin_out \<Rightarrow> bool" where
  "origin p s \<longleftrightarrow> (\<forall>i < length (po_writers s). may_write p i (text_of s i))"

lemma phase_simps [simp]:
  "in_phase (set_phase i ph s) j q \<longleftrightarrow> (if j = i then i < length (po_writers s) \<and> q = ph else in_phase s j q)"
  "length (po_writers (set_phase i ph s)) = length (po_writers s)"
  "po_lock (set_phase i ph s) = po_lock s" "po_buffer (set_phase i ph s) = po_buffer s" "po_stdout (set_phase i ph s) = po_stdout s"
  by (auto simp: in_phase_def set_phase_def nth_list_update)

lemma phase_frame [simp]:
  "in_phase (s\<lparr>po_lock := l\<rparr>) = in_phase s" "in_phase (s\<lparr>po_buffer := b\<rparr>) = in_phase s" "in_phase (s\<lparr>po_stdout := out\<rparr>) = in_phase s"
  by (intro ext, simp add: in_phase_def)+

lemma phase_append [simp]:
  "in_phase (s\<lparr>po_writers := po_writers s @ [new_writer data]\<rparr>) i ph \<longleftrightarrow>
     in_phase s i ph \<or> i = length (po_writers s) \<and> ph = Locking"
  by (auto simp: in_phase_def nth_append new_writer_def less_Suc_eq)

lemma text_frame [simp]:
  "text_of (set_phase i ph s) = text_of s" "text_of (s\<lparr>po_lock := l\<rparr>) = text_of s" "text_of (s\<lparr>po_buffer := b\<rparr>) = text_of s"
  "text_of (s\<lparr>po_stdout := out\<rparr>) = text_of s"
proof -
  have "text_of (set_phase i ph s) j = text_of s j" for j
    by (cases "i < length (po_writers s)") (simp_all add: text_of_def set_phase_def nth_list_update list_update_beyond)
  then show "text_of (set_phase i ph s) = text_of s" by blast
qed (simp_all add: text_of_def fun_eq_iff)

lemma text_append:
  "i < length (po_writers s) \<Longrightarrow> text_of (s\<lparr>po_writers := po_writers s @ [wr]\<rparr>) i = text_of s i"
  "text_of (s\<lparr>po_writers := po_writers s @ [new_writer data]\<rparr>) (length (po_writers s)) = data"
  by (simp_all add: text_of_def nth_append new_writer_def)

lemma write_resp_Ok: "write_resp p resp = Ok data \<longleftrightarrow> (\<exists>t. response_to_string p resp = Ok t \<and> data = t @ [newline])"
  by (auto simp: write_resp_def newline_def split: result.splits)

lemma in_phase_length: "in_phase s i ph \<Longrightarrow> i < length (po_writers s)"
  by (simp add: in_phase_def)

lemma in_phase_unique: "in_phase s i a \<Longrightarrow> in_phase s i b \<Longrightarrow> a = b"
  by (simp add: in_phase_def)


text \<open>No failure is forgotten, and nothing else is ever written.\<close>

lemma failure_stays:
  assumes failed: "in_phase s i WriteFailed" and "write_step p s s'"
  shows "in_phase s' i WriteFailed"
proof -
  have other: "j \<noteq> i" if "in_phase s j ph" "ph \<noteq> WriteFailed" for j ph
    using failed that in_phase_unique by blast
  from assms(2) show ?thesis
    by cases (use failed in \<open>auto simp: in_phase_length dest: other\<close>)
qed

lemma origin_step:
  assumes "origin p s" "write_step p s s'"
  shows "origin p s'"
  using assms(2)
proof cases
  case (respond resp data)
  then have "may_write p (length (po_writers s)) data" by (auto simp: may_write_def dest: in_phase_length)
  with respond assms(1) show ?thesis by (auto simp: origin_def less_Suc_eq text_append)
qed (use assms(1) in \<open>auto simp: origin_def\<close>)

lemma inv_writing:
  assumes "out_inv s fin gone" "in_phase s i (Writing rem)"
  shows "po_lock s = Some i" "text_of s i = gone @ po_buffer s @ rem"
proof -
  show "po_lock s = Some i" using assms by (fastforce simp: out_inv_def)
  with assms have "holding s i (gone @ po_buffer s)" by (simp add: out_inv_def)
  then show "text_of s i = gone @ po_buffer s @ rem"
    using in_phase_unique[OF assms(2)] by (auto simp: holding_def)
qed

lemma inv_flushing:
  assumes "out_inv s fin gone" "in_phase s i Flushing"
  shows "po_lock s = Some i" "text_of s i = gone @ po_buffer s"
proof -
  show "po_lock s = Some i" using assms by (fastforce simp: out_inv_def)
  with assms have "holding s i (gone @ po_buffer s)" by (simp add: out_inv_def)
  then show "text_of s i = gone @ po_buffer s"
    using in_phase_unique[OF assms(2)] by (auto simp: holding_def)
qed

lemma inv_step:
  assumes inv: "out_inv s fin gone" and step: "write_step p s s'" and ok: "\<And>i. \<not> in_phase s' i WriteFailed"
  shows "\<exists>fin' gone'. out_inv s' fin' gone'"
  using step
proof cases
  case (respond resp data)
  then have "fin \<noteq> []" using inv by (auto simp: out_inv_def dest: in_phase_length)
  moreover have txt_ok: "text_of s' i = text_of s i" if "in_phase s i ph" for i ph
    using that by (simp add: respond text_append in_phase_length)
  have "concat (map (text_of s') fin) = concat (map (text_of s) fin)"
    using inv txt_ok by (intro arg_cong[of _ _ concat] map_cong) (auto simp: out_inv_def)
  moreover have "holding s' i taken" if "holding s i taken" for i taken
    using that txt_ok by (auto simp: holding_def respond)
  ultimately have "out_inv s' fin gone" using inv respond(1) unfolding out_inv_def by (auto dest: in_phase_length)
  then show ?thesis by blast
next
  case (lock i)
  with inv have "out_inv s' fin []"
    by (auto simp: out_inv_def holding_def text_of_def[symmetric] dest: in_phase_length in_phase_unique)
  then show ?thesis by blast
next
  case (hand i piece rem)
  note inv_writing[OF inv hand(2)]
  with inv hand have "out_inv s' fin gone"
    by (auto simp: out_inv_def holding_def dest: in_phase_length in_phase_unique)
  then show ?thesis by blast
next
  case (drain piece rem)
  with inv have "out_inv s' fin (gone @ piece)" by (auto simp: out_inv_def holding_def)
  then show ?thesis by blast
next
  case (flush i)
  note inv_writing[OF inv flush(2)]
  with inv flush have "out_inv s' fin gone"
    by (auto simp: out_inv_def holding_def dest: in_phase_length in_phase_unique)
  then show ?thesis by blast
next
  case (flushed i)
  with inv_flushing[OF inv flushed(2)] inv have i: "po_lock s = Some i" "text_of s i = gone" "i \<notin> set fin"
    by (auto simp: out_inv_def dest: in_phase_unique)
  moreover have "hd (fin @ [i]) = 0" using inv flushed(2) by (cases "fin = []") (auto simp: out_inv_def in_phase_def)
  ultimately have "out_inv s' (fin @ [i]) []"
    using inv flushed by (auto simp: out_inv_def dest: in_phase_length in_phase_unique)
  then show ?thesis by blast
next
  case (fail i rem)
  then show ?thesis using ok[of i] by (auto dest: in_phase_length)
qed

lemma reach_inv:
  "write_reach p s \<Longrightarrow> origin p s \<and> ((\<forall>i. \<not> in_phase s i WriteFailed) \<longrightarrow> (\<exists>fin gone. out_inv s fin gone))"
proof (induction rule: write_reach.induct)
  case fresh
  have "out_inv greeting [] []" by (auto simp: out_inv_def greeting_def plugin_out_new_def new_writer_def in_phase_def)
  moreover have "origin p greeting" by (simp add: origin_def may_write_def greeting_def plugin_out_new_def new_writer_def text_of_def)
  ultimately show ?case by blast
next
  case (more s s')
  then show ?case using inv_step origin_step failure_stays by meson
qed

text \<open>The line of the first writer is the greeting, any other is the JSON of a response.\<close>

definition answer_line :: "('addr, 'c1) plugin_ext \<Rightarrow> nat \<Rightarrow> string \<Rightarrow> bool" where
  "answer_line p i l \<longleftrightarrow> (if i = 0 then l = ''c2 processor ready'' else \<exists>resp. response_to_string p resp = Ok l)"

text \<open>A JSON text has no raw line break: inside strings it is escaped, and \<open>serde_json\<close> prints none between.\<close>

definition json_on_one_line :: "('addr, 'c1) plugin_ext \<Rightarrow> bool" where
  "json_on_one_line p \<longleftrightarrow> (\<forall>resp t. response_to_string p resp = Ok t \<longrightarrow> newline \<notin> set t)"

lemma may_write_line:
  assumes "may_write p i t" and json: "json_on_one_line p"
  shows "one_line t \<and> answer_line p i (butlast t)"
proof (cases "i = 0")
  case False
  with assms(1) obtain resp l where "response_to_string p resp = Ok l" "t = l @ [newline]"
    by (auto simp: may_write_def write_resp_Ok)
  with json False show ?thesis by (auto simp: one_line_def answer_line_def json_on_one_line_def)
qed (use assms(1) greeting_line in \<open>auto simp: may_write_def one_line_def answer_line_def\<close>)

lemma lines_in_order:
  assumes reach: "write_reach p s" and json: "json_on_one_line p"
    and ok: "\<And>i. \<not> in_phase s i WriteFailed"
  shows "\<exists>order. distinct order \<and> complete_lines (po_stdout s) = map (\<lambda>i. butlast (text_of s i)) order \<and>
    (\<forall>i. in_phase s i Written \<longrightarrow> i \<in> set order) \<and> (order \<noteq> [] \<longrightarrow> hd order = 0) \<and>
    (\<forall>i \<in> set order. i < length (po_writers s) \<and> answer_line p i (butlast (text_of s i)))"
proof -
  from reach_inv[OF reach] ok obtain fin gone where inv: "out_inv s fin gone" and "origin p s" by blast
  have txt_ok: "one_line (text_of s i) \<and> answer_line p i (butlast (text_of s i))" if "i < length (po_writers s)" for i
    using that \<open>origin p s\<close> by (intro may_write_line[OF _ json]) (simp add: origin_def)
  have less: "i < length (po_writers s)" if "i \<in> set fin" for i using that inv by (auto simp: out_inv_def dest: in_phase_length)
  have lines: "complete_lines (po_stdout s) = map (\<lambda>i. butlast (text_of s i)) fin @ complete_lines gone"
    using inv less txt_ok lines_concat[of "map (text_of s) fin" gone] by (simp add: out_inv_def comp_def)
  show ?thesis
  proof (cases "complete_lines gone = []")
    case True
    with inv lines less txt_ok show ?thesis by (intro exI[of _ fin]) (auto simp: out_inv_def)
  next
    case False
    then have "gone \<noteq> []" by (auto simp: complete_lines_def)
    with inv obtain i where i: "po_lock s = Some i" "holding s i (gone @ po_buffer s)" by (cases "po_lock s") (auto simp: out_inv_def)
    then have new: "prefix gone (text_of s i)" "i < length (po_writers s)" "i \<notin> set fin"
      using inv by (auto simp: holding_def out_inv_def dest: in_phase_length in_phase_unique)
    moreover from new txt_ok have "complete_lines gone = [butlast (text_of s i)]" using lines_prefix False by blast
    moreover from new inv have "hd (fin @ [i]) = 0" by (cases "fin = []") (auto simp: out_inv_def)
    ultimately show ?thesis using inv lines less txt_ok
      by (intro exI[of _ "fin @ [i]"]) (auto simp: out_inv_def)
  qed
qed

text \<open>C15. However the tasks of the plugin interleave on its one standard output, and whenever one looks at it: as long as
  no write has failed, every complete line there is the greeting, which is the first, or the whole of one response;
  no response appears twice or torn, and one whose writer has returned is there.\<close>

theorem plugin_lines_whole:
  assumes reach: "write_reach p s" and json: "json_on_one_line p"
    and ok: "\<And>i. \<not> in_phase s i WriteFailed"
  shows "\<exists>order. distinct order \<and> complete_lines (po_stdout s) = map (\<lambda>i. butlast (text_of s i)) order \<and>
    (\<forall>i. in_phase s i Written \<longrightarrow> i \<in> set order) \<and> (order \<noteq> [] \<longrightarrow> hd order = 0) \<and>
    (\<forall>i \<in> set order. i < length (po_writers s) \<and> answer_line p i (butlast (text_of s i)))"
  by (rule lines_in_order[OF assms])

text \<open>A step of a writer that is there.\<close>

definition writer_step :: "('addr, 'c1) plugin_ext \<Rightarrow> plugin_out \<Rightarrow> plugin_out \<Rightarrow> bool" where
  "writer_step p s s' \<longleftrightarrow> write_step p s s' \<and> length (po_writers s') = length (po_writers s)"

lemma writer_steps_reach: "(writer_step p)\<^sup>*\<^sup>* s s' \<Longrightarrow> write_reach p s \<Longrightarrow> write_reach p s'"
  by (induction rule: rtranclp_induct) (auto simp: writer_step_def intro: write_reach.more)

text \<open>A writer that finds the lock free and is left alone, and whose writes succeed, puts its text on the output.\<close>

lemma undisturbed_write:
  assumes "in_phase s i Locking" "po_lock s = None" "po_buffer s = []"
  shows "\<exists>s'. (writer_step p)\<^sup>*\<^sup>* s s' \<and> po_lock s' = None \<and> po_buffer s' = [] \<and>
    po_stdout s' = po_stdout s @ text_of s i \<and> length (po_writers s') = length (po_writers s) \<and>
    (\<forall>j ph. in_phase s' j ph \<longleftrightarrow> (if j = i then ph = Written else in_phase s j ph))"
proof -
  have len: "i < length (po_writers s)" using assms(1) by (rule in_phase_length)
  let ?a = "set_phase i (Writing (text_of s i)) (s\<lparr>po_lock := Some i\<rparr>)"
  let ?b = "set_phase i (Writing []) (?a\<lparr>po_buffer := po_buffer ?a @ text_of s i\<rparr>)"
  let ?c = "?b\<lparr>po_buffer := [], po_stdout := po_stdout ?b @ text_of s i\<rparr>"
  let ?d = "set_phase i Flushing ?c"
  let ?e = "set_phase i Written (?d\<lparr>po_lock := None\<rparr>)"
  have "write_step p s ?a" using write_step.lock[OF assms(1,2)] by (simp add: text_of_def)
  moreover have "write_step p ?a ?b" using len by (intro write_step.hand) simp
  moreover have "write_step p ?b ?c" using assms(3) by (intro write_step.drain) simp_all
  moreover have "write_step p ?c ?d" using len by (intro write_step.flush) simp
  moreover have "write_step p ?d ?e" using len by (intro write_step.flushed) simp_all
  ultimately have "writer_step p s ?a" "writer_step p ?a ?b" "writer_step p ?b ?c" "writer_step p ?c ?d" "writer_step p ?d ?e"
    by (simp_all add: writer_step_def)
  then have "(writer_step p)\<^sup>*\<^sup>* s ?e" by (meson converse_rtranclp_into_rtranclp rtranclp.rtrancl_refl)
  with len assms(3) show ?thesis by (intro exI[of _ ?e]) simp
qed

lemma no_newline_in_number: "newline \<notin> set (show_nat n)"
proof (induction n rule: show_nat.induct)
  case (1 n)
  have "digit_char k \<noteq> newline" if "k < 10" for k
    using that by (auto simp: digit_char_def newline_def)
  note ne = this[THEN not_sym]
  from 1 ne show ?case by (subst show_nat.simps) auto
qed

lemma demo_json: "json_on_one_line demo_plugin"
  by (auto simp: json_on_one_line_def demo_plugin_def no_newline_in_number)

lemma greeting_phase: "in_phase greeting i ph \<longleftrightarrow> i = 0 \<and> ph = Locking"
  by (auto simp: in_phase_def greeting_def plugin_out_new_def new_writer_def)

lemma greeting_parts: "po_lock greeting = None" "po_buffer greeting = []" "po_stdout greeting = []" "length (po_writers greeting) = 1"
  "text_of greeting 0 = ready_msg ''c2''"
  by (simp_all add: greeting_def plugin_out_new_def new_writer_def text_of_def)

theorem plugin_lines_whole_witness:
  "\<exists>s. write_reach demo_plugin s \<and> in_phase s 1 Written \<and>
    (\<exists>order. complete_lines (po_stdout s) = map (\<lambda>i. butlast (text_of s i)) order \<and> {0, 1} \<subseteq> set order \<and> hd order = 0)"
proof -
  have g: "in_phase greeting 0 Locking" "po_lock greeting = None" "po_buffer greeting = []"
    by (simp_all add: greeting_phase greeting_parts)
  obtain s where s: "write_reach demo_plugin s" "po_lock s = None" "po_buffer s = []" "length (po_writers s) = 1"
      "\<And>j ph. in_phase s j ph \<longleftrightarrow> (if j = 0 then ph = Written else in_phase greeting j ph)"
    using undisturbed_write[OF g, of demo_plugin] writer_steps_reach[OF _ write_reach.fresh, of demo_plugin] by (auto simp: greeting_parts)
  obtain t where "response_to_string demo_plugin (write_value 7 [1]) = Ok t" by (simp add: demo_plugin_def)
  then have resp: "write_resp demo_plugin (write_value 7 [1]) = Ok (t @ [newline])" by (simp add: write_resp_Ok)
  have "in_phase s 0 Written" using s(5) by simp
  note r = write_reach.more[OF s(1) write_step.respond[OF this resp]]
  let ?r = "s\<lparr>po_writers := po_writers s @ [new_writer (t @ [newline])]\<rparr>"
  have "in_phase ?r 1 Locking" "po_lock ?r = None" "po_buffer ?r = []" using s(2-4) by simp_all
  from undisturbed_write[OF this, of demo_plugin] obtain s' where s': "write_reach demo_plugin s'"
      "\<And>j ph. in_phase s' j ph \<longleftrightarrow> (if j = 1 then ph = Written else in_phase ?r j ph)"
    using writer_steps_reach[OF _ r] by blast
  have ok: "\<not> in_phase s' i WriteFailed" for i using s'(2) s(5) by (simp add: greeting_phase)
  have w: "in_phase s' 0 Written" "in_phase s' 1 Written" using s'(2) s(5) by simp_all
  from plugin_lines_whole[OF s'(1) demo_json ok] obtain order where
    "complete_lines (po_stdout s') = map (\<lambda>i. butlast (text_of s' i)) order" "\<forall>i. in_phase s' i Written \<longrightarrow> i \<in> set order"
    "order \<noteq> [] \<longrightarrow> hd order = 0" by blast
  with s'(1) w show ?thesis by (intro exI[of _ s'] conjI exI[of _ order]) auto
qed

end
