(* ===== verification/Plugin_Lines.thy ===== *)
theory Plugin_Lines
  imports Plugin_System Plugin_Output
begin

text \<open>
  \<open>Plugin_System\<close> and \<open>Plugin_Output\<close> together: the jobs whose answers go to the shared standard output, while the server, its
  workers and other clients go on. An answer of a job is the call of \<open>write_all\<close> with its text; from then on its writer
  takes its steps among those of everything else.
\<close>

section \<open>The whole plugin\<close>

text \<open>\<open>sy_out\<close> are the answers that have been given to a writer. An answer that cannot be turned into JSON is lost (\<open>system\<close>).\<close>

inductive plugin_step ::
  "('addr, 'c1) plugin_ext \<Rightarrow> ('c1 system \<Rightarrow> 'c1 system \<Rightarrow> bool) \<Rightarrow> 'c1 system \<times> plugin_out \<Rightarrow> 'c1 system \<times> plugin_out \<Rightarrow> bool"
  for p sys where
  system: "sys s s' \<Longrightarrow> sy_out s' = sy_out s \<Longrightarrow> plugin_step p sys (s, out) (s', out)"
| respond: "sys s s' \<Longrightarrow> sy_out s' = sy_out s @ [resp] \<Longrightarrow> in_phase out 0 Written \<Longrightarrow> write_resp p resp = Ok data \<Longrightarrow>
     plugin_step p sys (s, out) (s', out\<lparr>po_writers := po_writers out @ [new_writer data]\<rparr>)"
| put: "writer_step p out out' \<Longrightarrow> plugin_step p sys (s, out) (s, out')"

inductive plugin_reach ::
  "('addr, 'c1) plugin_ext \<Rightarrow> ('addr, 'c1) ext \<Rightarrow> env \<Rightarrow> backend \<Rightarrow> platform \<Rightarrow> c2_plugin_cfg \<Rightarrow> 'c1 prover set \<Rightarrow> site list \<Rightarrow>
   (request \<Rightarrow> bool) \<Rightarrow> (string \<Rightarrow> bool) \<Rightarrow> world \<Rightarrow> 'c1 system \<times> plugin_out \<Rightarrow> bool"
  for p x e b pf cfg seals sites allowed lines w0 where
  started: "sys_reach p x e b pf cfg seals sites allowed lines w0 s \<Longrightarrow> sy_out s = [] \<Longrightarrow>
     plugin_reach p x e b pf cfg seals sites allowed lines w0 (s, greeting)"
| onward: "plugin_reach p x e b pf cfg seals sites allowed lines w0 st \<Longrightarrow>
     plugin_step p (sys_step p x e b pf cfg seals sites allowed lines) st st' \<Longrightarrow>
     plugin_reach p x e b pf cfg seals sites allowed lines w0 st'"

section \<open>Each half by itself\<close>

text \<open>The writers but the first have the texts of the answers, in their order.\<close>

definition writes_answers :: "('addr, 'c1) plugin_ext \<Rightarrow> plugin_response list \<Rightarrow> plugin_out \<Rightarrow> bool" where
  "writes_answers p resps out \<longleftrightarrow> length (po_writers out) = Suc (length resps) \<and>
     (\<forall>k < length resps. write_resp p (resps ! k) = Ok (text_of out (Suc k)))"

lemma write_step_texts:
  assumes "writer_step p out out'"
  shows "text_of out' = text_of out"
proof -
  from assms have "write_step p out out'" "length (po_writers out') = length (po_writers out)" by (simp_all add: writer_step_def)
  then show ?thesis by cases simp_all
qed

lemma plugin_reach_halves:
  "plugin_reach p x e b pf cfg seals sites allowed lines w0 st \<Longrightarrow>
   sys_reach p x e b pf cfg seals sites allowed lines w0 (fst st) \<and> write_reach p (snd st) \<and>
   writes_answers p (sy_out (fst st)) (snd st)"
proof (induction rule: plugin_reach.induct)
  case (started s)
  have "length (po_writers greeting) = 1" by (simp add: greeting_def)
  with started show ?case by (simp add: write_reach.fresh writes_answers_def)
next
  case (onward st st')
  from onward.hyps(2) show ?case
  proof cases
    case (system s s' out)
    with onward.IH show ?thesis by (auto intro: sys_reach.further)
  next
    case (respond s s' resp out data)
    have r: "write_reach p (out\<lparr>po_writers := po_writers out @ [new_writer data]\<rparr>)"
      using onward.IH respond write_reach.more write_step.respond by fastforce
    have len: "length (po_writers out) = Suc (length (sy_out s))" and
      "\<forall>k < length (sy_out s). write_resp p (sy_out s ! k) = Ok (text_of out (Suc k))"
      using onward.IH respond by (simp_all add: writes_answers_def)
    moreover have "text_of (out\<lparr>po_writers := po_writers out @ [new_writer data]\<rparr>) (Suc k) = text_of out (Suc k)"
      if "k < length (sy_out s)" for k using that len by (intro text_append(1)) simp
    ultimately have "writes_answers p (sy_out s') (out\<lparr>po_writers := po_writers out @ [new_writer data]\<rparr>)"
      using respond text_append(2)[of out data] by (auto simp: writes_answers_def nth_append less_Suc_eq)
    with r show ?thesis using onward.IH respond by (auto intro: sys_reach.further)
  next
    case (put out out' s)
    with onward.IH write_step_texts[OF put(3)] show ?thesis
      by (auto simp: writes_answers_def writer_step_def intro: write_reach.more)
  qed
qed

section \<open>What the cluster reads\<close>

lemma mset_nths: "distinct is \<Longrightarrow> set is \<subseteq> {..<length xs} \<Longrightarrow> mset (map ((!) xs) is) \<subseteq># mset xs"
proof -
  assume "distinct is" "set is \<subseteq> {..<length xs}"
  then have "mset is \<subseteq># mset [0..<length xs]"
    by (simp add: mset_set_set[symmetric] atLeast0LessThan subset_imp_msubset_mset_set)
  then have "mset (map ((!) xs) is) \<subseteq># mset (map ((!) xs) [0..<length xs])"
    by (simp only: mset_map image_mset_subseteq_mono)
  then show ?thesis by (simp only: map_nth)
qed

text \<open>C28. What the cluster reads from the plugin, at any moment of a whole system in which everything is interleaved, and as long
  as no write has failed: nothing yet, or the greeting and then lines, each of which is the JSON of an answer to a line the
  cluster has sent, with the id of that line and an error or a proof that a run of the prover returned on exactly its parameters;
  and no line sent is answered twice. The JSON of an answer is assumed to hold no newline. The conditions: the server keeps the parameters in
  its database and not in files, every worker reads them inside the server or from it over RPC and none from files, the database
  holds nothing forged at the start, clients submit and read and set states but neither record proofs that are not the task's nor set
  a task to completed, the hashes of what is submitted do not collide, Base64 decodes what it encodes, and the miner
  addresses the plugin writes are read back as the addresses they were.\<close>

theorem cluster_reads_authentic_lines:
  assumes reach: "plugin_reach p x e DbResource pf cfg seals sites allowed lines w0 (s, out)"
    and json: "json_on_one_line p" and ok: "\<And>i. \<not> in_phase out i WriteFailed"
    and free: "collision_free x U" and b64: "\<And>d. b64_decode x (b64_encode x d) = Ok d"
    and readers: "\<forall>s \<in> set sites. st_reader s \<in> {InServer, Outside OverRpc}"
    and clients: "\<And>r. allowed r \<Longrightarrow> authentic_request x seals U r" and init: "authentic_world x seals U w0"
    and mine: "\<And>line req d. lines line \<Longrightarrow> request_from_str p line = Ok req \<Longrightarrow> input_to_vec p (rq_task req) = Ok d \<Longrightarrow>
      (addr_new_id p (in_miner_id (rq_task req)), d) \<in> U \<and>
      addr_from_str x (addr_to_string x (addr_new_id p (in_miner_id (rq_task req)))) = Ok (addr_new_id p (in_miner_id (rq_task req)))"
  shows "complete_lines (po_stdout out) = [] \<or>
    (\<exists>resps. (\<exists>texts. complete_lines (po_stdout out) = ''c2 processor ready'' # texts \<and>
        map (response_to_string p) resps = map Ok texts) \<and>
      (\<forall>resp \<in> set resps. \<exists>line req. lines line \<and> request_from_str p line = Ok req \<and> rs_id resp = rq_id req \<and>
         (rs_err_msg resp = None) = (rs_output resp \<noteq> None) \<and>
         (\<forall>pr. rs_output resp = Some pr \<longrightarrow> (\<exists>d. input_to_vec p (rq_task req) = Ok d \<and> proof_of x seals d pr))) \<and>
      mset (map rs_id resps) \<subseteq># mset (map (\<lambda>j. rq_id (jb_request j)) (sy_jobs s)))"
proof -
  from plugin_reach_halves[OF reach] have halves: "sys_reach p x e DbResource pf cfg seals sites allowed lines w0 s" "write_reach p out"
    "writes_answers p (sy_out s) out" by simp_all
  have answers: "\<forall>resp \<in> set (sy_out s). answer_ok p lines (\<lambda>d pr. proof_of x seals d pr) resp"
    "mset (map rs_id (sy_out s)) \<subseteq># mset (map (\<lambda>j. rq_id (jb_request j)) (sy_jobs s))"
    by (rule conjunct1[OF system_answers[OF halves(1) free b64 readers clients init mine]],
      assumption+, rule conjunct2[OF system_answers[OF halves(1) free b64 readers clients init mine]])
  from lines_in_order[OF halves(2) json ok] obtain order where order: "distinct order"
      "complete_lines (po_stdout out) = map (\<lambda>i. butlast (text_of out i)) order" "order \<noteq> [] \<longrightarrow> hd order = 0"
      "\<forall>i \<in> set order. i < length (po_writers out) \<and> answer_line p i (butlast (text_of out i))" by blast
  show ?thesis
  proof (cases order)
    case (Cons i ks)
    then have ks: "i = 0" "distinct ks" "0 \<notin> set ks" "\<And>k. k \<in> set ks \<Longrightarrow> k < Suc (length (sy_out s))"
      using order halves(3) by (auto simp: writes_answers_def)
    let ?is = "map (\<lambda>k. k - 1) ks"
    let ?resps = "map ((!) (sy_out s)) ?is"
    let ?texts = "map (\<lambda>i. butlast (text_of out i)) ks"
    have idx: "k - 1 < length (sy_out s) \<and> 0 < k" if "k \<in> set ks" for k
      using ks(3) ks(4)[OF that] that by (cases k) auto
    have "inj_on (\<lambda>k. k - 1) (set ks)"
    proof (rule inj_onI)
      fix k l assume "k \<in> set ks" "l \<in> set ks" "k - 1 = l - 1"
      with idx have "0 < k" "0 < l" by blast+
      with \<open>k - 1 = l - 1\<close> show "k = l" by arith
    qed
    then have "distinct ?is" using ks(2) by (simp add: distinct_map)
    moreover have "set ?is \<subseteq> {..<length (sy_out s)}" using idx by fastforce
    ultimately have m: "mset ?resps \<subseteq># mset (sy_out s)" by (rule mset_nths)
    have sub: "mset (map rs_id ?resps) \<subseteq># mset (map rs_id (sy_out s))" "set ?resps \<subseteq> set (sy_out s)"
      using image_mset_subseteq_mono[OF m, of rs_id] idx by (simp_all only: mset_map) (auto intro!: nth_mem)
    have "response_to_string p (sy_out s ! (k - 1)) = Ok (butlast (text_of out k))" if "k \<in> set ks" for k
    proof -
      have "write_resp p (sy_out s ! (k - 1)) = Ok (text_of out k)"
        using idx[OF that] halves(3) by (metis writes_answers_def Suc_diff_1)
      then show ?thesis by (auto simp: write_resp_Ok)
    qed
    then have "map (response_to_string p) ?resps = map Ok ?texts" by simp
    moreover have "complete_lines (po_stdout out) = ''c2 processor ready'' # ?texts"
      using order(2,4) Cons ks(1) by (simp add: answer_line_def)
    moreover have "\<forall>resp \<in> set ?resps. answer_ok p lines (\<lambda>d pr. proof_of x seals d pr) resp" using answers(1) sub(2) by blast
    moreover have "mset (map rs_id ?resps) \<subseteq># mset (map (\<lambda>j. rq_id (jb_request j)) (sy_jobs s))"
      using sub(1) answers(2) by (rule subset_mset.order_trans)
    ultimately show ?thesis unfolding answer_ok_def by blast
  qed (simp add: order(2))
qed


lemma writer_steps_run: "(writer_step p)\<^sup>*\<^sup>* out out' \<Longrightarrow> plugin_reach p x e b pf cfg seals sites allowed lines w0 (s, out) \<Longrightarrow>
    plugin_reach p x e b pf cfg seals sites allowed lines w0 (s, out')"
  by (induction rule: rtranclp_induct) (auto intro: plugin_reach.onward plugin_step.put)


abbreviation demo_plugin_run :: "bytes system \<Rightarrow> plugin_out \<Rightarrow> bool" where
  "demo_plugin_run s out \<equiv> plugin_reach demo_plugin demo_ext quiet DbResource demo_platform demo_cfg demo_seals [] (\<lambda>_. False)
     (\<lambda>l. l = ''job'') done_world (s, out)"

lemma demo_output: "\<exists>s out t. demo_plugin_run s out \<and> (\<forall>i. \<not> in_phase out i WriteFailed) \<and> newline \<notin> set t \<and>
    po_stdout out = ready_msg ''c2'' @ t @ [newline]"
proof -
  obtain s s' where s: "demo_sys [] done_world s" "sy_out s = []" "demo_sys_step [] s s'" "sy_out s' = [write_value 7 [99, 1]]"
    using demo_sys_answer by blast
  have "in_phase greeting 0 Locking" by (simp add: greeting_phase)
  from undisturbed_write[OF this greeting_parts(1,2), of demo_plugin] obtain out where
    out: "(writer_step demo_plugin)\<^sup>*\<^sup>* greeting out" "po_lock out = None" "po_buffer out = []" "po_stdout out = ready_msg ''c2''"
      "length (po_writers out) = 1" "\<And>j ph. in_phase out j ph \<longleftrightarrow> (if j = 0 then ph = Written else in_phase greeting j ph)"
    by (auto simp: greeting_parts)
  obtain t where t: "response_to_string demo_plugin (write_value 7 [99, 1]) = Ok t" by (simp add: demo_plugin_def)
  let ?r = "out\<lparr>po_writers := po_writers out @ [new_writer (t @ [newline])]\<rparr>"
  have "demo_plugin_run s out" using writer_steps_run[OF out(1) plugin_reach.started[OF s(1,2)]] .
  moreover have "plugin_step demo_plugin (demo_sys_step []) (s, out) (s', ?r)"
    using s out(6) t by (intro plugin_step.respond[where resp = "write_value 7 [99, 1]"]) (simp_all add: write_resp_Ok)
  ultimately have r: "demo_plugin_run s' ?r" by (rule plugin_reach.onward)
  have "in_phase ?r 1 Locking" "po_lock ?r = None" "po_buffer ?r = []" using out(2,3,5) by simp_all
  from undisturbed_write[OF this, of demo_plugin] obtain out' where
    out': "(writer_step demo_plugin)\<^sup>*\<^sup>* ?r out'" "po_stdout out' = po_stdout ?r @ text_of ?r 1"
      "\<And>j ph. in_phase out' j ph \<longleftrightarrow> (if j = 1 then ph = Written else in_phase ?r j ph)" by blast
  have "text_of ?r 1 = t @ [newline]" using text_append(2)[of out] out(5) by simp
  then have "po_stdout out' = ready_msg ''c2'' @ t @ [newline]" using out'(2) out(4) by simp
  moreover have "\<not> in_phase out' i WriteFailed" for i using out'(3) out(6) by (simp add: greeting_phase)
  moreover have "newline \<notin> set t" using demo_json t unfolding json_on_one_line_def by blast
  ultimately show ?thesis using writer_steps_run[OF out'(1) r] by blast
qed

theorem cluster_reads_authentic_lines_witness:
  "\<exists>s out t. demo_plugin_run s out \<and> complete_lines (po_stdout out) = [''c2 processor ready'', t] \<and>
    (\<exists>resp. response_to_string demo_plugin resp = Ok t \<and> rs_id resp = rq_id demo_req)"
proof -
  obtain s out t where run: "demo_plugin_run s out" "\<And>i. \<not> in_phase out i WriteFailed" "newline \<notin> set t"
    "po_stdout out = ready_msg ''c2'' @ t @ [newline]" using demo_output by blast
  have two: "complete_lines (po_stdout out) = [''c2 processor ready'', t]"
    using lines_concat[of "[ready_msg ''c2'', t @ [newline]]" "[]"] run(3,4) greeting_line
    by (simp add: one_line_def lines_open)
  have read: "complete_lines (po_stdout out) = [] \<or>
    (\<exists>resps. (\<exists>texts. complete_lines (po_stdout out) = ''c2 processor ready'' # texts \<and>
        map (response_to_string demo_plugin) resps = map Ok texts) \<and>
      (\<forall>resp \<in> set resps. \<exists>line req. line = ''job'' \<and> request_from_str demo_plugin line = Ok req \<and> rs_id resp = rq_id req \<and>
         (rs_err_msg resp = None) = (rs_output resp \<noteq> None) \<and>
         (\<forall>pr. rs_output resp = Some pr \<longrightarrow> (\<exists>d. input_to_vec demo_plugin (rq_task req) = Ok d \<and> proof_of demo_ext demo_seals d pr))) \<and>
      mset (map rs_id resps) \<subseteq># mset (map (\<lambda>j. rq_id (jb_request j)) (sy_jobs s)))"
    by (rule cluster_reads_authentic_lines[OF run(1) demo_json run(2) demo_collision_free demo_b64 _ _ demo_authentic demo_mine]) simp_all
  have "complete_lines (po_stdout out) \<noteq> []" using two by simp
  from mp[OF iffD1[OF disj_imp read] this] obtain resps texts where
    texts: "complete_lines (po_stdout out) = ''c2 processor ready'' # texts" "map (response_to_string demo_plugin) resps = map Ok texts"
    and ids: "\<And>resp. resp \<in> set resps \<Longrightarrow> \<exists>req. request_from_str demo_plugin ''job'' = Ok req \<and> rs_id resp = rq_id req"
    by blast
  from texts(1) two have "texts = [t]" by simp
  with texts(2) obtain resp where "resps = [resp]" "response_to_string demo_plugin resp = Ok t" by auto
  moreover from this ids[of resp] have "rs_id resp = rq_id demo_req" by (auto simp: demo_line)
  ultimately show ?thesis using run(1) two by blast
qed

end
