(* ===== verification/Task_Queue.thy ===== *)
theory Task_Queue
  imports Proof_Authenticity
begin

text \<open>
  The task table as an abstract queue: a map from task ids to what matters of a task, with one transition relation
  \<open>queue_step\<close> for the requests, and the proof that every request the server answers, in whatever way, is a step of
  that queue between the queues the task table shows before and after. A reply is \<open>None\<close> when the request failed.
\<close>

section \<open>The queue\<close>

text \<open>What a client of the queue can depend on; the rest of a row is what was submitted and when.\<close>

record qtask =
  q_state :: task_state
  q_worker :: string
  q_proof :: bytes
  q_error :: string
  q_type :: task_type
  q_created :: int

type_synonym queue = "string \<rightharpoonup> qtask"

text \<open>A task as a submission makes it.\<close>

definition fresh_qtask :: "task_type \<Rightarrow> int \<Rightarrow> qtask" where
  "fresh_qtask ty n = \<lparr>q_state = Init, q_worker = [], q_proof = [], q_error = [], q_type = ty, q_created = n\<rparr>"

text \<open>Open, and of a type the worker accepts.\<close>

definition q_todo :: "task_type list option \<Rightarrow> qtask \<Rightarrow> bool" where
  "q_todo types v \<longleftrightarrow> q_state v = Init \<and> (case types of None \<Rightarrow> True | Some ts \<Rightarrow> q_type v \<in> set ts)"

text \<open>The task of a row; a row is displayed when the queue has its task under its id.\<close>

definition view :: "task \<Rightarrow> qtask" where
  "view t = \<lparr>q_state = tk_state t, q_worker = tk_worker_id t, q_proof = tk_proof t, q_error = tk_error_msg t,
     q_type = tk_type t, q_created = tk_create_at t\<rparr>"

lemma view_select [simp]:
  "q_state (view t) = tk_state t" "q_worker (view t) = tk_worker_id t" "q_proof (view t) = tk_proof t"
  "q_error (view t) = tk_error_msg t" "q_type (view t) = tk_type t" "q_created (view t) = tk_create_at t"
  by (simp_all add: view_def)

definition displays :: "queue \<Rightarrow> task \<Rightarrow> bool" where
  "displays q t \<longleftrightarrow> q (tk_id t) = Some (view t)"

text \<open>The requests that do not concern the queue.\<close>

fun elsewhere :: "request \<Rightarrow> bool" where
  "elsewhere (ReportWorkerInfo _ _ _) = True"
| "elsewhere (GetResourceInfo _) = True"
| "elsewhere ListWorker = True"
| "elsewhere (DeleteWorkerByWorkerId _) = True"
| "elsewhere (DeleteWorkerById _) = True"
| "elsewhere (GetWorkerByWorkerId _) = True"
| "elsewhere (GetWorkerById _) = True"
| "elsewhere (GetOfflineWorker _) = True"
| "elsewhere _ = False"

text \<open>A reply that shows exactly the tasks of the queue with a property.\<close>

definition answers :: "queue \<Rightarrow> (qtask \<Rightarrow> bool) \<Rightarrow> task list \<Rightarrow> bool" where
  "answers q P ts \<longleftrightarrow> distinct (map tk_id ts) \<and> (\<forall>t. t \<in> set ts \<longrightarrow> displays q t \<and> P (view t)) \<and>
     (\<forall>i v. q i = Some v \<longrightarrow> P v \<longrightarrow> i \<in> tk_id ` set ts)"

text \<open>What a worker has unfinished, and what an operator's listing selects.\<close>

definition q_held :: "string \<Rightarrow> qtask \<Rightarrow> bool" where
  "q_held wk v \<longleftrightarrow> q_state v = Running \<and> q_worker v = wk"

definition q_selected :: "string option \<Rightarrow> task_state list option \<Rightarrow> qtask \<Rightarrow> bool" where
  "q_selected wo so v \<longleftrightarrow> (case wo of None \<Rightarrow> True | Some wk \<Rightarrow> q_worker v = wk) \<and>
     (case so of None \<Rightarrow> True | Some ss \<Rightarrow> q_state v \<in> set ss)"

text \<open>One request, its reply, the queue before and after.\<close>

inductive queue_step :: "('addr, 'c1) ext \<Rightarrow> request \<Rightarrow> response option \<Rightarrow> queue \<Rightarrow> queue \<Rightarrow> bool" for x where
  failed: "queue_step x r None q q"
| other: "elsewhere r \<Longrightarrow> queue_step x r (Some a) q q"
| submit_new: "submits x r a d \<Longrightarrow> i = gen_task_id x a ty d \<Longrightarrow> q i = None \<Longrightarrow>
     queue_step x r (Some (RString i)) q (q(i \<mapsto> fresh_qtask ty n))"
| submit_known: "submits x r a d \<Longrightarrow> i = gen_task_id x a ty d \<Longrightarrow> q i \<noteq> None \<Longrightarrow>
     queue_step x r (Some (RString i)) q q"
| get: "tk_id t = i \<Longrightarrow> displays q t \<Longrightarrow> queue_step x (GetTask i) (Some (RTask t)) q q"
| fetch: "q i = Some v \<Longrightarrow> q_todo types v \<Longrightarrow> (\<forall>j u. q j = Some u \<longrightarrow> q_todo types u \<longrightarrow> q_created v \<le> q_created u) \<Longrightarrow>
     tk_id t = i \<Longrightarrow> view t = v\<lparr>q_state := Running, q_worker := wk\<rparr> \<Longrightarrow>
     queue_step x (FetchTodo wk types) (Some (RTask t)) q (q(i \<mapsto> view t))"
| uncomplete: "answers q (q_held wk) ts \<Longrightarrow> sorted (map tk_create_at ts) \<Longrightarrow>
     queue_step x (FetchUncomplete wk) (Some (RTasks ts)) q q"
| list: "answers q (q_selected wo so) ts \<Longrightarrow> sorted (map (\<lambda>t. - tk_create_at t) ts) \<Longrightarrow>
     queue_step x (ListTask wo so) (Some (RTasks ts)) q q"
| proof_recorded: "q i = Some v \<Longrightarrow> b64_param x s = Ok p \<Longrightarrow> a = None \<or> a = Some RUnit \<Longrightarrow>
     queue_step x (RecordProof wk i s) a q
       (q(i \<mapsto> v\<lparr>q_state := Completed, q_worker := wk, q_proof := p, q_error := []\<rparr>))"
| error_recorded: "queue_step x (RecordError wk i m) (Some RUnit) q
     (case q i of None \<Rightarrow> q | Some v \<Rightarrow> q(i \<mapsto> v\<lparr>q_state := Error, q_worker := wk, q_error := m\<rparr>))"
| state_set: "queue_step x (UpdateStatusById tids s) (Some RUnit) q
     (\<lambda>i. if i \<in> set tids then map_option (\<lambda>v. v\<lparr>q_state := s\<rparr>) (q i) else q i)"

text \<open>The abstraction.\<close>

definition queue_of :: "world \<Rightarrow> queue" where
  "queue_of w = map_of (map (\<lambda>t. (tk_id t, view t)) (task_tab w))"

section \<open>Rows and the queue\<close>

lemma queue_of_tab: "task_tab w' = task_tab w \<Longrightarrow> queue_of w' = queue_of w"
  by (simp add: queue_of_def)

lemma queue_of_bump [simp]: "queue_of (bump w) = queue_of w"
  by (simp add: queue_of_def)

lemma queue_of_None: "queue_of w i = None \<longleftrightarrow> i \<notin> tk_id ` set (task_tab w)"
  by (force simp: queue_of_def map_of_eq_None_iff)

lemma queue_of_row: "keyed task_tab tk_id w \<Longrightarrow> t \<in> set (task_tab w) \<Longrightarrow> displays (queue_of w) t"
  unfolding displays_def queue_of_def keyed_def by (intro map_of_is_SomeI) (auto simp: comp_def)

lemma queue_of_Some: "queue_of w i = Some v \<Longrightarrow> \<exists>t \<in> set (task_tab w). tk_id t = i \<and> view t = v"
  by (auto simp: queue_of_def dest!: map_of_SomeD)

lemma queue_of_update:
  assumes "\<And>t. tk_id (f t) = tk_id t" "\<And>t. view (f t) = g (view t)"
  shows "queue_of (task_tab_update (update_rows (\<lambda>t. tk_id t \<in> S) f) w) =
    (\<lambda>i. if i \<in> S then map_option g (queue_of w i) else queue_of w i)"
proof
  fix i
  have "map_of (map (\<lambda>t. (tk_id t, view t)) (update_rows (\<lambda>t. tk_id t \<in> S) f ts)) i =
      (if i \<in> S then map_option g (map_of (map (\<lambda>t. (tk_id t, view t)) ts) i) else map_of (map (\<lambda>t. (tk_id t, view t)) ts) i)" for ts
    by (induction ts) (auto simp: assms)
  then show "queue_of (task_tab_update (update_rows (\<lambda>t. tk_id t \<in> S) f) w) i =
      (if i \<in> S then map_option g (queue_of w i) else queue_of w i)" by (simp add: queue_of_def)
qed

lemma queue_of_update_one:
  assumes "\<And>t. tk_id (f t) = tk_id t" "\<And>t. view (f t) = g (view t)"
  shows "queue_of (task_tab_update (update_rows (\<lambda>t. tk_id t = i) f) w) =
    (case queue_of w i of None \<Rightarrow> queue_of w | Some v \<Rightarrow> (queue_of w)(i \<mapsto> g v))"
  using queue_of_update[of f g "{i}" w, OF assms] by (auto simp: fun_eq_iff split: option.split)

lemma queue_of_insert: "tk_id t \<notin> tk_id ` set (task_tab w) \<Longrightarrow> task_tab w' = task_tab w @ [t] \<Longrightarrow>
    queue_of w' = (queue_of w)(tk_id t \<mapsto> view t)"
proof -
  assume new: "tk_id t \<notin> tk_id ` set (task_tab w)" and tab: "task_tab w' = task_tab w @ [t]"
  have "queue_of w' = [tk_id t \<mapsto> view t] ++ queue_of w" by (simp add: queue_of_def tab)
  also have "\<dots> = (queue_of w)(tk_id t \<mapsto> view t)" using new
    by (auto simp: fun_eq_iff map_add_def queue_of_None[symmetric] split: option.split)
  finally show ?thesis .
qed

section \<open>Every request is a step of the queue\<close>

definition reply_of :: "('a, 'e) result \<Rightarrow> 'a option" where
  "reply_of r = (case r of Ok a \<Rightarrow> Some a | _ \<Rightarrow> None)"

lemma reply_of_simps [simp]: "reply_of (Ok a) = Some a" "reply_of (Err m) = None" "reply_of (Panic p) = None"
  by (simp_all add: reply_of_def)

lemma reply_of_not_ok: "\<not> is_ok r \<Longrightarrow> reply_of r = None"
  by (cases r) simp_all

lemma unchanged_step: "\<not> is_ok r \<Longrightarrow> task_tab w' = task_tab w \<Longrightarrow> queue_step x q (reply_of r) (queue_of w) (queue_of w')"
  using queue_step.failed[of x q "queue_of w"] queue_of_tab[of w' w] by (simp add: reply_of_not_ok)

lemma stmt_not_ok:
  "update_many e tab upd P f w = (r, w') \<Longrightarrow> \<not> is_ok r \<Longrightarrow> w' = bump w"
  "insert_row e tab upd key row w = (r', w') \<Longrightarrow> \<not> is_ok r' \<Longrightarrow> w' = bump w"
  by (auto simp: update_many_def insert_row_def sql_def split: option.splits if_splits)

lemma find_bumps:
  "find_one e tab P ob w = (r, w') \<Longrightarrow> w' = bump w"
  "find_all e tab P ob w = (r', w') \<Longrightarrow> w' = bump w"
  "count_rows e tab P w = (r'', w') \<Longrightarrow> w' = bump w"
  by (auto simp: find_one_def find_all_def count_rows_def sql_def split: option.splits)

lemma fetch_bumps: "fetch e i w = (r, w') \<Longrightarrow> w' = bump w"
  by (cases "find_one e task_tab (\<lambda>t. tk_id t = i) (Asc tk_create_at) w")
    (auto simp: fetch_def and_then_def lift_res_def dest!: find_bumps split: result.splits)

lemma has_task_bumps: "has_task e i w = (r, w') \<Longrightarrow> w' = bump w"
  by (cases "count_rows e task_tab (\<lambda>t. tk_id t = i) w")
    (auto simp: has_task_def map_ok_def dest!: find_bumps split: result.splits)

lemma fetch_todo_not_ok: "fetch_one_todo e wk ts w = (r, w') \<Longrightarrow> \<not> is_ok r \<Longrightarrow> task_tab w' = task_tab w"
  unfolding fetch_one_todo_def by (drule transaction_not_ok) simp_all

lemma add_task_not_ok: "db_add_task x e i a ty rid c w = (r, w') \<Longrightarrow> \<not> is_ok r \<Longrightarrow> task_tab w' = task_tab w"
  by (auto simp: db_add_task_def and_then_def lift_res_def now_def ok_def dest!: stmt_not_ok(2) split: result.splits prod.splits)

text \<open>Reading, and failing without a trace in the task table.\<close>

definition same_tasks :: "world \<Rightarrow> world \<Rightarrow> bool" where
  "same_tasks w w' \<longleftrightarrow> task_tab w' = task_tab w"

interpretation sm: world_rel same_tasks
  by unfold_locales (auto simp: same_tasks_def)

definition clean :: "(world, 'a, 'e) prog \<Rightarrow> bool" where
  "clean m \<longleftrightarrow> (\<forall>w r w'. m w = (r, w') \<longrightarrow> \<not> is_ok r \<longrightarrow> same_tasks w w')"

lemma is_ok_maps: "is_ok (res_map_ok g r) = is_ok r" "is_ok (res_map_err h r) = is_ok r"
  by (cases r; simp)+

lemma store_same: "only_store w w' \<Longrightarrow> same_tasks w w'"
  by (simp add: only_store_def same_tasks_def)

lemma workers_same: "only_workers w w' \<Longrightarrow> same_tasks w w'"
  by (simp add: only_workers_def same_tasks_def)

lemma reads_clean: "evolves same_tasks m \<Longrightarrow> clean m"
  by (metis evolves_Ok clean_def)

lemma clean_seq: "evolves same_tasks m \<Longrightarrow> (\<And>a. clean (f a)) \<Longrightarrow> clean (and_then m f)"
  unfolding clean_def and_then_def
  by (auto split: prod.splits result.splits dest: evolves_Ok intro: sm.trans)

lemma clean_last: "clean m \<Longrightarrow> clean (and_then m (\<lambda>_. ok a))"
  unfolding clean_def and_then_def ok_def by (auto split: prod.splits result.splits)

lemma clean_maps: "clean m1 \<Longrightarrow> clean (map_ok g m1)" "clean m2 \<Longrightarrow> clean (map_err h m2)"
    "clean m3 \<Longrightarrow> clean (internal_call_error m3)"
  unfolding clean_def map_ok_def map_err_def internal_call_error_def
  by (auto simp: is_ok_maps split: prod.splits)

lemma task_reads:
  "evolves same_tasks (fetch e i)" "evolves same_tasks (has_task e i)"
  "evolves same_tasks (db_list_task e wo so)" "evolves same_tasks (db_fetch_uncompleted e wk)"
  unfolding task_op_defs by (intro evolve sm.stmts)+

lemma transaction_clean: "clean (transaction e m)"
  unfolding clean_def by (auto simp: same_tasks_def dest: transaction_not_ok)

lemma fetch_todo_clean: "clean (fetch_one_todo e wk ts)"
  unfolding fetch_one_todo_def by (rule transaction_clean)

lemma update_clean: "clean (update_many e tab upd P f)"
  by (auto simp: clean_def same_tasks_def dest!: stmt_not_ok)

lemma insert_clean: "clean (insert_row e tab upd key r)"
  by (auto simp: clean_def same_tasks_def dest!: stmt_not_ok)

lemma add_task_clean: "clean (db_add_task x e i a ty rid c)"
  unfolding db_add_task_def
  by (intro clean_seq clean_last insert_clean; intro evolve sm.stmts)

lemma add_task_inner_clean: "clean (add_task_inner x e b a c ty d)"
proof -
  note store = store_evolves[of same_tasks, OF store_same] task_reads
  have add: "clean (if k then ok () else map_ok (\<lambda>_. ()) (internal_call_error (db_add_task x e i a ty rid c)))" for k i rid
    by (simp add: clean_maps add_task_clean reads_clean sm.pure_rules)
  have put: "evolves same_tasks (if h then ok () else map_ok (\<lambda>_. ()) (internal_call_error (store_resource_info b e i d)))" for h i
    by (intro evolve sm.pure_rules store)
  have look: "evolves same_tasks (map_err g (has_resource b e i))" for g i
    by (intro evolve sm.pure_rules store)
  have known: "evolves same_tasks (map_err g (has_task e i))" for g i
    by (intro evolve sm.pure_rules task_reads)
  show ?thesis unfolding add_task_inner_def Let_def
    by (rule clean_seq[OF look], rule clean_seq[OF put], rule clean_seq[OF known], rule clean_last, rule add)
qed

text \<open>What a submission that succeeds did to the task table.\<close>

lemma add_task_inner_tab:
  assumes run: "add_task_inner x e b addr comment ty d w = (Ok tid, w')"
  shows "tid = gen_task_id x addr ty d \<and> (if tid \<in> tk_id ` set (task_tab w) then task_tab w' = task_tab w
     else \<exists>t n. task_tab w' = task_tab w @ [t] \<and> tk_id t = tid \<and> view t = fresh_qtask ty n)"
proof -
  obtain w2 known w3 where
    a: "if known then w' = w3 else \<exists>k. db_add_task x e (gen_task_id x addr ty d) addr ty (gen_resource_id x d) comment w3 = (Ok k, w')"
    and tid: "tid = gen_task_id x addr ty d" and tab2: "task_tab w2 = task_tab w"
    and w3: "w3 = bump w2" "known \<longleftrightarrow> gen_task_id x addr ty d \<in> tk_id ` set (task_tab w)"
    by (rule add_task_inner_Ok[OF run]) blast
  from a w3 tab2 tid show ?thesis
    by (auto dest!: db_add_task_Ok simp: view_def fresh_qtask_def split: if_splits)
qed

lemma serve_submits:
  assumes "serve x e b r w = (Ok (RString i), w')"
  shows "\<exists>a d ty c. submits x r a d \<and> add_task_inner x e b a c ty d w = (Ok i, w')"
  using assms
proof (cases r)
  case (AddTask m c ty p)
  then show ?thesis using assms
    by (cases ty) (auto simp: prog_Ok_iff lift_res_Ok_iff rpc_add_task_def invalid_params_def)
qed (use assms in \<open>auto simp: prog_Ok_iff lift_res_Ok_iff submit_c2_task_def invalid_params_def\<close>)

lemma submitted_step:
  assumes "serve x e b r w = (Ok (RString i), w')"
  shows "queue_step x r (Some (RString i)) (queue_of w) (queue_of w')"
proof -
  obtain a d ty c where sub: "submits x r a d" and run: "add_task_inner x e b a c ty d w = (Ok i, w')"
    using serve_submits[OF assms] by blast
  note tab = add_task_inner_tab[OF run]
  show ?thesis
  proof (cases "i \<in> tk_id ` set (task_tab w)")
    case True
    then have "queue_of w i \<noteq> None" by (simp add: queue_of_None del: not_None_eq)
    with tab True show ?thesis
      using queue_step.submit_known[OF sub, of i ty "queue_of w"] queue_of_tab[of w' w] by simp
  next
    case False
    with tab obtain t n where t: "task_tab w' = task_tab w @ [t]" "tk_id t = i" "view t = fresh_qtask ty n" by auto
    with False tab show ?thesis
      using queue_step.submit_new[OF sub, of i ty "queue_of w" n] queue_of_insert[of t w w'] by (simp add: queue_of_None)
  qed
qed

lemma serve_elsewhere: "elsewhere r \<Longrightarrow> evolves same_tasks (serve x e b r)"
  by (cases r) (simp_all only: elsewhere.simps serve.simps handler_defs,
    (intro evolve sm.pure_rules store_evolves workers_evolve; simp only: store_same workers_same simp_thms)+)

lemma serve_clean: "\<nexists>wk i s. r = RecordProof wk i s \<Longrightarrow> clean (serve x e b r)"
proof (cases "elsewhere r")
  case True
  then show ?thesis by (simp add: serve_elsewhere reads_clean)
next
  case False
  assume "\<nexists>wk i s. r = RecordProof wk i s"
  with False show ?thesis
    by (cases r) (simp_all add: handler_defs task_reads reads_clean clean_maps fetch_todo_clean update_clean clean_seq
      add_task_inner_clean sm.pure_rules db_update_status_by_id_def db_record_error_def split: task_type.split)
qed
text \<open>Replies that list rows.\<close>

lemma answers_rows:
  assumes key: "keyed task_tab tk_id w" and set: "mset ts = mset (filter P (task_tab w))"
    and P: "\<And>t. P t \<longleftrightarrow> Q (view t)"
  shows "answers (queue_of w) Q ts"
proof -
  have "mset (map tk_id ts) = mset (map tk_id (filter P (task_tab w)))" using set by simp
  moreover have "distinct (map tk_id (filter P (task_tab w)))" using key by (simp add: keyed_def distinct_map_filter)
  ultimately have "distinct (map tk_id ts)" by (metis mset_eq_imp_distinct_iff)
  moreover have rows: "set ts = {t \<in> set (task_tab w). P t}" using set by (metis mset_eq_setD set_filter)
  ultimately show ?thesis unfolding answers_def
    using queue_of_row[OF key] P by (auto dest!: queue_of_Some)
qed

lemma answers_query:
  assumes "keyed task_tab tk_id w" "\<And>t. P t \<longleftrightarrow> Q (view t)"
  shows "answers (queue_of w) Q (query e task_tab P ob (bump w))"
  by (rule answers_rows[OF assms(1), where P = P]) (simp_all add: mset_query assms(2))

lemma record_proof_cases:
  assumes run: "record_proof e b wk i p w = (r, w')"
  shows "(\<not> is_ok r \<and> same_tasks w w') \<or> (i \<in> tk_id ` set (task_tab w) \<and>
    (\<exists>n. task_tab w' = update_rows (\<lambda>t. tk_id t = i) (proof_row wk p n) (task_tab w)))"
proof -
  obtain r1 w1 where f: "fetch e i w = (r1, w1)" by fastforce
  obtain r2 w2 where d: "db_record_proof e wk i p w1 = (r2, w2)" by fastforce
  note f_same = evolves_Ok[OF task_reads(1) f]
  have clean: "clean (db_record_proof e wk i p)"
    unfolding db_record_proof_def by (intro clean_seq clean_maps update_clean) (intro sm.stmts)
  consider (none) "\<not> is_ok r1" | (fault) t where "r1 = Ok t" "\<not> is_ok r2" | (stored) t where "r1 = Ok t" "r2 = Ok ()"
    by (cases r1; cases r2) auto
  then show ?thesis
  proof cases
    case none
    with f_same run f show ?thesis
      by (cases r1) (auto simp: record_proof_def and_then_def internal_call_error_def map_err_def)
  next
    case (fault t)
    with clean d have "same_tasks w1 w2" by (auto simp: clean_def)
    with fault f_same run f d show ?thesis
      by (cases r2) (auto simp: record_proof_def and_then_def internal_call_error_def map_err_def same_tasks_def)
  next
    case (stored t)
    have "task_tab w' = task_tab w2"
      using f d stored run storage_task_tab(3)[of b e "tk_resource_id t" w2]
      by (auto simp: record_proof_def and_then_def internal_call_error_def map_err_def split: prod.splits)
    with fetch_Ok[OF f[unfolded stored(1)]] d stored f_same show ?thesis
      by (auto simp: db_record_proof_Ok_iff same_tasks_def)
  qed
qed

lemma proof_view: "view (proof_row wk p n t) = (view t)\<lparr>q_state := Completed, q_worker := wk, q_proof := p, q_error := []\<rparr>"
  by (simp add: view_def proof_row_def)

lemma record_proof_step:
  assumes run: "serve x e b (RecordProof wk i s) w = (res, w')"
  shows "queue_step x (RecordProof wk i s) (reply_of res) (queue_of w) (queue_of w')"
proof (cases "b64_param x s")
  case (Ok p)
  then obtain r where rp: "record_proof e b wk i p w = (r, w')" and res: "res = res_map_ok (\<lambda>_. RUnit) r"
    using run by (auto simp: and_then_def lift_res_def map_ok_def split: prod.splits)
  from record_proof_cases[OF rp] show ?thesis
  proof (elim disjE conjE exE)
    assume "\<not> is_ok r" "same_tasks w w'"
    then show ?thesis by (intro unchanged_step) (simp_all add: res is_ok_maps same_tasks_def)
  next
    fix n assume i: "i \<in> tk_id ` set (task_tab w)"
      and tab: "task_tab w' = update_rows (\<lambda>t. tk_id t = i) (proof_row wk p n) (task_tab w)"
    from i obtain v where v: "queue_of w i = Some v" by (metis not_Some_eq queue_of_None)
    have "queue_of w' = (queue_of w)(i \<mapsto> v\<lparr>q_state := Completed, q_worker := wk, q_proof := p, q_error := []\<rparr>)"
      using queue_of_tab[of w' "task_tab_update (update_rows (\<lambda>t. tk_id t = i) (proof_row wk p n)) w"] tab v
        queue_of_update_one[of "proof_row wk p n" "\<lambda>v. v\<lparr>q_state := Completed, q_worker := wk, q_proof := p, q_error := []\<rparr>" i w]
      by (simp add: proof_view)
    with queue_step.proof_recorded[of "queue_of w" i v x s p "reply_of res" wk] v Ok show ?thesis
      by (cases r) (simp_all add: res)
  qed
qed (use run in \<open>auto simp: and_then_def lift_res_def intro: queue_step.failed\<close>)

lemma claim_view: "view (claim_row wk n t) = (view t)\<lparr>q_state := Running, q_worker := wk\<rparr>"
  by (simp add: view_def claim_row_def)

lemma error_view: "view (error_row wk m t) = (view t)\<lparr>q_state := Error, q_worker := wk, q_error := m\<rparr>"
  by (simp add: view_def error_row_def)

lemma todo_view: "is_todo types t = q_todo types (view t)"
  by (simp add: is_todo_def q_todo_def split: option.split)

lemma fetch_todo_step:
  assumes key: "keyed task_tab tk_id w" and run: "fetch_one_todo e wk types w = (Ok t, w')"
  shows "queue_step x (FetchTodo wk types) (Some (RTask t)) (queue_of w) (queue_of w')"
proof -
  obtain u n where u: "u \<in> set (task_tab w)" "is_todo types u"
    and least: "\<And>v. v \<in> set (task_tab w) \<Longrightarrow> is_todo types v \<Longrightarrow> tk_create_at u \<le> tk_create_at v"
    and t: "t = claim_row wk n u"
    and tab: "task_tab w' = update_rows (\<lambda>r. tk_id r = tk_id u) (claim_row wk n) (task_tab w)"
    by (rule fetch_one_todo_Ok[OF key run]) blast
  have q: "queue_of w (tk_id u) = Some (view u)" using queue_of_row[OF key u(1)] by (simp add: displays_def)
  have "queue_of w' = (queue_of w)(tk_id u \<mapsto> view t)"
    using queue_of_tab[of w' "task_tab_update (update_rows (\<lambda>t. tk_id t = tk_id u) (claim_row wk n)) w"] tab q
      queue_of_update_one[of "claim_row wk n" "\<lambda>v. v\<lparr>q_state := Running, q_worker := wk\<rparr>" "tk_id u" w]
    by (simp add: claim_view t)
  moreover have "q_created (view u) \<le> q_created v" if "queue_of w j = Some v" "q_todo types v" for j v
    using queue_of_Some[OF that(1)] that(2) least by (auto simp: todo_view)
  ultimately show ?thesis
    using queue_step.fetch[of "queue_of w" "tk_id u" "view u" types t wk x] u(2) q by (simp add: t claim_view todo_view)
qed

lemma other_step:
  assumes "elsewhere r" "serve x e b r w = (Ok a, w')"
  shows "queue_step x r (Some a) (queue_of w) (queue_of w')"
  using queue_step.other[OF assms(1), of x a "queue_of w"] queue_of_tab[of w' w]
    evolves_Ok[OF serve_elsewhere[OF assms(1)] assms(2)] by (simp add: same_tasks_def)

lemma serve_Ok_step:
  assumes key: "keyed task_tab tk_id w" and run: "serve x e b r w = (Ok a, w')"
  shows "queue_step x r (Some a) (queue_of w) (queue_of w')"
proof (cases "elsewhere r")
  case True
  then show ?thesis using run by (rule other_step)
next
  case False
  show ?thesis
  proof (cases r)
    case (SubmitC2Task p m c pr s)
    then obtain i where a: "a = RString i" using serve_shape[OF run] by auto
    show ?thesis unfolding a by (rule submitted_step[OF run[unfolded a]])
  next
    case (AddTask m c ty p)
    then obtain i where a: "a = RString i" using serve_shape[OF run] by auto
    show ?thesis unfolding a by (rule submitted_step[OF run[unfolded a]])
  next
    case (GetTask i)
    with run obtain t where a: "a = RTask t" "fetch e i w = (Ok t, w')"
      by (auto simp: get_task_def map_ok_Ok_iff internal_call_error_Ok)
    from fetch_Ok[OF a(2)] queue_of_row[OF key] queue_of_tab[of w' w] show ?thesis
      using queue_step.get[of t i "queue_of w" x] by (simp add: GetTask a)
  next
    case (FetchTodo wk types)
    with run fetch_todo_step[OF key] show ?thesis
      by (auto simp: fetch_todo_def map_ok_Ok_iff internal_call_error_Ok)
  next
    case (FetchUncomplete wk)
    let ?P = "\<lambda>t. tk_state t = Running \<and> tk_worker_id t = wk"
    from run FetchUncomplete have a: "a = RTasks (query e task_tab ?P (Asc tk_create_at) (bump w))" "w' = bump w"
      by (auto simp: fetch_uncompleted_def map_ok_Ok_iff internal_call_error_Ok db_fetch_uncompleted_def find_all_Ok_iff)
    have "answers (queue_of w) (q_held wk) (query e task_tab ?P (Asc tk_create_at) (bump w))"
      by (rule answers_query[OF key]) (simp add: q_held_def)
    from queue_step.uncomplete[OF this query_Asc_sorted] show ?thesis
      using queue_of_tab[of w' w] by (simp add: FetchUncomplete a)
  next
    case (ListTask wo so)
    let ?P = "\<lambda>t. (case wo of None \<Rightarrow> True | Some w \<Rightarrow> tk_worker_id t = w) \<and>
      (case so of None \<Rightarrow> True | Some ss \<Rightarrow> tk_state t \<in> set ss)"
    from run ListTask have a: "a = RTasks (query e task_tab ?P (Desc tk_create_at) (bump w))" "w' = bump w"
      by (auto simp: list_task_def map_ok_Ok_iff internal_call_error_Ok db_list_task_def find_all_Ok_iff)
    have "answers (queue_of w) (q_selected wo so) (query e task_tab ?P (Desc tk_create_at) (bump w))"
      by (rule answers_query[OF key]) (simp add: q_selected_def split: option.split)
    from queue_step.list[OF this query_Desc_sorted] show ?thesis
      using queue_of_tab[of w' w] by (simp add: ListTask a)
  next
    case (RecordProof wk i s)
    from record_proof_step[OF run[unfolded RecordProof]] show ?thesis by (simp add: RecordProof)
  next
    case (RecordError wk i m)
    with run have a: "a = RUnit"
      "w' = task_tab_update (update_rows (\<lambda>t. tk_id t = i) (error_row wk m)) (bump w)"
      by (auto simp: record_error_def map_ok_Ok_iff internal_call_error_Ok db_record_error_def update_many_Ok_iff)
    have "queue_of w' = (case queue_of w i of None \<Rightarrow> queue_of w
        | Some v \<Rightarrow> (queue_of w)(i \<mapsto> v\<lparr>q_state := Error, q_worker := wk, q_error := m\<rparr>))"
      unfolding a(2) using queue_of_update_one[of "error_row wk m" "\<lambda>v. v\<lparr>q_state := Error, q_worker := wk, q_error := m\<rparr>" i "bump w"]
      by (simp add: error_view split: option.split)
    with queue_step.error_recorded[of x wk i m "queue_of w"] show ?thesis by (simp add: RecordError a)
  next
    case (UpdateStatusById tids s)
    with run have a: "a = RUnit"
      "w' = task_tab_update (update_rows (\<lambda>t. tk_id t \<in> set tids) (\<lambda>t. t\<lparr>tk_state := s\<rparr>)) (bump w)"
      by (auto simp: update_status_by_id_def map_ok_Ok_iff internal_call_error_Ok db_update_status_by_id_def update_many_Ok_iff)
    have "queue_of w' = (\<lambda>i. if i \<in> set tids then map_option (\<lambda>v. v\<lparr>q_state := s\<rparr>) (queue_of w i) else queue_of w i)"
      unfolding a(2) using queue_of_update[of "\<lambda>t. t\<lparr>tk_state := s\<rparr>" "\<lambda>v. v\<lparr>q_state := s\<rparr>" "set tids" "bump w"]
      by (simp add: view_def cong: if_cong)
    with queue_step.state_set[of x tids s "queue_of w"] show ?thesis by (simp add: UpdateStatusById a)
  qed (use False in simp_all)
qed

section \<open>The server implements the queue\<close>

lemma serve_step:
  assumes key: "keyed task_tab tk_id w"
  shows "queue_step x r (reply_of (fst (serve x e b r w))) (queue_of w) (queue_of (snd (serve x e b r w)))"
proof (cases "serve x e b r w")
  case (Pair res w')
  show ?thesis
  proof (cases "is_ok res")
    case True
    then obtain a where "res = Ok a" by (cases res) auto
    with serve_Ok_step[OF key] Pair show ?thesis by simp
  next
    case not_ok: False
    show ?thesis
    proof (cases "\<exists>wk i s. r = RecordProof wk i s")
      case True
      with record_proof_step Pair show ?thesis by fastforce
    next
      case False
      from serve_clean[OF this, of x e b] Pair not_ok have "same_tasks w w'" by (auto simp: clean_def)
      with not_ok Pair unchanged_step[of res w' w] show ?thesis by (simp add: same_tasks_def)
    qed
  qed
qed

text \<open>Sequences of requests, and the replies of the server to them.\<close>

inductive queue_run :: "('addr, 'c1) ext \<Rightarrow> request list \<Rightarrow> response option list \<Rightarrow> queue \<Rightarrow> queue \<Rightarrow> bool" for x where
  idle: "queue_run x [] [] q q"
| served: "queue_step x r a q q' \<Longrightarrow> queue_run x rs rps q' q'' \<Longrightarrow> queue_run x (r # rs) (a # rps) q q''"

fun replies :: "('addr, 'c1) ext \<Rightarrow> env \<Rightarrow> backend \<Rightarrow> request list \<Rightarrow> world \<Rightarrow> response option list" where
  "replies x e b [] w = []"
| "replies x e b (r # rs) w = reply_of (fst (serve x e b r w)) # replies x e b rs (snd (serve x e b r w))"

text \<open>C5. The server implements the queue: for any sequence of requests, on either store and with any
  faults, the replies it gives form a run of the abstract queue from the tasks in the table before to the tasks in the
  table after. Submissions enter a fresh task or find the known one, a fetch takes an oldest open task for the caller,
  listings show exactly the selected tasks in order, a result or an error is written to the named task alone, and a
  request that fails leaves the queue as it was, except that a recorded proof may stay although the clean-up after it failed.\<close>

theorem server_refines_queue:
  assumes "keyed task_tab tk_id w"
  shows "queue_run x rs (replies x e b rs w) (queue_of w) (queue_of (run_requests x e b rs w))"
  using assms
proof (induction rs arbitrary: w)
  case (Cons r rs)
  have "keyed task_tab tk_id (snd (serve x e b r w))"
    using preservesD[OF serve_keyed_tasks Cons.prems] .
  from queue_run.served[OF serve_step[OF Cons.prems] Cons.IH[OF this]] show ?case by simp
qed (simp add: queue_run.idle)

theorem server_refines_queue_witness:
  "queue_run demo_ext [FetchTodo ''w1'' None, GetTask ''nope''] (replies demo_ext quiet DbResource [FetchTodo ''w1'' None, GetTask ''nope''] busy_world)
     (queue_of busy_world) (queue_of (run_requests demo_ext quiet DbResource [FetchTodo ''w1'' None, GetTask ''nope''] busy_world)) \<and>
   map (\<lambda>a. a \<noteq> None) (replies demo_ext quiet DbResource [FetchTodo ''w1'' None, GetTask ''nope''] busy_world) = [True, False]"
proof
  show "map (\<lambda>a. a \<noteq> None) (replies demo_ext quiet DbResource [FetchTodo ''w1'' None, GetTask ''nope''] busy_world) = [True, False]"
    by code_simp
qed (rule server_refines_queue[OF busy_inv(1)])

section \<open>What the queue promises\<close>

definition q_past :: "queue \<Rightarrow> string set" where
  "q_past q = {i. \<exists>v. q i = Some v \<and> Init < q_state v}"

text \<open>The tasks a sequence of replies hands out.\<close>

fun handed :: "request \<Rightarrow> response option \<Rightarrow> string list" where
  "handed (FetchTodo _ _) (Some (RTask t)) = [tk_id t]"
| "handed _ _ = []"

lemma q_past_iff: "i \<in> q_past q \<longleftrightarrow> (\<exists>v. q i = Some v \<and> Init < q_state v)"
  by (simp add: q_past_def)

lemma queue_step_past:
  "queue_step x r a q q' \<Longrightarrow> claim_safe r \<Longrightarrow>
   q_past q \<subseteq> q_past q' \<and> distinct (handed r a) \<and> set (handed r a) \<subseteq> q_past q' - q_past q"
proof (induction rule: queue_step.induct)
  case (fetch q i v types t wk)
  then have "q_state v = Init" "tk_state t = Running" by (auto simp: q_todo_def dest: arg_cong[of _ _ q_state])
  with fetch show ?case by (auto simp: q_past_iff past_Init_iff)
next
  case (submit_new r a d i ty q n)
  then show ?case by (cases r) (auto simp: q_past_iff)
next
  case (submit_known r a d i ty q)
  then show ?case by (cases r) auto
next
  case (other r a q)
  then show ?case by (cases r) auto
qed (auto simp: q_past_iff past_Init_iff split: option.splits)

fun all_handed :: "request list \<Rightarrow> response option list \<Rightarrow> string list" where
  "all_handed (r # rs) (a # rps) = handed r a @ all_handed rs rps"
| "all_handed _ _ = []"

text \<open>A consequence that holds of every queue, and so of the server: as long as nobody sets a task back to open, no task is
  handed out twice, and none that has been past \<open>Init\<close> before.\<close>

lemma queue_hands_out_once:
  "queue_run x rs rps q q' \<Longrightarrow> \<forall>r \<in> set rs. claim_safe r \<Longrightarrow>
   distinct (all_handed rs rps) \<and> set (all_handed rs rps) \<inter> q_past q = {}"
proof (induction rule: queue_run.induct)
  case (served r a q q' rs rps q'')
  then have "claim_safe r" by simp
  with served queue_step_past[OF served.hyps(1)] show ?case by auto
qed simp

end
