(* ===== verification/Wire.thy ===== *)
theory Wire
  imports Task_Results "HOL-Library.Monad_Syntax"
begin

text \<open>
  The values the requests and replies of the service travel as: the parameters of the seventeen methods in the order of
  the trait \<open>ProxyRpc\<close> (\<open>gpuproxy/src/proxy_rpc/rpc.rs\<close>), and the objects of \<open>Task\<close> and \<open>WorkerState\<close> as their derived
  \<open>Serialize\<close> and \<open>Deserialize\<close> make and read them (\<open>entity/src\<close>: camel case names, enums as their \<open>i32\<close> code). Values are
  parsed JSON; the text of JSON is the library's. The typed call \<open>rpc_call\<close> is shown to be what a call over these values does.
\<close>

section \<open>JSON values\<close>

text \<open>A number with a fraction or an exponent, or beyond 64 bits, is a \<open>JFloat\<close>, with its text.\<close>

datatype json =
    JNull
  | JBool bool
  | JInt int
  | JFloat string
  | JStr string
  | JArr "json list"
  | JObj "(string \<times> json) list"

text \<open>Reading a value of a type: a string, an integer of a range, an array, an \<open>Option\<close>.\<close>

definition of_str :: "json \<Rightarrow> string option" where
  "of_str j = (case j of JStr s \<Rightarrow> Some s | _ \<Rightarrow> None)"

definition of_range :: "int \<Rightarrow> int \<Rightarrow> json \<Rightarrow> int option" where
  "of_range lo hi j = (case j of JInt n \<Rightarrow> if lo \<le> n \<and> n < hi then Some n else None | _ \<Rightarrow> None)"

definition of_i64 :: "json \<Rightarrow> int option" where
  "of_i64 = of_range (- (2 ^ 63)) (2 ^ 63)"

definition of_u64 :: "json \<Rightarrow> 64 word option" where
  "of_u64 j = map_option word_of_int (of_range 0 (2 ^ 64) j)"

definition of_u8 :: "json \<Rightarrow> byte option" where
  "of_u8 j = map_option word_of_int (of_range 0 (2 ^ 8) j)"

definition of_i32 :: "json \<Rightarrow> int option" where
  "of_i32 = of_range (- (2 ^ 31)) (2 ^ 31)"

definition of_arr :: "(json \<Rightarrow> 'a option) \<Rightarrow> json \<Rightarrow> 'a list option" where
  "of_arr f j = (case j of JArr js \<Rightarrow> those (map f js) | _ \<Rightarrow> None)"

definition of_opt :: "(json \<Rightarrow> 'a option) \<Rightarrow> json \<Rightarrow> 'a option option" where
  "of_opt f j = (if j = JNull then Some None else map_option Some (f j))"

definition of_unit :: "json \<Rightarrow> unit option" where
  "of_unit j = (if j = JNull then Some () else None)"

text \<open>A \<open>Vec<u8>\<close> is an array of numbers; an absent \<open>Option\<close> is null.\<close>

definition json_bytes :: "bytes \<Rightarrow> json" where
  "json_bytes bs = JArr (map (\<lambda>b. JInt (uint b)) bs)"

definition json_opt :: "('a \<Rightarrow> json) \<Rightarrow> 'a option \<Rightarrow> json" where
  "json_opt f x = (case x of None \<Rightarrow> JNull | Some a \<Rightarrow> f a)"

text \<open>A \<open>ProverId\<close> is an array of exactly 32 bytes.\<close>

definition of_prover_id :: "json \<Rightarrow> bytes option" where
  "of_prover_id j = do { bs \<leftarrow> of_arr of_u8 j; if length bs = 32 then Some bs else None }"

section \<open>The entities\<close>

text \<open>The enums travel as their code.\<close>

definition state_json :: "task_state \<Rightarrow> json" where
  "state_json s = JInt (state_num s)"

definition of_state :: "json \<Rightarrow> task_state option" where
  "of_state j = do { n \<leftarrow> of_i32 j; case state_try_from n of Ok s \<Rightarrow> Some s | _ \<Rightarrow> None }"

definition type_json :: "task_type \<Rightarrow> json" where
  "type_json t = JInt (type_num t)"

definition of_type :: "json \<Rightarrow> task_type option" where
  "of_type j = do { n \<leftarrow> of_i32 j; case type_try_from n of Ok t \<Rightarrow> Some t | _ \<Rightarrow> None }"

text \<open>\<open>rename_all = "camelCase"\<close>.\<close>

fun capitalised :: "bool \<Rightarrow> string \<Rightarrow> string" where
  "capitalised up [] = []"
| "capitalised up (c # s) = (if c = CHR ''_'' then capitalised True s
     else (if up \<and> 97 \<le> (of_char c :: nat) \<and> (of_char c :: nat) \<le> 122 then char_of (of_char c - 32 :: nat) else c) # capitalised False s)"

definition camel_case :: "string \<Rightarrow> string" where
  "camel_case s = capitalised False s"

text \<open>The fields of a struct: from an object, each once, unknown keys ignored; or from an array in their order.\<close>

definition struct_fields :: "string list \<Rightarrow> json \<Rightarrow> json list option" where
  "struct_fields names j = (case j of
     JObj kvs \<Rightarrow> if distinct (filter (\<lambda>k. k \<in> set names) (map fst kvs)) then those (map (map_of kvs) names) else None
   | JArr js \<Rightarrow> if length js = length names then Some js else None
   | _ \<Rightarrow> None)"

definition task_fields :: "string list" where
  "task_fields = map camel_case [''id'', ''miner'', ''resource_id'', ''proof'', ''worker_id'', ''task_type'', ''error_msg'',
     ''comment'', ''state'', ''create_at'', ''start_at'', ''complete_at'']"

definition task_json :: "task \<Rightarrow> json" where
  "task_json t = JObj (zip task_fields [JStr (tk_id t), JStr (tk_miner t), JStr (tk_resource_id t), json_bytes (tk_proof t),
     JStr (tk_worker_id t), type_json (tk_type t), JStr (tk_error_msg t), JStr (tk_comment t), state_json (tk_state t),
     JInt (tk_create_at t), JInt (tk_start_at t), JInt (tk_complete_at t)])"

definition of_task :: "json \<Rightarrow> task option" where
  "of_task j = do {
     fs \<leftarrow> struct_fields task_fields j;
     i \<leftarrow> of_str (fs ! 0); miner \<leftarrow> of_str (fs ! 1); res \<leftarrow> of_str (fs ! 2); proof_arr \<leftarrow> of_arr of_u8 (fs ! 3);
     wk \<leftarrow> of_str (fs ! 4); ty \<leftarrow> of_type (fs ! 5); em \<leftarrow> of_str (fs ! 6); c \<leftarrow> of_str (fs ! 7); st \<leftarrow> of_state (fs ! 8);
     created \<leftarrow> of_i64 (fs ! 9); started \<leftarrow> of_i64 (fs ! 10); completed \<leftarrow> of_i64 (fs ! 11);
     Some \<lparr>tk_id = i, tk_miner = miner, tk_resource_id = res, tk_proof = proof_arr, tk_worker_id = wk, tk_type = ty,
       tk_error_msg = em, tk_comment = c, tk_state = st, tk_create_at = created, tk_start_at = started, tk_complete_at = completed\<rparr> }"

definition worker_fields :: "string list" where
  "worker_fields = map camel_case [''id'', ''worker_id'', ''ips'', ''support_types'', ''update_at'', ''create_at'']"

definition worker_json :: "worker_state \<Rightarrow> json" where
  "worker_json v = JObj (zip worker_fields [JStr (ws_id v), JStr (ws_worker_id v), JStr (ws_ips v), JStr (ws_support_types v),
     JInt (ws_update_at v), JInt (ws_create_at v)])"

definition of_worker :: "json \<Rightarrow> worker_state option" where
  "of_worker j = do {
     fs \<leftarrow> struct_fields worker_fields j;
     i \<leftarrow> of_str (fs ! 0); wk \<leftarrow> of_str (fs ! 1); ips \<leftarrow> of_str (fs ! 2); ty \<leftarrow> of_str (fs ! 3);
     updated \<leftarrow> of_i64 (fs ! 4); created \<leftarrow> of_i64 (fs ! 5);
     Some \<lparr>ws_id = i, ws_worker_id = wk, ws_ips = ips, ws_support_types = ty, ws_update_at = updated, ws_create_at = created\<rparr> }"

section \<open>Requests\<close>

fun request_params :: "request \<Rightarrow> json list" where
  "request_params (SubmitC2Task phase1_output miner comment prover sector) =
     [JStr phase1_output, JStr miner, JStr comment, json_bytes prover, JInt (uint sector)]"
| "request_params (AddTask miner comment ty param) = [JStr miner, JStr comment, type_json ty, JStr param]"
| "request_params (GetTask i) = [JStr i]"
| "request_params (FetchTodo wk types) = [JStr wk, json_opt (\<lambda>ts. JArr (map type_json ts)) types]"
| "request_params (FetchUncomplete wk) = [JStr wk]"
| "request_params (RecordProof wk tid p) = [JStr wk, JStr tid, JStr p]"
| "request_params (RecordError wk tid m) = [JStr wk, JStr tid, JStr m]"
| "request_params (ListTask wo so) = [json_opt JStr wo, json_opt (\<lambda>ss. JArr (map state_json ss)) so]"
| "request_params (UpdateStatusById tids s) = [JArr (map JStr tids), state_json s]"
| "request_params (ReportWorkerInfo wk ips ts) = [JStr wk, JStr ips, JStr ts]"
| "request_params (GetResourceInfo i) = [JStr i]"
| "request_params ListWorker = []"
| "request_params (DeleteWorkerByWorkerId wk) = [JStr wk]"
| "request_params (DeleteWorkerById i) = [JStr i]"
| "request_params (GetWorkerByWorkerId wk) = [JStr wk]"
| "request_params (GetWorkerById i) = [JStr i]"
| "request_params (GetOfflineWorker dur) = [JInt dur]"

text \<open>The next parameter; one of type \<open>Option\<close> may be left out.\<close>

definition param :: "(json \<Rightarrow> 'a option) \<Rightarrow> json list \<Rightarrow> nat \<Rightarrow> 'a option" where
  "param f ps i = (if i < length ps then f (ps ! i) else None)"

definition opt_param :: "(json \<Rightarrow> 'a option) \<Rightarrow> json list \<Rightarrow> nat \<Rightarrow> 'a option option" where
  "opt_param f ps i = (if i < length ps then of_opt f (ps ! i) else Some None)"

text \<open>The server's table of methods.\<close>

definition parse_params :: "string \<Rightarrow> (json list \<Rightarrow> request option) option" where
  "parse_params = map_of [
     (''Proof.SubmitC2Task'', \<lambda>ps. do { p \<leftarrow> param of_str ps 0; miner \<leftarrow> param of_str ps 1; c \<leftarrow> param of_str ps 2;
        prover \<leftarrow> param of_prover_id ps 3; sector \<leftarrow> param of_u64 ps 4; Some (SubmitC2Task p miner c prover sector) }),
     (''Proof.AddTask'', \<lambda>ps. do { miner \<leftarrow> param of_str ps 0; c \<leftarrow> param of_str ps 1; ty \<leftarrow> param of_type ps 2;
        p \<leftarrow> param of_str ps 3; Some (AddTask miner c ty p) }),
     (''Proof.GetTask'', \<lambda>ps. map_option GetTask (param of_str ps 0)),
     (''Proof.FetchTodo'', \<lambda>ps. do { wk \<leftarrow> param of_str ps 0; types \<leftarrow> opt_param (of_arr of_type) ps 1; Some (FetchTodo wk types) }),
     (''Proof.FetchUncomplete'', \<lambda>ps. map_option FetchUncomplete (param of_str ps 0)),
     (''Proof.RecordProof'', \<lambda>ps. do { wk \<leftarrow> param of_str ps 0; tid \<leftarrow> param of_str ps 1; p \<leftarrow> param of_str ps 2;
        Some (RecordProof wk tid p) }),
     (''Proof.RecordError'', \<lambda>ps. do { wk \<leftarrow> param of_str ps 0; tid \<leftarrow> param of_str ps 1; m \<leftarrow> param of_str ps 2;
        Some (RecordError wk tid m) }),
     (''Proof.ListTask'', \<lambda>ps. do { wo \<leftarrow> opt_param of_str ps 0; so \<leftarrow> opt_param (of_arr of_state) ps 1; Some (ListTask wo so) }),
     (''Proof.UpdateStatusById'', \<lambda>ps. do { tids \<leftarrow> param (of_arr of_str) ps 0; s \<leftarrow> param of_state ps 1;
        Some (UpdateStatusById tids s) }),
     (''Proof.ReportWorkerInfo'', \<lambda>ps. do { wk \<leftarrow> param of_str ps 0; ips \<leftarrow> param of_str ps 1; ts \<leftarrow> param of_str ps 2;
        Some (ReportWorkerInfo wk ips ts) }),
     (''Proof.GetResourceInfo'', \<lambda>ps. map_option GetResourceInfo (param of_str ps 0)),
     (''Proof.ListWorker'', \<lambda>ps. Some ListWorker),
     (''Proof.DeleteWorkerByWorkerId'', \<lambda>ps. map_option DeleteWorkerByWorkerId (param of_str ps 0)),
     (''Proof.DeleteWorkerById'', \<lambda>ps. map_option DeleteWorkerById (param of_str ps 0)),
     (''Proof.GetWorkerByWorkerId'', \<lambda>ps. map_option GetWorkerByWorkerId (param of_str ps 0)),
     (''Proof.GetWorkerById'', \<lambda>ps. map_option GetWorkerById (param of_str ps 0)),
     (''Proof.GetOfflineWorker'', \<lambda>ps. map_option GetOfflineWorker (param of_i64 ps 0))]"

datatype refusal = MethodNotFound | ParamsRefused

definition request_of :: "string \<Rightarrow> json list \<Rightarrow> (request, refusal) result" where
  "request_of m ps = (case parse_params m of None \<Rightarrow> Err MethodNotFound
     | Some parse \<Rightarrow> (case parse ps of None \<Rightarrow> Err ParamsRefused | Some r \<Rightarrow> Ok r))"

section \<open>Replies\<close>

fun reply_json :: "response \<Rightarrow> json" where
  "reply_json (RString s) = JStr s"
| "reply_json (RTask t) = task_json t"
| "reply_json (RTasks ts) = JArr (map task_json ts)"
| "reply_json RUnit = JNull"
| "reply_json (RBytes s) = JStr s"
| "reply_json (RWorker v) = worker_json v"
| "reply_json (RWorkers vs) = JArr (map worker_json vs)"

text \<open>What the client reads is fixed by the return type of the method.\<close>

fun reply_of_json :: "request \<Rightarrow> json \<Rightarrow> response option" where
  "reply_of_json (SubmitC2Task _ _ _ _ _) j = map_option RString (of_str j)"
| "reply_of_json (AddTask _ _ _ _) j = map_option RString (of_str j)"
| "reply_of_json (GetTask _) j = map_option RTask (of_task j)"
| "reply_of_json (FetchTodo _ _) j = map_option RTask (of_task j)"
| "reply_of_json (FetchUncomplete _) j = map_option RTasks (of_arr of_task j)"
| "reply_of_json (ListTask _ _) j = map_option RTasks (of_arr of_task j)"
| "reply_of_json (GetResourceInfo _) j = map_option RBytes (of_str j)"
| "reply_of_json ListWorker j = map_option RWorkers (of_arr of_worker j)"
| "reply_of_json (GetOfflineWorker _) j = map_option RWorkers (of_arr of_worker j)"
| "reply_of_json (GetWorkerByWorkerId _) j = map_option RWorker (of_worker j)"
| "reply_of_json (GetWorkerById _) j = map_option RWorker (of_worker j)"
| "reply_of_json _ j = map_option (\<lambda>_. RUnit) (of_unit j)"

section \<open>Round trips\<close>

definition i64_range :: "int \<Rightarrow> bool" where
  "i64_range n \<longleftrightarrow> - (2 ^ 63) \<le> n \<and> n < 2 ^ 63"

fun request_fits :: "request \<Rightarrow> bool" where
  "request_fits (SubmitC2Task _ _ _ prover _) \<longleftrightarrow> length prover = 32"
| "request_fits (GetOfflineWorker dur) \<longleftrightarrow> i64_range dur"
| "request_fits _ \<longleftrightarrow> True"

definition task_fits :: "task \<Rightarrow> bool" where
  "task_fits t \<longleftrightarrow> i64_range (tk_create_at t) \<and> i64_range (tk_start_at t) \<and> i64_range (tk_complete_at t)"

definition worker_fits :: "worker_state \<Rightarrow> bool" where
  "worker_fits v \<longleftrightarrow> i64_range (ws_update_at v) \<and> i64_range (ws_create_at v)"

fun reply_fits :: "response \<Rightarrow> bool" where
  "reply_fits (RTask t) \<longleftrightarrow> task_fits t"
| "reply_fits (RTasks ts) \<longleftrightarrow> list_all task_fits ts"
| "reply_fits (RWorker v) \<longleftrightarrow> worker_fits v"
| "reply_fits (RWorkers vs) \<longleftrightarrow> list_all worker_fits vs"
| "reply_fits _ \<longleftrightarrow> True"

lemma of_str_JStr [simp]: "of_str (JStr s) = Some s"
  by (simp add: of_str_def)

lemma of_i64_JInt [simp]: "i64_range n \<Longrightarrow> of_i64 (JInt n) = Some n"
  by (simp add: of_i64_def of_range_def i64_range_def)

lemma of_u64_JInt [simp]: "of_u64 (JInt (uint w)) = Some w"
  using uint_bounded[of w] by (simp add: of_u64_def of_range_def)

lemma of_u8_JInt [simp]: "of_u8 (JInt (uint b)) = Some b"
  using uint_bounded[of b] by (simp add: of_u8_def of_range_def)

lemma of_state_json [simp]: "of_state (state_json s) = Some s"
  by (cases s) (simp_all add: of_state_def state_json_def of_i32_def of_range_def state_num_def state_try_from_def)

lemma of_type_json [simp]: "of_type (type_json t) = Some t"
  by (cases t) (simp add: of_type_def type_json_def of_i32_def of_range_def type_num_def type_try_from_def)

lemma those_map_Some: "(\<And>a. a \<in> set xs \<Longrightarrow> f a = Some (g a)) \<Longrightarrow> those (map f xs) = Some (map g xs)"
  by (induction xs) auto

lemma of_arr_map [simp]: "(\<And>a. a \<in> set xs \<Longrightarrow> f (g a) = Some a) \<Longrightarrow> of_arr f (JArr (map g xs)) = Some xs"
  using those_map_Some[of xs "f \<circ> g" "\<lambda>a. a"] by (simp add: of_arr_def)

lemma of_bytes_json [simp]: "of_arr of_u8 (json_bytes bs) = Some bs"
  by (simp add: json_bytes_def)

lemma of_opt_json [simp]:
  "(\<And>a. f (g a) = Some a) \<Longrightarrow> (\<And>a. g a \<noteq> JNull) \<Longrightarrow> of_opt f (json_opt g x) = Some x"
  by (cases x) (simp_all add: of_opt_def json_opt_def)

lemma those_map_of_zip:
  assumes "length names = length vs" "distinct names"
  shows "those (map (map_of (zip names vs)) names) = Some vs"
  using assms
proof (induction names vs rule: list_induct2)
  case (Cons n ns v vs)
  then have rest: "map (map_of (zip (n # ns) (v # vs))) ns = map (map_of (zip ns vs)) ns" by auto
  show ?case using Cons unfolding list.map rest by simp
qed simp

lemma struct_fields_zip:
  "length names = length vs \<Longrightarrow> distinct names \<Longrightarrow> struct_fields names (JObj (zip names vs)) = Some vs"
  by (simp add: struct_fields_def those_map_of_zip)

lemma field_names: "task_fields = [''id'', ''miner'', ''resourceId'', ''proof'', ''workerId'', ''taskType'', ''errorMsg'',
     ''comment'', ''state'', ''createAt'', ''startAt'', ''completeAt'']"
  "worker_fields = [''id'', ''workerId'', ''ips'', ''supportTypes'', ''updateAt'', ''createAt'']"
  by code_simp+

lemma of_task_json [simp]: "task_fits t \<Longrightarrow> of_task (task_json t) = Some t"
  by (simp add: of_task_def task_json_def task_fits_def struct_fields_zip field_names nth_Cons' del: zip_Cons_Cons)

lemma of_worker_json [simp]: "worker_fits v \<Longrightarrow> of_worker (worker_json v) = Some v"
  by (simp add: of_worker_def worker_json_def worker_fits_def struct_fields_zip field_names nth_Cons' del: zip_Cons_Cons)

lemma params_read: "param f (j # js) 0 = f j" "param f (j # js) (Suc i) = param f js i"
  "opt_param f (j # js) 0 = of_opt f j" "opt_param f (j # js) (Suc i) = opt_param f js i"
  by (simp_all add: param_def opt_param_def)

lemma request_round_trip: "request_fits r \<Longrightarrow> request_of (method_name r) (request_params r) = Ok r"
  by (cases r; simp add: request_of_def parse_params_def params_read numeral_eq_Suc of_prover_id_def)

lemma reply_round_trip: "reply_shape r a \<Longrightarrow> reply_fits a \<Longrightarrow> reply_of_json r (reply_json a) = Some a"
  by (cases r) (auto simp: of_unit_def list_all_iff)

section \<open>A call over the wire\<close>

text \<open>The server: the first parameter of \<open>SubmitC2Task\<close> is decoded from base64 while the others are still unread.\<close>

definition early_decode :: "('addr, 'c1) ext \<Rightarrow> string \<Rightarrow> json list \<Rightarrow> (unit, rpc_error) result" where
  "early_decode x m ps = (if m = ''Proof.SubmitC2Task''
     then (case param of_str ps 0 of None \<Rightarrow> Ok () | Some s \<Rightarrow> res_map_ok (\<lambda>_. ()) (b64_param x s)) else Ok ())"

definition wire_serve ::
  "(refusal \<Rightarrow> rpc_error) \<Rightarrow> ('addr, 'c1) ext \<Rightarrow> env \<Rightarrow> backend \<Rightarrow> string \<Rightarrow> json list \<Rightarrow> json rpc" where
  "wire_serve refuse x e b m ps =
     and_then (lift_res (early_decode x m ps)) (\<lambda>_.
     case request_of m ps of Ok r \<Rightarrow> map_ok reply_json (serve x e b r) | Err k \<Rightarrow> lift_res (Err (refuse k)) | Panic p \<Rightarrow> lift_res (Panic p))"

definition wire_call ::
  "(refusal \<Rightarrow> rpc_error) \<Rightarrow> (json \<Rightarrow> string) \<Rightarrow> ('addr, 'c1) ext \<Rightarrow> env \<Rightarrow> backend \<Rightarrow> request \<Rightarrow> response db" where
  "wire_call refuse unread x e b r w =
     (let server = wire_serve refuse x e b (method_name r) (request_params r) in
      case net e (tick w) of
        RequestLost m \<Rightarrow> (Err m, bump w)
      | ReplyLost m \<Rightarrow> (Err m, snd (server (bump w)))
      | Delivered \<Rightarrow>
          (case server (bump w) of
             (Ok j, w') \<Rightarrow> (case reply_of_json r j of Some a \<Rightarrow> (Ok a, w') | None \<Rightarrow> (Err (unread j), w'))
           | (Err er, w') \<Rightarrow> (Err (wire_err x er), w')
           | (Panic p, w') \<Rightarrow> (Err (conn_closed e), w')))"

lemma early_decode_serve:
  "and_then (lift_res (early_decode x (method_name r) (request_params r))) (\<lambda>_. map_ok g (serve x e b r)) w = map_ok g (serve x e b r) w"
  by (cases r) (auto simp: early_decode_def params_read and_then_def lift_res_def map_ok_def res_map_ok_def split: result.splits prod.splits)

lemma wire_serve_request:
  "request_fits r \<Longrightarrow> wire_serve refuse x e b (method_name r) (request_params r) = map_ok reply_json (serve x e b r)"
  by (rule ext) (simp add: wire_serve_def request_round_trip early_decode_serve)

text \<open>Time stamps in the tables stay in the range of \<open>i64\<close> when the clock does.\<close>

definition stamps_fit :: "world \<Rightarrow> bool" where
  "stamps_fit w \<longleftrightarrow> list_all task_fits (task_tab w) \<and> list_all worker_fits (ws_tab w)"

interpretation sf: world_rel "\<lambda>w w'. stamps_fit w \<longrightarrow> stamps_fit w'"
  by unfold_locales (auto simp: stamps_fit_def)

text \<open>\<open>Utc::now().timestamp()\<close> is an \<open>i64\<close>.\<close>

definition clock_fits :: "env \<Rightarrow> bool" where
  "clock_fits e \<longleftrightarrow> (\<forall>t. i64_range (clk e t))"

lemma now_seq:
  assumes "clock_fits e" "\<And>n. i64_range n \<Longrightarrow> preserves stamps_fit (f n)"
  shows "preserves stamps_fit (and_then (now e) f)"
proof (rule evolvesI, rule impI)
  fix w assume "stamps_fit w"
  moreover have "stamps_fit (bump w) \<longleftrightarrow> stamps_fit w" by (simp add: stamps_fit_def)
  ultimately show "stamps_fit (snd (and_then (now e) f w))"
    using preservesD[OF assms(2), of "clk e (tick w)" "bump w"] assms(1) by (simp add: and_then_def now_def clock_fits_def)
qed

lemma stamps_update:
  "(\<And>t. task_fits t \<Longrightarrow> task_fits (f t)) \<Longrightarrow> stamps_fit w \<longrightarrow> stamps_fit (task_tab_update (update_rows P f) w)"
  "(\<And>v. worker_fits v \<Longrightarrow> worker_fits (g v)) \<Longrightarrow> stamps_fit w \<longrightarrow> stamps_fit (ws_tab_update (update_rows Q g) w)"
  by (auto simp: stamps_fit_def list_all_iff set_update_rows)

lemma row_fits:
  "i64_range n \<Longrightarrow> task_fits t \<Longrightarrow> task_fits (claim_row wk n t)" "task_fits t \<Longrightarrow> task_fits (error_row wk m t)"
  "i64_range n \<Longrightarrow> task_fits t \<Longrightarrow> task_fits (proof_row wk p n t)" "task_fits t \<Longrightarrow> task_fits (t\<lparr>tk_state := s\<rparr>)"
  by (simp_all add: row_defs task_fits_def)

lemma zero_fits [simp]: "i64_range 0"
  by (simp add: i64_range_def)

lemma task_ops_stamps:
  assumes "clock_fits e"
  shows "preserves stamps_fit (has_task e i)" "preserves stamps_fit (fetch e i)"
    "preserves stamps_fit (db_list_task e wo so)" "preserves stamps_fit (db_fetch_uncompleted e wk)"
    "preserves stamps_fit (db_add_task x e i a ty r c)" "preserves stamps_fit (db_update_status_by_id e tids s)"
    "preserves stamps_fit (fetch_one_todo e wk types)" "preserves stamps_fit (db_record_error e wk i m)"
    "preserves stamps_fit (db_record_proof e wk i p)"
  unfolding task_op_defs
  by (intro now_seq[OF assms] evolve sf.stmts sf.writes stamps_update row_fits; (simp add: stamps_fit_def task_fits_def)?)+

lemma ws_ops_stamps:
  assumes "clock_fits e"
  shows "preserves stamps_fit (db_report_worker_info e wk ips st)" "preserves stamps_fit (db_list_worker e)"
    "preserves stamps_fit (db_delete_worker_by_worker_id e wk)" "preserves stamps_fit (db_delete_worker_by_id e i)"
    "preserves stamps_fit (db_get_worker_by_worker_id e wk)" "preserves stamps_fit (db_get_worker_by_id e i)"
    "preserves stamps_fit (db_get_offline_worker e d)"
  unfolding ws_op_defs db_report_worker_info_def
  by (intro now_seq[OF assms] evolve sf.stmts sf.writes stamps_update; (auto simp: stamps_fit_def worker_fits_def list_all_iff)?)+

lemma store_stamps: "only_store w w' \<Longrightarrow> stamps_fit w \<longrightarrow> stamps_fit w'"
  by (simp add: only_store_def stamps_fit_def)

lemma serve_stamps: "clock_fits e \<Longrightarrow> preserves stamps_fit (serve x e b r)"
  by (rule handlers_evolve, rule sf.world_rel_axioms)
    (auto intro: task_ops_stamps ws_ops_stamps store_evolves[OF store_stamps])

lemma row_of_table:
  "stamps_fit w \<Longrightarrow> t \<in> set (task_tab w) \<Longrightarrow> task_fits t" "stamps_fit w \<Longrightarrow> v \<in> set (ws_tab w) \<Longrightarrow> worker_fits v"
  by (simp_all add: stamps_fit_def list_all_iff)

lemma fetched_fits:
  assumes "clock_fits e" "stamps_fit w" "keyed task_tab tk_id w" "fetch_one_todo e wk types w = (Ok t, w')"
  shows "task_fits t"
proof -
  obtain u n where "u \<in> set (task_tab w)" "t = claim_row wk n u"
    "task_tab w' = update_rows (\<lambda>r. tk_id r = tk_id u) (claim_row wk n) (task_tab w)"
    by (rule fetch_one_todo_Ok[OF assms(3,4)]) blast
  then have "t \<in> set (task_tab w')" by (force simp: set_update_rows)
  moreover have "stamps_fit w'"
    using evolves_Ok[OF task_ops_stamps(7)[OF assms(1)] assms(4)] assms(2) by simp
  ultimately show ?thesis using row_of_table by blast
qed

lemma worker_reads_fit:
  assumes "stamps_fit w"
  shows "db_list_worker e w = (Ok vs, w') \<Longrightarrow> list_all worker_fits vs"
    and "db_get_offline_worker e d w = (Ok vs', w') \<Longrightarrow> list_all worker_fits vs'"
    and "db_get_worker_by_worker_id e wk w = (Ok v, w') \<Longrightarrow> worker_fits v"
    and "db_get_worker_by_id e i w = (Ok v', w') \<Longrightarrow> worker_fits v'"
  using assms by (auto simp: ws_op_defs stmt_Ok_iff Let_def list_all_iff row_of_table dest!: first_query_Some)

lemma task_reads_fit:
  assumes "stamps_fit w"
  shows "db_list_task e wo so w = (Ok ts, w') \<Longrightarrow> list_all task_fits ts"
    and "db_fetch_uncompleted e wk w = (Ok ts', w') \<Longrightarrow> list_all task_fits ts'"
    and "fetch e i w = (Ok t, w') \<Longrightarrow> task_fits t"
  using assms by (auto simp: db_list_task_def db_fetch_uncompleted_def find_all_Ok_iff list_all_iff row_of_table dest!: fetch_Ok)

lemma serve_reply_fits:
  assumes "clock_fits e" "stamps_fit w" "keyed task_tab tk_id w" "serve x e b r w = (Ok a, w')"
  shows "reply_fits a"
  using assms(4) fetched_fits[OF assms(1-3)] worker_reads_fit[OF assms(2)] task_reads_fit[OF assms(2)]
  by (cases r) (auto simp: prog_Ok_iff handler_defs internal_call_error_Ok simp del: split_paired_Ex)

text \<open>C12. A call of the client through the encodings, with the parameters read by the server as its method
  declares them and the reply read by the client as the method's return type, is the typed call of the rest of the model:
  same result and same world, on every path through the network, for requests whose numbers have their width, a clock
  within \<open>i64\<close>, and tables whose stamps are too; and such tables stay so.\<close>

theorem wire_call_is_typed_call:
  assumes fits: "request_fits r" "clock_fits e" "stamps_fit w" and key: "keyed task_tab tk_id w"
  shows "wire_call refuse unread x e b r w = rpc_call x e b r w \<and>
    stamps_fit (snd (rpc_call x e b r w)) \<and> keyed task_tab tk_id (snd (rpc_call x e b r w))"
proof (intro conjI)
  have b: "stamps_fit (bump w)" "keyed task_tab tk_id (bump w)" using fits key by (simp_all add: stamps_fit_def keyed_def)
  have read: "reply_of_json r (reply_json a) = Some a" if "serve x e b r (bump w) = (Ok a, w')" for a w'
    using reply_round_trip[OF serve_shape[OF that] serve_reply_fits[OF fits(2) b that]] .
  show "wire_call refuse unread x e b r w = rpc_call x e b r w"
    by (auto simp: read wire_call_def rpc_call_def wire_serve_request[OF fits(1)] map_ok_def split: delivery.split prod.split result.split)
  show "stamps_fit (snd (rpc_call x e b r w))"
    using preservesD[OF rpc_call_evolves[OF sf.world_rel_axioms serve_stamps[OF fits(2)]] fits(3)] .
  show "keyed task_tab tk_id (snd (rpc_call x e b r w))"
    using preservesD[OF rpc_call_evolves[OF tk.keep.world_rel_axioms serve_keyed_tasks] key] .
qed

definition steady :: env where
  "steady = quiet\<lparr>clk := \<lambda>_. 1000\<rparr>"

theorem wire_call_is_typed_call_witness:
  "\<exists>t w'. wire_call (\<lambda>_. Call (InvalidParams [])) (\<lambda>_. []) demo_ext steady DbResource (FetchTodo ''w1'' (Some [C2])) busy_world = (Ok (RTask t), w') \<and>
     tk_id t = ''t2''"
proof -
  let ?r = "FetchTodo ''w1'' (Some [C2])"
  have "stamps_fit busy_world" by (simp add: stamps_fit_def demo_defs task_fits_def worker_fits_def i64_range_def)
  then have "wire_call (\<lambda>_. Call (InvalidParams [])) (\<lambda>_. []) demo_ext steady DbResource ?r busy_world = rpc_call demo_ext steady DbResource ?r busy_world"
    using wire_call_is_typed_call[OF _ _ _ busy_inv(1), of ?r steady "\<lambda>_. Call (InvalidParams [])" "\<lambda>_. []" demo_ext DbResource]
    by (simp add: clock_fits_def steady_def i64_range_def)
  moreover have "(case fst (rpc_call demo_ext steady DbResource ?r busy_world) of Ok (RTask t) \<Rightarrow> tk_id t = ''t2'' | _ \<Rightarrow> False)"
    by code_simp
  ultimately show ?thesis
    by (cases "rpc_call demo_ext steady DbResource ?r busy_world") (auto split: result.splits response.splits)
qed

text \<open>C13. Every request that fits the types of its parameters is read back from its method name and positional
  parameters as the same request, and every reply of the type of its method is read back as the same reply, rows included,
  proof bytes, states and types as numbers.\<close>

theorem wire_round_trip:
  "(request_fits r \<longrightarrow> request_of (method_name r) (request_params r) = Ok r) \<and>
   (reply_shape r a \<and> reply_fits a \<longrightarrow> reply_of_json r (reply_json a) = Some a)"
  using request_round_trip reply_round_trip by blast

theorem wire_round_trip_witness:
  "request_of ''Proof.SubmitC2Task'' (request_params (SubmitC2Task ''cGhhc2Ux'' ''f01000'' [] (replicate 32 7) (2 ^ 63))) =
     Ok (SubmitC2Task ''cGhhc2Ux'' ''f01000'' [] (replicate 32 7) (2 ^ 63)) \<and>
   reply_of_json (GetTask ''t3'') (reply_json (RTask (mk_task ''t3'' ''r3'' Running ''w1'' 5))) =
     Some (RTask (mk_task ''t3'' ''r3'' Running ''w1'' 5))"
  using wire_round_trip[of "SubmitC2Task ''cGhhc2Ux'' ''f01000'' [] (replicate 32 7) (2 ^ 63)"]
    wire_round_trip[of "GetTask ''t3''" "RTask (mk_task ''t3'' ''r3'' Running ''w1'' 5)"]
  by (simp add: mk_task_def task_fits_def i64_range_def)

text \<open>What else the server accepts and refuses: an optional parameter may be left out, fields of an object may come in any
  order and with others between them; a number that is no state, a missing parameter and an unknown method are refused.\<close>

lemma wire_readings:
  "request_of ''Proof.FetchTodo'' [JStr wk] = Ok (FetchTodo wk None)"
  "request_of ''Proof.UpdateStatusById'' [JArr [], JInt 5] = Err ParamsRefused"
  "request_of ''Proof.GetTask'' [] = Err ParamsRefused"
  "request_of ''Proof.GetTasks'' [JStr i] = Err MethodNotFound"
  "of_worker (JObj [(''ips'', JStr a), (''id'', JStr i), (''extra'', JNull), (''workerId'', JStr wk), (''createAt'', JInt 1),
     (''supportTypes'', JStr []), (''updateAt'', JInt 2)]) =
   Some \<lparr>ws_id = i, ws_worker_id = wk, ws_ips = a, ws_support_types = [], ws_update_at = 2, ws_create_at = 1\<rparr>"
  by (simp_all add: request_of_def parse_params_def param_def opt_param_def of_arr_def of_state_def of_i32_def of_range_def
      state_try_from_def of_worker_def struct_fields_def field_names i64_range_def)

end
