(* ===== verification/Operator_Cli.thy ===== *)
theory Operator_Cli
  imports Service_Config
begin

text \<open>
  The commands an operator types (\<open>gpuproxy/src/cli/tasks.rs\<close>, \<open>worker_states.rs\<close>, \<open>utils.rs\<close>): from the matches
  of the argument parser to calls of the client and the rows that are printed. The layout of the table around the
  rows, the rendering of local times and the parsing of durations belong to libraries (\<open>cli_ext\<close>).
  A character is a byte here, so a string is its UTF-8 encoding.
\<close>

section \<open>Rendering\<close>

datatype local_time = NoTime | SingleTime string | AmbiguousTime string string

record cli_ext =
  timestamp_opt :: "int \<Rightarrow> local_time"
  duration_secs :: "string \<Rightarrow> (int, string) result"

text \<open>What \<open>chrono\<close> says about a timestamp in local time is \<open>timestamp_opt\<close>.\<close>

definition timestamp_to_string :: "cli_ext \<Rightarrow> int \<Rightarrow> string" where
  "timestamp_to_string c tm = (case timestamp_opt c tm of
     NoTime \<Rightarrow> '''' | SingleTime v \<Rightarrow> v | AmbiguousTime v1 v2 \<Rightarrow> v1 @ '', '' @ v2)"

definition is_char_boundary :: "string \<Rightarrow> nat \<Rightarrow> bool" where
  "is_char_boundary s i \<longleftrightarrow> i = 0 \<or> i = length s \<or>
     (i < length s \<and> ((of_char (s ! i) :: nat) < 128 \<or> 192 \<le> (of_char (s ! i) :: nat)))"

text \<open>The slice \<open>msg[..len]\<close> panics inside a character.\<close>

definition short_msg :: "string \<Rightarrow> nat \<Rightarrow> (string, string) result" where
  "short_msg msg len =
     (if length msg > len then
        (if is_char_boundary msg len then Ok (take len msg @ ''...'') else Panic ''byte index is not a char boundary'')
      else Ok msg)"

definition state_to_string :: "task_state \<Rightarrow> string" where
  "state_to_string state = (case state of Undefined \<Rightarrow> ''Undefined'' | Init \<Rightarrow> ''Init'' | Running \<Rightarrow> ''Running''
     | Error \<Rightarrow> ''Error'' | Completed \<Rightarrow> ''Completed'')"

datatype printed = Table "string list" "string list list" | Line string | Nothing

definition task_header :: "string list" where
  "task_header = [''Id'', ''Miner'', ''Type'', ''State'', ''ResourceId'', ''Comment'', ''Err'', ''CreateAt'', ''StartAt'', ''CompleteAt'']"

text \<open>One row of the task table. It is built field by field, so a panic of a field is a panic of the row.\<close>

definition task_record :: "cli_ext \<Rightarrow> task \<Rightarrow> (string list, string) result" where
  "task_record c t =
     res_then (short_msg (tk_comment t) 30) (\<lambda>comment.
     res_map_ok (\<lambda>error_msg. [tk_id t, tk_miner t, task_type_fmt (tk_type t), state_to_string (tk_state t), tk_resource_id t,
         comment, error_msg, timestamp_to_string c (tk_create_at t), timestamp_to_string c (tk_start_at t),
         timestamp_to_string c (tk_complete_at t)]) (short_msg (tk_error_msg t) 20))"

fun push_records :: "('a \<Rightarrow> (string list, string) result) \<Rightarrow> 'a list \<Rightarrow> (string list list, string) result" where
  "push_records f [] = Ok []"
| "push_records f (a # as) = res_then (f a) (\<lambda>r. res_map_ok (Cons r) (push_records f as))"

definition print_task :: "cli_ext \<Rightarrow> task list \<Rightarrow> (printed, string) result" where
  "print_task c tasks = res_map_ok (Table task_header) (push_records (task_record c) tasks)"

definition print_one_task :: "cli_ext \<Rightarrow> task \<Rightarrow> (printed, string) result" where
  "print_one_task c t = Ok (Table [''Name'', ''Value'']
     [[''Id'', tk_id t], [''Miner'', tk_miner t], [''Miner'', tk_miner t], [''Type'', task_type_fmt (tk_type t)],
      [''State'', state_to_string (tk_state t)], [''ResourceId'', tk_resource_id t], [''Comment'', tk_comment t],
      [''Err'', tk_error_msg t], [''CreateAt'', timestamp_to_string c (tk_create_at t)],
      [''StartAt'', timestamp_to_string c (tk_start_at t)], [''CompleteAt'', timestamp_to_string c (tk_complete_at t)]])"

definition worker_record :: "cli_ext \<Rightarrow> worker_state \<Rightarrow> (string list, string) result" where
  "worker_record c v = res_map_ok (\<lambda>ips. [ws_id v, ws_worker_id v, ips, ws_support_types v,
     timestamp_to_string c (ws_create_at v), timestamp_to_string c (ws_update_at v)]) (short_msg (ws_ips v) 20)"

definition print_worker :: "cli_ext \<Rightarrow> worker_state list \<Rightarrow> (printed, string) result" where
  "print_worker c workers = res_map_ok (Table [''Id'', ''WorkerId'', ''IPs'', ''SupportTypes'', ''CreateAt'', ''UpdateAt''])
     (push_records (worker_record c) workers)"

definition print_one_worker :: "cli_ext \<Rightarrow> worker_state \<Rightarrow> (printed, string) result" where
  "print_one_worker c v = Ok (Table [''Name'', ''Value'']
     [[''Id'', ws_id v], [''WorkerId'', ws_worker_id v], [''IPs'', ws_ips v], [''SupportTypes'', ws_support_types v],
      [''CreateAt'', timestamp_to_string c (ws_create_at v)], [''UpdateAt'', timestamp_to_string c (ws_update_at v)]])"

section \<open>Commands\<close>

text \<open>What the parser has found; \<open>am_states\<close> is the list flag of \<open>task list\<close>.\<close>

record arg_matches =
  am_url :: "string option"
  am_id :: "string option"
  am_ids :: "string list option"
  am_state :: "int option"
  am_states :: "int list option"
  am_dur :: "string option"

definition id_argument :: "arg_matches \<Rightarrow> (string, string) result" where
  "id_argument m = (case am_id m of Some i \<Rightarrow> Ok i | None \<Rightarrow> Err ''id argument not found'')"

definition get_task_cmd where
  "get_task_cmd c p x e b m =
     and_then (lift_res (flag ''url'' (am_url m))) (\<lambda>url.
     and_then (lift_res (id_argument m)) (\<lambda>i.
     and_then (lift_res (get_proxy_api p url)) (\<lambda>_.
     and_then (wc_get_task x e b i) (\<lambda>t.
     lift_res (print_one_task c t)))))"

fun unwrap_states :: "int list \<Rightarrow> (task_state list, string) result" where
  "unwrap_states [] = Ok []"
| "unwrap_states (n # ns) = (case state_try_from n of
     Ok s \<Rightarrow> res_map_ok (Cons s) (unwrap_states ns)
   | _ \<Rightarrow> Panic ''called `Result::unwrap()` on an `Err` value'')"

definition list_tasks where
  "list_tasks c p x e b m =
     and_then (lift_res (flag ''url'' (am_url m))) (\<lambda>url.
     and_then (lift_res (case am_states m of Some values \<Rightarrow> res_map_ok Some (unwrap_states values) | None \<Rightarrow> Ok None)) (\<lambda>states.
     and_then (lift_res (get_proxy_api p url)) (\<lambda>_.
     and_then (wc_list_task x e b None states) (\<lambda>tasks.
     lift_res (print_task c tasks)))))"

definition no_discriminant :: "int \<Rightarrow> string" where
  "no_discriminant n = ''No discriminant in enum `TaskState` matches the value `'' @ show_int n @ ''`''"

definition update_status_cmd where
  "update_status_cmd p x e b m =
     and_then (lift_res (flag ''url'' (am_url m))) (\<lambda>url.
     and_then (lift_res (flag ''id'' (am_ids m))) (\<lambda>tids.
     and_then (lift_res (res_then (flag ''state'' (am_state m)) (\<lambda>n. res_map_err no_discriminant (state_try_from n)))) (\<lambda>state.
     and_then (lift_res (get_proxy_api p url)) (\<lambda>_.
     map_ok (\<lambda>_. Line ''update state success'') (wc_update_status_by_id x e b tids state)))))"

definition list_workers where
  "list_workers c p x e b m =
     and_then (lift_res (flag ''url'' (am_url m))) (\<lambda>url.
     and_then (lift_res (get_proxy_api p url)) (\<lambda>_.
     and_then (wc_list_worker x e b) (\<lambda>workers.
     lift_res (print_worker c workers))))"

text \<open>The second look happens only after an error of the first.\<close>

definition or_else_err :: "('s, 'a, 'e) prog \<Rightarrow> ('s, 'a, 'e) prog \<Rightarrow> ('s, 'a, 'e) prog" where
  "or_else_err m1 m2 s = (case m1 s of (Err _, s') \<Rightarrow> m2 s' | r \<Rightarrow> r)"

definition get_worker where
  "get_worker c p x e b m =
     and_then (lift_res (flag ''url'' (am_url m))) (\<lambda>url.
     and_then (lift_res (id_argument m)) (\<lambda>i.
     and_then (lift_res (get_proxy_api p url)) (\<lambda>_.
     and_then (map_err (\<lambda>er. ''maybe '' @ i @ '' is not id or worker id '' @ er)
       (or_else_err (wc_get_worker_by_id x e b i) (wc_get_worker_by_worker_id x e b i))) (\<lambda>v.
     lift_res (print_one_worker c v)))))"

definition delete_worker where
  "delete_worker p x e b m =
     and_then (lift_res (flag ''url'' (am_url m))) (\<lambda>url.
     and_then (lift_res (id_argument m)) (\<lambda>i.
     and_then (lift_res (get_proxy_api p url)) (\<lambda>_.
     and_then (wc_delete_worker_by_id x e b i) (\<lambda>_.
     and_then (wc_delete_worker_by_worker_id x e b i) (\<lambda>_.
     ok Nothing)))))"

text \<open>The cast \<open>as_secs() as i64\<close>.\<close>

definition as_i64 :: "int \<Rightarrow> int" where
  "as_i64 n = sint (word_of_int n :: 64 word)"

definition offline_workers_cmd where
  "offline_workers_cmd c p x e b m =
     and_then (lift_res (flag ''url'' (am_url m))) (\<lambda>url.
     and_then (lift_res (flag ''dur'' (am_dur m))) (\<lambda>dur_str.
     and_then (lift_res (res_map_ok as_i64 (duration_secs c dur_str))) (\<lambda>offline_check_point.
     and_then (lift_res (get_proxy_api p url)) (\<lambda>_.
     and_then (wc_get_offline_worker x e b offline_check_point) (\<lambda>workers.
     lift_res (print_worker c workers))))))"

definition tasks_command where
  "tasks_command c p x e b sub = (case sub of
     Some (name, m) \<Rightarrow>
       if name = ''list'' then list_tasks c p x e b m
       else if name = ''update-state'' then update_status_cmd p x e b m
       else if name = ''get'' then get_task_cmd c p x e b m
       else err ''command not found''
   | None \<Rightarrow> err ''command not found'')"

definition worker_command where
  "worker_command c p x e b sub = (case sub of
     Some (name, m) \<Rightarrow>
       if name = ''list'' then list_workers c p x e b m
       else if name = ''get'' then get_worker c p x e b m
       else if name = ''delete'' then delete_worker p x e b m
       else if name = ''offline'' then offline_workers_cmd c p x e b m
       else err ''command not found''
   | None \<Rightarrow> err ''command not found'')"

section \<open>Lists of tasks\<close>

text \<open>Texts that survive being shortened.\<close>

definition cuttable :: "string \<Rightarrow> nat \<Rightarrow> bool" where
  "cuttable s n \<longleftrightarrow> length s \<le> n \<or> is_char_boundary s n"

definition shortened :: "string \<Rightarrow> nat \<Rightarrow> string" where
  "shortened s n = (if length s \<le> n then s else take n s @ ''...'')"

lemma short_msg_cuttable: "short_msg s n = (if cuttable s n then Ok (shortened s n) else Panic ''byte index is not a char boundary'')"
  by (simp add: short_msg_def cuttable_def shortened_def)

lemma shortened_bounds: "length (shortened s n) \<le> n + 3" "prefix (take n s) (shortened s n)"
  by (auto simp: shortened_def)

definition ascii :: "string \<Rightarrow> bool" where
  "ascii s \<longleftrightarrow> (\<forall>c\<in>set s. (of_char c :: nat) < 128)"

lemma ascii_cuttable: "ascii s \<Longrightarrow> cuttable s n"
  by (auto simp: ascii_def cuttable_def is_char_boundary_def not_le)

definition listable :: "task \<Rightarrow> bool" where
  "listable t \<longleftrightarrow> cuttable (tk_comment t) 30 \<and> cuttable (tk_error_msg t) 20"

definition task_row :: "cli_ext \<Rightarrow> task \<Rightarrow> string list" where
  "task_row c t = [tk_id t, tk_miner t, task_type_fmt (tk_type t), state_to_string (tk_state t), tk_resource_id t,
     shortened (tk_comment t) 30, shortened (tk_error_msg t) 20, timestamp_to_string c (tk_create_at t),
     timestamp_to_string c (tk_start_at t), timestamp_to_string c (tk_complete_at t)]"

lemma print_task_listable:
  "print_task c ts = (if \<forall>t\<in>set ts. listable t then Ok (Table task_header (map (task_row c) ts))
     else Panic ''byte index is not a char boundary'')"
proof -
  have rec: "task_record c t = (if listable t then Ok (task_row c t) else Panic ''byte index is not a char boundary'')" for t
    by (auto simp: task_record_def listable_def task_row_def short_msg_cuttable res_then_def res_map_ok_def)
  have "push_records (task_record c) ts = (if \<forall>t\<in>set ts. listable t then Ok (map (task_row c) ts)
     else Panic ''byte index is not a char boundary'')"
    by (induction ts) (auto simp: res_then_def rec)
  then show ?thesis by (simp add: print_task_def)
qed

text \<open>\<open>gpuproxy task list\<close> prints one row per task of the table, newest first, with comment and error
  shortened to 30 and 20 bytes, if every text may be cut there; a single task whose comment or error has a character
  of several bytes across that position makes the command panic and nothing is listed. ASCII texts are always listed.\<close>

theorem task_listing:
  assumes args: "am_url m = Some url" "am_states m = None" "get_proxy_api p url = Ok u"
    and reply: "wc_list_task x e b None None w = (Ok ts, w')"
  shows "list_tasks c p x e b m w =
      (if \<forall>t\<in>set ts. listable t then (Ok (Table task_header (map (task_row c) ts)), w')
       else (Panic ''byte index is not a char boundary'', w')) \<and>
    ((\<forall>t\<in>set ts. ascii (tk_comment t) \<and> ascii (tk_error_msg t)) \<longrightarrow> (\<forall>t\<in>set ts. listable t)) \<and>
    mset ts = mset (task_tab w) \<and> sorted_wrt (\<lambda>s t. tk_create_at s \<ge> tk_create_at t) ts"
proof -
  have ts: "ts = query e task_tab (\<lambda>t. True) (Desc tk_create_at) (bump (bump w))"
    using reply by (auto simp: wc_list_task_def and_then_Ok_iff expect_Ok rpc_call_def list_task_def internal_call_error_Ok db_list_task_def
        find_all_Ok_iff map_ok_Ok_iff split: delivery.splits result.splits prod.splits)
  have "sorted (map (\<lambda>t. - tk_create_at t) ts)" unfolding ts by (rule query_Desc_sorted)
  then have "sorted_wrt (\<lambda>s t. tk_create_at s \<ge> tk_create_at t) ts" by (simp add: sorted_map)
  moreover have "mset ts = mset (task_tab w)" by (simp add: ts mset_query)
  moreover have "list_tasks c p x e b m w =
      (if \<forall>t\<in>set ts. listable t then (Ok (Table task_header (map (task_row c) ts)), w')
       else (Panic ''byte index is not a char boundary'', w'))"
    using args reply by (simp add: list_tasks_def flag_def and_then_def lift_res_def print_task_listable)
  ultimately show ?thesis by (auto simp: listable_def ascii_cuttable)
qed

section \<open>State codes\<close>

text \<open>The codes 0 to 4 are the only states the commands know. \<open>update-state\<close> refuses any other code before it
  sends anything and otherwise sets exactly the tasks named; \<open>list\<close> panics on such a code.\<close>

theorem state_codes:
  assumes args: "am_url m = Some url" "get_proxy_api p url = Ok u"
    and upd: "am_ids m = Some tids" "am_state m = Some n" and lst: "am_states m = Some ns"
  shows "(n \<notin> {0..4} \<longrightarrow> update_status_cmd p x e b m w = (Err (no_discriminant n), w)) \<and>
    (update_status_cmd p x e b m w = (Ok out, w') \<longrightarrow>
       (\<exists>st. n = state_num st \<and> only_tasks w w' \<and>
         task_tab w' = map (\<lambda>t. if tk_id t \<in> set tids then t\<lparr>tk_state := st\<rparr> else t) (task_tab w))) \<and>
    (\<not> set ns \<subseteq> {0..4} \<longrightarrow> (\<exists>msg. list_tasks c p x e b m w = (Panic msg, w)))"
proof (intro conjI impI)
  have bad: "state_try_from k = Err k" if "k \<notin> {0..4}" for k using that by (auto simp: state_try_from_def)
  show "update_status_cmd p x e b m w = (Err (no_discriminant n), w)" if "n \<notin> {0..4}"
    using args upd bad[OF that] by (simp add: update_status_cmd_def flag_def and_then_def lift_res_def res_then_def)
  show "\<exists>msg. list_tasks c p x e b m w = (Panic msg, w)" if "\<not> set ns \<subseteq> {0..4}"
  proof -
    have "unwrap_states ns = Panic ''called `Result::unwrap()` on an `Err` value''"
      using that by (induction ns) (auto simp: bad state_try_from_def)
    with args lst show ?thesis by (simp add: list_tasks_def flag_def and_then_def lift_res_def)
  qed
  assume run: "update_status_cmd p x e b m w = (Ok out, w')"
  then obtain st where st: "state_try_from n = Ok st" and "\<exists>k. wc_update_status_by_id x e b tids st w = (Ok k, w')"
    using args upd by (auto simp: update_status_cmd_def flag_def prog_Ok_iff lift_res_Ok_iff res_then_Ok res_map_err_eq_Ok)
  then obtain k where "db_update_status_by_id e tids st (bump w) = (Ok k, w')"
    by (auto simp: wc_update_status_by_id_def and_then_Ok_iff rpc_call_def update_status_by_id_def internal_call_error_Ok
        expect_unit_def map_ok_Ok_iff ok_Ok_iff split: delivery.splits result.splits prod.splits response.splits)
  then have "task_tab w' = map (\<lambda>t. if tk_id t \<in> set tids then t\<lparr>tk_state := st\<rparr> else t) (task_tab w)" "only_tasks w w'"
    by (auto simp: db_update_status_by_id_def stmt_Ok_iff update_rows_def only_tasks_def)
  moreover have "n = state_num st"
    using st by (auto simp: state_try_from_def state_num_def split: if_splits)
  ultimately show "\<exists>st. n = state_num st \<and> only_tasks w w' \<and>
         task_tab w' = map (\<lambda>t. if tk_id t \<in> set tids then t\<lparr>tk_state := st\<rparr> else t) (task_tab w)" by blast
qed

section \<open>Workers\<close>

lemma expect_worker_Ok: "expect_worker r w = (Ok v, w') \<longleftrightarrow> r = RWorker v \<and> w' = w"
  by (cases r; auto simp: expect_worker_def bad_reply_def ok_def lift_res_def)

lemma expect_unit_Ok: "expect_unit r w = (Ok u, w') \<longleftrightarrow> r = RUnit \<and> w' = w"
  by (cases r; auto simp: expect_unit_def bad_reply_def ok_def lift_res_def)

definition reliable :: "env \<Rightarrow> bool" where
  "reliable e \<longleftrightarrow> (\<forall>t. db_fault e t = None \<and> net e t = Delivered)"

lemma find_one_reliable:
  "reliable e \<Longrightarrow> find_one e tab P ob w = (Ok (first_row (query e tab P ob (bump w))), bump w)"
  by (simp add: find_one_def sql_def reliable_def)

lemma worker_lookup:
  assumes "reliable e"
  shows "wc_get_worker_by_id x e b i w =
      (case first_row (query e ws_tab (\<lambda>r. ws_id r = i) NoOrder (bump (bump w))) of
         Some v \<Rightarrow> Ok v | None \<Rightarrow> Err (wire_err x (Call (Failed (''not found '' @ i)))), bump (bump w))"
    and "wc_get_worker_by_worker_id x e b i w =
      (case first_row (query e ws_tab (\<lambda>r. ws_worker_id r = i) NoOrder (bump (bump w))) of
         Some v \<Rightarrow> Ok v | None \<Rightarrow> Err (wire_err x (Call (Failed (''not found '' @ i @ ''worker id'')))), bump (bump w))"
  using assms unfolding wc_get_worker_by_id_def wc_get_worker_by_worker_id_def rpc_call_def
  by (auto simp: reliable_def and_then_def get_worker_by_id_def get_worker_by_worker_id_def
      db_get_worker_by_id_def db_get_worker_by_worker_id_def find_one_reliable[OF assms] map_ok_def map_err_def
      lift_res_def if_not_found_def internal_call_error_def expect_worker_def ok_def simp del: first_row_None split: option.splits)

text \<open>Over a reliable network \<open>worker get\<close> shows a worker whose row id is the argument if there is one, else
  one that reports under this worker id, else it answers with an error; it changes nothing.\<close>

lemma worker_found_by_either_id:
  assumes args: "am_url m = Some url" "am_id m = Some i" "get_proxy_api p url = Ok u" and rel: "reliable e"
    and run: "get_worker c p x e b m w = (r, w')"
  shows "ws_tab w' = ws_tab w \<and>
    (if \<exists>v\<in>set (ws_tab w). ws_id v = i then \<exists>v\<in>set (ws_tab w). ws_id v = i \<and> r = print_one_worker c v
     else if \<exists>v\<in>set (ws_tab w). ws_worker_id v = i then \<exists>v\<in>set (ws_tab w). ws_worker_id v = i \<and> r = print_one_worker c v
     else \<exists>msg. r = Err (''maybe '' @ i @ '' is not id or worker id '' @ msg))"
proof -
  let ?q1 = "first_row (query e ws_tab (\<lambda>r. ws_id r = i) NoOrder (bump (bump w)))"
  let ?w1 = "bump (bump w)"
  let ?q2 = "first_row (query e ws_tab (\<lambda>r. ws_worker_id r = i) NoOrder (bump (bump ?w1)))"
  have r: "(r, w') = (case ?q1 of Some v \<Rightarrow> (print_one_worker c v, ?w1) | None \<Rightarrow>
      (case ?q2 of Some v \<Rightarrow> (print_one_worker c v, bump (bump ?w1))
       | None \<Rightarrow> (Err (''maybe '' @ i @ '' is not id or worker id '' @ wire_err x (Call (Failed (''not found '' @ i @ ''worker id'')))), bump (bump ?w1))))"
    unfolding run[symmetric] get_worker_def
    using args by (simp add: flag_def id_argument_def and_then_def lift_res_def or_else_err_def map_err_def worker_lookup[OF rel]
        del: first_row_None split: option.split)
  show ?thesis
  proof (cases ?q1)
    case (Some v)
    from first_query_Some[OF this] have "v \<in> set (ws_tab w)" "ws_id v = i" by auto
    with r Some show ?thesis by auto
  next
    case None
    then have none: "\<not> (\<exists>v\<in>set (ws_tab w). ws_id v = i)" by simp
    show ?thesis
    proof (cases ?q2)
      case (Some v)
      from first_query_Some[OF this] have "v \<in> set (ws_tab w)" "ws_worker_id v = i" by auto
      with r Some None none show ?thesis by (auto simp del: first_row_None)
    next
      case None2: None
      then have "\<not> (\<exists>v\<in>set (ws_tab w). ws_worker_id v = i)" by simp
      with r None None2 none show ?thesis by (auto simp del: first_row_None)
    qed
  qed
qed

definition keeps_others :: "string \<Rightarrow> world \<Rightarrow> world \<Rightarrow> bool" where
  "keeps_others i w w' \<longleftrightarrow> only_workers w w' \<and> set (ws_tab w') \<subseteq> set (ws_tab w) \<and>
     filter (\<lambda>v. ws_id v \<noteq> i \<and> ws_worker_id v \<noteq> i) (ws_tab w') = filter (\<lambda>v. ws_id v \<noteq> i \<and> ws_worker_id v \<noteq> i) (ws_tab w)"

lemma db_deletes_keep_others:
  "evolves (keeps_others i) (db_delete_worker_by_id e i)" "evolves (keeps_others i) (db_delete_worker_by_worker_id e i)"
  by (auto simp: evolves_def keeps_others_def only_workers_def db_delete_worker_by_id_def db_delete_worker_by_worker_id_def
      delete_many_def snd_sql filter_filter conj_ac intro!: filter_cong)

interpretation ko: world_rel "keeps_others i" for i
  by unfold_locales (auto simp: keeps_others_def only_workers_def rollback_def)

lemma wc_deletes_keep_others:
  "evolves (keeps_others i) (wc_delete_worker_by_id x e b i)" "evolves (keeps_others i) (wc_delete_worker_by_worker_id x e b i)"
proof -
  have unit: "evolves (keeps_others i) (expect_unit a)" for a by (rule expect_evolves(3)[OF ko.step_rel_axioms])
  show "evolves (keeps_others i) (wc_delete_worker_by_id x e b i)" unfolding wc_delete_worker_by_id_def
    by (rule wc_evolves[OF ko.world_rel_axioms _ unit])
      (simp add: delete_worker_by_id_def evolves_map_ok evolves_internal db_deletes_keep_others)
  show "evolves (keeps_others i) (wc_delete_worker_by_worker_id x e b i)" unfolding wc_delete_worker_by_worker_id_def
    by (rule wc_evolves[OF ko.world_rel_axioms _ unit])
      (simp add: delete_worker_by_worker_id_def evolves_map_ok evolves_internal db_deletes_keep_others)
qed

lemma lift_Ok_then: "and_then (lift_res (Ok a)) f = f a"
  by (simp add: and_then_def lift_res_def fun_eq_iff)

lemma wc_deletes_Ok:
  "wc_delete_worker_by_id x e b i w = (Ok a, w') \<Longrightarrow> ws_tab w' = filter (\<lambda>v. ws_id v \<noteq> i) (ws_tab w)"
  "wc_delete_worker_by_worker_id x e b i w = (Ok a, w') \<Longrightarrow> ws_tab w' = filter (\<lambda>v. ws_worker_id v \<noteq> i) (ws_tab w)"
  by (auto simp: wc_delete_worker_by_id_def wc_delete_worker_by_worker_id_def and_then_Ok_iff rpc_call_def expect_unit_Ok
      delete_worker_by_id_def delete_worker_by_worker_id_def internal_call_error_Ok map_ok_Ok_iff ws_op_defs stmt_Ok_iff
      split: delivery.splits result.splits prod.splits)

text \<open>When \<open>worker delete\<close> succeeds, the rows that are gone are exactly those whose row id or worker id is the
  argument; when it fails on the way, other workers are not affected either.\<close>

theorem delete_worker_contract:
  assumes args: "am_id m = Some i" and run: "delete_worker p x e b m w = (r, w')"
  shows "keeps_others i w w' \<and>
    (is_ok r \<longrightarrow> ws_tab w' = filter (\<lambda>v. ws_id v \<noteq> i \<and> ws_worker_id v \<noteq> i) (ws_tab w))"
proof
  have "evolves (keeps_others i) (delete_worker p x e b m)"
    unfolding delete_worker_def id_argument_def args option.case lift_Ok_then
    by (intro ko.seq ko.pure_lift_res ko.pure_ok wc_deletes_keep_others)
  from evolves_Ok[OF this run] show "keeps_others i w w'" .
  show "is_ok r \<longrightarrow> ws_tab w' = filter (\<lambda>v. ws_id v \<noteq> i \<and> ws_worker_id v \<noteq> i) (ws_tab w)"
  proof
    assume "is_ok r"
    then obtain out where "delete_worker p x e b m w = (Ok out, w')" using run by (auto simp: is_ok_iff)
    then obtain a w1 a' where "wc_delete_worker_by_id x e b i w = (Ok a, w1)" "wc_delete_worker_by_worker_id x e b i w1 = (Ok a', w')"
      using args by (auto simp: delete_worker_def id_argument_def and_then_Ok_iff lift_res_Ok_iff ok_Ok_iff)
    from wc_deletes_Ok(1)[OF this(1)] wc_deletes_Ok(2)[OF this(2)]
    show "ws_tab w' = filter (\<lambda>v. ws_id v \<noteq> i \<and> ws_worker_id v \<noteq> i) (ws_tab w)" by (simp add: conj_commute)
  qed
qed

section \<open>Samples\<close>

definition demo_cli :: cli_ext where
  "demo_cli = \<lparr>timestamp_opt = (\<lambda>n. if n = 0 then NoTime else SingleTime (show_int n)), duration_secs = (\<lambda>s. Ok 60)\<rparr>"

definition cli_demo_args :: arg_matches where
  "cli_demo_args = \<lparr>am_url = Some ''127.0.0.1:8888'', am_id = Some ''w1'', am_ids = Some [''t1'', ''t3''], am_state = Some 1,
     am_states = None, am_dur = Some ''1m''\<rparr>"

lemma cli_demo_args_simps [simp]:
  "am_url cli_demo_args = Some ''127.0.0.1:8888''" "am_id cli_demo_args = Some ''w1''" "am_ids cli_demo_args = Some [''t1'', ''t3'']"
  "am_state cli_demo_args = Some 1" "am_states cli_demo_args = None"
  by (simp_all add: cli_demo_args_def)

lemma demo_api: "\<exists>u. get_proxy_api demo_platform ''127.0.0.1:8888'' = Ok u"
proof -
  have "is_ok (get_proxy_api demo_platform ''127.0.0.1:8888'')" by code_simp
  then show ?thesis by (simp add: is_ok_iff)
qed

lemma reliable_quiet: "reliable quiet"
  by (simp add: reliable_def)

theorem task_listing_witness:
  "\<exists>ts w'. wc_list_task demo_ext quiet DbResource None None busy_world = (Ok ts, w') \<and>
     list_tasks demo_cli demo_platform demo_ext quiet DbResource cli_demo_args busy_world
       = (Ok (Table task_header (map (task_row demo_cli) ts)), w')"
proof -
  obtain u where api: "get_proxy_api demo_platform ''127.0.0.1:8888'' = Ok u" using demo_api by blast
  have "is_ok (fst (wc_list_task demo_ext quiet DbResource None None busy_world))" by code_simp
  from run_ok[OF this] obtain ts w' where run: "wc_list_task demo_ext quiet DbResource None None busy_world = (Ok ts, w')" by blast
  note all = task_listing[OF cli_demo_args_simps(1) cli_demo_args_simps(5) api run]
  then have "set_mset (mset ts) = set_mset (mset (task_tab busy_world))" by simp
  then have "set ts = set (task_tab busy_world)" by simp
  moreover have "\<forall>t\<in>set (task_tab busy_world). listable t" by (simp add: demo_defs listable_def cuttable_def)
  ultimately show ?thesis using all run by auto
qed

theorem state_codes_witness:
  "update_status_cmd demo_platform demo_ext quiet DbResource (cli_demo_args\<lparr>am_state := Some 7, am_states := Some [7]\<rparr>) busy_world
     = (Err (no_discriminant 7), busy_world)"
proof -
  obtain u where api: "get_proxy_api demo_platform ''127.0.0.1:8888'' = Ok u" using demo_api by blast
  show ?thesis
    using state_codes[of "cli_demo_args\<lparr>am_state := Some 7, am_states := Some [7]\<rparr>", OF _ api,
        of "[''t1'', ''t3'']" 7 "[7]" demo_ext quiet DbResource busy_world] by simp
qed

lemma worker_found_by_either_id_witness:
  "\<exists>v\<in>set (ws_tab busy_world). ws_worker_id v = ''w1'' \<and>
     fst (get_worker demo_cli demo_platform demo_ext quiet DbResource cli_demo_args busy_world) = print_one_worker demo_cli v"
proof -
  obtain u where api: "get_proxy_api demo_platform ''127.0.0.1:8888'' = Ok u" using demo_api by blast
  obtain r w' where run: "get_worker demo_cli demo_platform demo_ext quiet DbResource cli_demo_args busy_world = (r, w')"
    by (cases "get_worker demo_cli demo_platform demo_ext quiet DbResource cli_demo_args busy_world")
  from worker_found_by_either_id[OF cli_demo_args_simps(1,2) api reliable_quiet run] run show ?thesis
    by (simp add: busy_world_def empty_world_def)
qed

theorem delete_worker_contract_witness:
  "\<exists>w'. delete_worker demo_platform demo_ext quiet DbResource cli_demo_args busy_world = (Ok Nothing, w') \<and> map ws_id (ws_tab w') = [''s2'']"
proof -
  have "is_ok (fst (delete_worker demo_platform demo_ext quiet DbResource cli_demo_args busy_world))" by code_simp
  from run_ok[OF this] obtain out w' where run: "delete_worker demo_platform demo_ext quiet DbResource cli_demo_args busy_world = (Ok out, w')"
    by blast
  then have "out = Nothing" by (auto simp: delete_worker_def and_then_Ok_iff ok_Ok_iff)
  with delete_worker_contract[OF cli_demo_args_simps(2) run] run show ?thesis by (auto simp: busy_world_def empty_world_def)
qed

end
