(* ===== verification/Params_Fetch.thy ===== *)
theory Params_Fetch
  imports Proxy_Prelude Polling
begin

text \<open>
  Fetching the proof parameters (\<open>gpuproxy/src/cli/params_fetch\<close>): which of the files of the built-in list are out of
  date, and the loop that downloads them with \<open>ipget\<close> until none is. The cache directory is a map from file names to
  contents; the hash, the file name tests of \<open>filecoin_proofs\<close>, HTTP, \<open>tar\<close> and the runs of \<open>ipget\<close> are fields of
  \<open>fetch_env\<close>, and an operation of the file system may fail (\<open>fault\<close>, by the number of the operation).
  \<open>exit(1)\<close> and a failed \<open>expect\<close> are panics. Progress bars and logging are left out.
\<close>

section \<open>The cache and the outside world\<close>

text \<open>An entry of \<open>parameters.json\<close>; the map is kept in the order of its keys.\<close>

record param_entry =
  pe_cid :: string
  pe_digest :: string
  pe_sector_size :: nat

type_synonym parameter_map = "(string \<times> param_entry) list"

record cache =
  param_files :: "string \<rightharpoonup> bytes"
  ipget_present :: bool
  io_count :: nat

text \<open>A run of \<open>ipget\<close>: the exit code, and what it has left at its output path if it has written there.\<close>

datatype ipget_run = NotSpawned string | Exited bool "bytes option"

text \<open>The header may be missing or not be text.\<close>

record reply =
  status_success :: bool
  content_length :: "string option option"
  body :: bytes

record fetch_env =
  has_extension :: "string \<Rightarrow> string \<Rightarrow> bool"
  vk_ext :: string
  params_ext :: string
  cache_path :: "string \<Rightarrow> string"
  digest_of :: "bytes \<Rightarrow> string"
  fault :: "nat \<Rightarrow> string option"
  ipget :: "nat \<Rightarrow> string list \<Rightarrow> ipget_run"
  http_get :: "nat \<Rightarrow> string \<Rightarrow> (reply, string) result"
  unpack :: "bytes \<Rightarrow> bool option"

type_synonym 'a fetch = "(cache, 'a, string) prog"

definition io_op :: "fetch_env \<Rightarrow> 'a fetch \<Rightarrow> 'a fetch" where
  "io_op e f s = (let s' = s\<lparr>io_count := Suc (io_count s)\<rparr> in
     case fault e (io_count s) of Some m \<Rightarrow> (Err m, s') | None \<Rightarrow> f s')"

text \<open>\<open>Result::expect\<close>.\<close>

definition expect :: "string \<Rightarrow> 'a fetch \<Rightarrow> 'a fetch" where
  "expect msg m s = (case m s of (Err e, s') \<Rightarrow> (Panic (msg @ '': '' @ e), s') | r \<Rightarrow> r)"

section \<open>Which files to fetch\<close>

definition entry_of :: "parameter_map \<Rightarrow> string \<Rightarrow> (param_entry, string) result" where
  "entry_of pm n = (case map_of pm n of Some v \<Rightarrow> Ok v | None \<Rightarrow> Panic ''no entry found for key'')"

definition invalid_name :: "string \<Rightarrow> string" where
  "invalid_name n = n @ ''-invalid-digest''"

definition rename_invalid :: "fetch_env \<Rightarrow> string \<Rightarrow> unit fetch" where
  "rename_invalid e n = io_op e (\<lambda>s.
     (Ok (), s\<lparr>param_files := (param_files s)(n := None, invalid_name n := param_files s n)\<rparr>))"

text \<open>One file of the list; a file with the wrong digest is moved away.\<close>

definition outdated :: "fetch_env \<Rightarrow> parameter_map \<Rightarrow> string \<Rightarrow> bool fetch" where
  "outdated e pm n s = (case param_files s n of
     None \<Rightarrow> (Ok True, s)
   | Some d \<Rightarrow>
       (case io_op e (ok (digest_of e d)) s of
          (Ok calculated, s1) \<Rightarrow>
            and_then (lift_res (entry_of pm n)) (\<lambda>v.
              if calculated = pe_digest v then ok False
              else map_ok (\<lambda>_. True) (expect ''failed to move file'' (rename_invalid e n))) s1
        | (_, s1) \<Rightarrow> (Ok True, s1)))"

fun get_filenames_requiring_download :: "fetch_env \<Rightarrow> parameter_map \<Rightarrow> string list \<Rightarrow> string list fetch" where
  "get_filenames_requiring_download e pm [] = ok []"
| "get_filenames_requiring_download e pm (n # ns) =
     and_then (outdated e pm n) (\<lambda>need.
     map_ok (\<lambda>r. if need then n # r else r) (get_filenames_requiring_download e pm ns))"

definition selected :: "fetch_env \<Rightarrow> parameter_map \<Rightarrow> nat list option \<Rightarrow> string list" where
  "selected e pm sizes = (case sizes of
     None \<Rightarrow> map fst pm
   | Some sector_sizes \<Rightarrow> filter (\<lambda>n. \<not> (has_extension e n (vk_ext e) \<or>
         (has_extension e n (params_ext e) \<and> pe_sector_size (the (map_of pm n)) \<notin> set sector_sizes))) (map fst pm))"

section \<open>Downloading\<close>

definition get_ipget_dir :: "string \<Rightarrow> string" where
  "get_ipget_dir version = ''/var/tmp/ipget-'' @ version"

definition get_ipget_path :: "string \<Rightarrow> string" where
  "get_ipget_path version = get_ipget_dir version @ ''/ipget/ipget''"

definition ipget_url :: "string \<Rightarrow> string" where
  "ipget_url version = ''https://dist.ipfs.io/ipget/'' @ version @ ''/ipget_'' @ version @ ''_linux-amd64.tar.gz''"

text \<open>\<open>parse\<close> is \<open>str::parse\<close> for \<open>u64\<close>; the unit is Linux.\<close>

definition download_ipget :: "fetch_env \<Rightarrow> (string \<Rightarrow> nat option) \<Rightarrow> string \<Rightarrow> bool \<Rightarrow> unit fetch" where
  "download_ipget e parse version verbose =
     and_then (io_op e (\<lambda>s. (http_get e (io_count s) (ipget_url version), s))) (\<lambda>resp.
     if \<not> status_success resp then lift_res (Panic ''exit 1'')
     else
     and_then (lift_res (case content_length resp of
         None \<Rightarrow> Ok None
       | Some None \<Rightarrow> Panic ''called `Result::unwrap()` on an `Err` value''
       | Some (Some v) \<Rightarrow> Ok (parse v))) (\<lambda>size.
     and_then (expect ''failed to create file'' (io_op e (ok []))) (\<lambda>written.
     and_then
       (if verbose then
          (case size of Some _ \<Rightarrow> expect ''failed to write download to file'' (io_op e (ok (body resp))) | None \<Rightarrow> ok written)
        else expect ''failed to write download to file'' (io_op e (ok (body resp)))) (\<lambda>written.
     and_then (expect ''failed to open downloaded tar file'' (io_op e (ok ()))) (\<lambda>_.
     case unpack e written of
       None \<Rightarrow> lift_res (Panic ''failed to unzip and unarchive'')
     | Some has \<Rightarrow> (\<lambda>s. (Ok (), s\<lparr>ipget_present := ipget_present s \<or> has\<rparr>)))))))"

fun split_whitespace :: "string \<Rightarrow> string \<Rightarrow> string list" where
  "split_whitespace acc [] = (if acc = [] then [] else [acc])"
| "split_whitespace acc (c # cs) =
     (if c \<in> set [CHR '' '', CHR 0x09, CHR 0x0A, CHR 0x0B, CHR 0x0C, CHR 0x0D]
      then (if acc = [] then split_whitespace [] cs else acc # split_whitespace [] cs)
      else split_whitespace (acc @ [c]) cs)"

definition download_file_with_ipget :: "fetch_env \<Rightarrow> string \<Rightarrow> string \<Rightarrow> string option \<Rightarrow> bool \<Rightarrow> unit fetch" where
  "download_file_with_ipget e cid n ipget_args verbose s =
     (let args = [cid, ''-o'', cache_path e n] @ (case ipget_args of Some a \<Rightarrow> split_whitespace [] a | None \<Rightarrow> []);
          s' = s\<lparr>io_count := Suc (io_count s)\<rparr> in
      case ipget e (io_count s) args of
        NotSpawned m \<Rightarrow> (Err ''failed to spawn ipget subprocess'', s')
      | Exited success output \<Rightarrow>
          and_then (if verbose then map_err (\<lambda>_. ''failed to write ipget's stdout'') (io_op e (ok ())) else ok ()) (\<lambda>_.
          and_then (if verbose then map_err (\<lambda>_. ''failed to write ipget's stderr'') (io_op e (ok ())) else ok ()) (\<lambda>_.
          if success then ok () else err ''ipget returned non-zero exit code''))
            (s'\<lparr>param_files := (case output of Some d \<Rightarrow> (param_files s')(n \<mapsto> d) | None \<Rightarrow> param_files s')\<rparr>))"

fun download_all :: "fetch_env \<Rightarrow> parameter_map \<Rightarrow> string list \<Rightarrow> unit fetch" where
  "download_all e pm [] = ok ()"
| "download_all e pm (n # ns) =
     and_then (lift_res (entry_of pm n)) (\<lambda>v s.
       download_all e pm ns (snd (download_file_with_ipget e (pe_cid v) n None True s)))"

text \<open>One turn of the loop. What single downloads report is only logged.\<close>

definition download_round ::
  "fetch_env \<Rightarrow> parameter_map \<Rightarrow> string list \<times> cache \<Rightarrow> (unit, string) result option \<times> string list \<times> cache" where
  "download_round e pm = (\<lambda>(names, s).
     case and_then (download_all e pm names) (\<lambda>_. get_filenames_requiring_download e pm names) s of
       (Ok [], s') \<Rightarrow> (Some (Ok ()), [], s')
     | (Ok names', s') \<Rightarrow> (None, names', s')
     | (Err m, s') \<Rightarrow> (Some (Err m), names, s')
     | (Panic m, s') \<Rightarrow> (Some (Panic m), names, s'))"

definition prepare_ipget :: "fetch_env \<Rightarrow> (string \<Rightarrow> nat option) \<Rightarrow> unit fetch" where
  "prepare_ipget e parse s =
     and_then (if ipget_present s then ok () else expect ''ipget download failed'' (download_ipget e parse ''v0.6.0'' True)) (\<lambda>_.
     expect ''failed to create param cache dir'' (io_op e (ok ()))) s"

definition download_sector_size ::
  "fetch_env \<Rightarrow> (string \<Rightarrow> nat option) \<Rightarrow> parameter_map \<Rightarrow> nat list option \<Rightarrow> cache \<Rightarrow> ((unit, string) result \<times> cache) option" where
  "download_sector_size e parse pm sizes s =
     (case get_filenames_requiring_download e pm (selected e pm sizes) s of
        (Ok [], s1) \<Rightarrow> Some (Ok (), s1)
      | (Ok names, s1) \<Rightarrow>
          (case prepare_ipget e parse s1 of
             (Ok _, s2) \<Rightarrow> map_option (\<lambda>(r, _, s'). (r, s')) (poll_loop (download_round e pm) (names, s2))
           | (Err m, s2) \<Rightarrow> Some (Err m, s2)
           | (Panic m, s2) \<Rightarrow> Some (Panic m, s2))
      | (Err m, s1) \<Rightarrow> Some (Err m, s1)
      | (Panic m, s1) \<Rightarrow> Some (Panic m, s1))"

definition fetch_params_command ::
  "fetch_env \<Rightarrow> (string \<Rightarrow> nat option) \<Rightarrow> parameter_map \<Rightarrow> nat list option \<Rightarrow> cache \<Rightarrow> ((unit, string) result \<times> cache) option" where
  "fetch_params_command e parse pm sector_size s = (case sector_size of
     None \<Rightarrow> Some (Err ''sector-size flag not found'', s)
   | Some sizes \<Rightarrow> download_sector_size e parse pm (Some sizes) s)"

section \<open>What a check does\<close>

definition authentic :: "fetch_env \<Rightarrow> parameter_map \<Rightarrow> cache \<Rightarrow> string \<Rightarrow> bool" where
  "authentic e pm s n \<longleftrightarrow> (\<exists>v d. map_of pm n = Some v \<and> param_files s n = Some d \<and> digest_of e d = pe_digest v)"

text \<open>No file of the list is named like the rejected copy of another.\<close>

definition plain_names :: "parameter_map \<Rightarrow> bool" where
  "plain_names pm \<longleftrightarrow> (\<forall>n\<in>fst ` set pm. invalid_name n \<notin> fst ` set pm)"

lemma outdated_Ok:
  assumes "outdated e pm n s = (Ok need, s')" "n \<in> fst ` set pm"
  shows "(\<not> need \<longrightarrow> authentic e pm s' n) \<and>
    (authentic e pm s n \<longrightarrow> param_files s' = param_files s) \<and>
    (\<forall>m. m \<noteq> n \<longrightarrow> m \<noteq> invalid_name n \<longrightarrow> param_files s' m = param_files s m)"
  using assms
  by (auto simp: outdated_def io_op_def Let_def ok_def map_ok_def and_then_def lift_res_def entry_of_def expect_def rename_invalid_def
      authentic_def split: option.splits if_splits result.splits prod.splits)

lemma outdated_keeps:
  assumes "outdated e pm n s = (Ok need, s')" "n \<in> fst ` set pm" "plain_names pm" "authentic e pm s m"
  shows "authentic e pm s' m"
proof -
  have m: "m \<in> fst ` set pm" using assms(4) by (force simp: authentic_def dest: map_of_SomeD)
  then have "m \<noteq> invalid_name n" using assms(2,3) unfolding plain_names_def by metis
  with outdated_Ok[OF assms(1,2)] assms(4) show ?thesis by (cases "m = n") (auto simp: authentic_def)
qed

lemma filter_Ok:
  assumes "get_filenames_requiring_download e pm ns s = (Ok r, s')" "set ns \<subseteq> fst ` set pm" "plain_names pm"
  shows "set r \<subseteq> set ns \<and> (\<forall>n\<in>set ns - set r. authentic e pm s' n) \<and> (\<forall>m. authentic e pm s m \<longrightarrow> authentic e pm s' m)"
  using assms
proof (induction ns arbitrary: s r)
  case Nil
  then show ?case by (simp add: ok_def)
next
  case (Cons n ns)
  from Cons.prems(1) obtain need s1 r1 where one: "outdated e pm n s = (Ok need, s1)"
    and rest: "get_filenames_requiring_download e pm ns s1 = (Ok r1, s')" and r: "r = (if need then n # r1 else r1)"
    by (auto simp: and_then_Ok_iff map_ok_Ok_iff)
  have n: "n \<in> fst ` set pm" and "set ns \<subseteq> fst ` set pm" using Cons.prems(2) by auto
  from Cons.IH[OF rest this(2) Cons.prems(3)]
  have ih: "set r1 \<subseteq> set ns" "\<forall>n\<in>set ns - set r1. authentic e pm s' n" "\<forall>m. authentic e pm s1 m \<longrightarrow> authentic e pm s' m" by auto
  have "\<not> need \<longrightarrow> authentic e pm s' n" using outdated_Ok[OF one n] ih(3) by auto
  moreover have "\<forall>m. authentic e pm s m \<longrightarrow> authentic e pm s' m"
    using outdated_keeps[OF one n Cons.prems(3)] ih(3) by blast
  ultimately show ?case using ih r by auto
qed

section \<open>What a download does\<close>

lemma download_files:
  "download_file_with_ipget e cid n a v s = (r, s') \<Longrightarrow> m \<noteq> n \<Longrightarrow> param_files s' m = param_files s m"
  by (auto simp: download_file_with_ipget_def Let_def and_then_def map_err_def io_op_def ok_def err_def
      split: ipget_run.splits option.splits result.splits prod.splits if_splits)

lemma download_all_files:
  "download_all e pm ns s = (r, s') \<Longrightarrow> m \<notin> set ns \<Longrightarrow> param_files s' m = param_files s m"
proof (induction ns arbitrary: s)
  case Nil
  then show ?case by (simp add: ok_def)
next
  case (Cons n ns)
  show ?case
  proof (cases "map_of pm n")
    case None
    with Cons.prems show ?thesis by (simp add: and_then_def lift_res_def entry_of_def)
  next
    case (Some v)
    obtain r1 s1 where one: "download_file_with_ipget e (pe_cid v) n None True s = (r1, s1)"
      by (cases "download_file_with_ipget e (pe_cid v) n None True s")
    with Some Cons.prems have "download_all e pm ns s1 = (r, s')" by (simp add: and_then_def lift_res_def entry_of_def)
    with Cons.IH[of s1] Cons.prems(2) download_files[OF one, of m] show ?thesis by simp
  qed
qed

definition same_files :: "cache \<Rightarrow> cache \<Rightarrow> bool" where
  "same_files s s' \<longleftrightarrow> param_files s' = param_files s"

interpretation sf: step_rel same_files
  by unfold_locales (simp_all add: same_files_def)

lemma same_files_io [evolve]: "evolves same_files m \<Longrightarrow> evolves same_files (io_op e m)"
  by (simp add: evolves_def io_op_def Let_def same_files_def split: option.split)

lemma same_files_expect [evolve]: "evolves same_files m \<Longrightarrow> evolves same_files (expect msg m)"
  unfolding evolves_def
proof
  fix s assume "\<forall>s. same_files s (snd (m s))"
  then show "same_files s (snd (expect msg m s))" by (cases "m s"; cases "fst (m s)") (auto simp: expect_def dest: spec[of _ s])
qed

lemma download_ipget_files [evolve]: "evolves same_files (download_ipget e parse version verbose)"
  unfolding download_ipget_def
  by (intro evolve sf.pure_rules) (auto simp: evolves_def same_files_def sf.pure_lift_res lift_res_def split: option.split)

lemma prepare_files: "prepare_ipget e parse s = (r, s') \<Longrightarrow> param_files s' = param_files s"
  unfolding prepare_ipget_def same_files_def[symmetric]
  by (erule evolves_Ok[rotated]) (intro evolve sf.pure_rules)

lemma selected_sub: "set (selected e pm sizes) \<subseteq> fst ` set pm"
  by (auto simp: selected_def split: option.splits)

definition fetch_inv :: "fetch_env \<Rightarrow> parameter_map \<Rightarrow> string list \<Rightarrow> string list \<times> cache \<Rightarrow> bool" where
  "fetch_inv e pm sel = (\<lambda>(names, s). set names \<subseteq> set sel \<and> (\<forall>n\<in>set sel - set names. authentic e pm s n))"

lemma round_keeps:
  assumes inv: "fetch_inv e pm sel (names, s)" and sel: "set sel \<subseteq> fst ` set pm" "plain_names pm"
    and run: "download_round e pm (names, s) = (o', names', s')" and good: "o' = None \<or> o' = Some (Ok ())"
  shows "fetch_inv e pm sel (names', s') \<and> (o' = Some (Ok ()) \<longrightarrow> names' = [])"
proof -
  from run good obtain u s1 where dl: "download_all e pm names s = (Ok u, s1)"
    and f: "get_filenames_requiring_download e pm names s1 = (Ok names', s')" and o: "o' = Some (Ok ()) \<longrightarrow> names' = []"
    by (auto simp: download_round_def and_then_def split: result.splits prod.splits list.splits)
  have names: "set names \<subseteq> fst ` set pm" using inv sel(1) by (auto simp: fetch_inv_def)
  have "authentic e pm s1 n" if "n \<in> set sel - set names" for n
    using that inv download_all_files[OF dl, of n] by (auto simp: fetch_inv_def authentic_def)
  moreover note filter_Ok[OF f names sel(2)]
  ultimately have "authentic e pm s' n" if "n \<in> set sel - set names'" for n using that by blast
  with filter_Ok[OF f names sel(2)] inv o show ?thesis by (auto simp: fetch_inv_def)
qed

text \<open>C20. When \<open>paramfetch\<close> finishes, every file it was asked for is in the cache with the digest of the
  built-in list, however many downloads failed or delivered rubbish on the way.\<close>

theorem fetched_files_are_authentic:
  assumes run: "download_sector_size e parse pm sizes s = Some (Ok u, s')" and names: "plain_names pm"
  shows "\<forall>n\<in>set (selected e pm sizes). authentic e pm s' n"
proof -
  let ?sel = "selected e pm sizes" and ?step = "download_round e pm"
  from run obtain ns s1 where f: "get_filenames_requiring_download e pm ?sel s = (Ok ns, s1)"
    and cases: "ns = [] \<and> s' = s1 \<or> (\<exists>s2 k. prepare_ipget e parse s1 = (Ok k, s2) \<and>
      (\<exists>left. poll_loop ?step (ns, s2) = Some (Ok u, left, s')))"
    by (auto simp: download_sector_size_def split: result.splits prod.splits list.splits)
  note first = filter_Ok[OF f selected_sub names]
  from cases show ?thesis
  proof (elim disjE exE conjE)
    assume "ns = []" "s' = s1"
    with first show ?thesis by auto
  next
    fix s2 k left assume prep: "prepare_ipget e parse s1 = (Ok k, s2)" and loop: "poll_loop ?step (ns, s2) = Some (Ok u, left, s')"
    have inv: "fetch_inv e pm ?sel (ns, s2)"
      using first prepare_files[OF prep] by (auto simp: fetch_inv_def authentic_def)
    have kept: "fetch_inv e pm ?sel y \<and> (r = Some (Ok ()) \<longrightarrow> fst y = [])"
      if "fetch_inv e pm ?sel x" "?step x = (r, y)" "r = None \<or> r = Some (Ok ())" for x r y
      using round_keeps[of e pm ?sel "fst x" "snd x" r "fst y" "snd y"] selected_sub names that by simp
    have "(Ok u :: (unit, string) result) = Ok () \<longrightarrow> fetch_inv e pm ?sel (left, s') \<and> fst (left, s') = []"
    proof (rule poll_loop_inv[where I = "fetch_inv e pm ?sel" and Q = "\<lambda>r y. r = Ok () \<longrightarrow> fetch_inv e pm ?sel y \<and> fst y = []", OF loop inv])
      fix x y assume "fetch_inv e pm ?sel x" "?step x = (None, y)"
      with kept[of x None y] show "fetch_inv e pm ?sel y" by simp
    next
      fix x r y assume "fetch_inv e pm ?sel x" "?step x = (Some r, y)"
      with kept[of x "Some r" y] show "r = Ok () \<longrightarrow> fetch_inv e pm ?sel y \<and> fst y = []" by simp
    qed
    then show ?thesis by (simp add: fetch_inv_def)
  qed
qed

section \<open>The loop ends\<close>

text \<open>From the operation with number \<open>K\<close> on nothing fails any more and \<open>ipget\<close> delivers.\<close>

definition recovers :: "fetch_env \<Rightarrow> parameter_map \<Rightarrow> nat \<Rightarrow> bool" where
  "recovers e pm K \<longleftrightarrow> (\<forall>k\<ge>K. fault e k = None \<and>
     (\<forall>(n, v)\<in>set pm. \<exists>d. ipget e k [pe_cid v, ''-o'', cache_path e n] = Exited True (Some d) \<and> digest_of e d = pe_digest v))"

definition later :: "cache \<Rightarrow> cache \<Rightarrow> bool" where
  "later s s' \<longleftrightarrow> io_count s \<le> io_count s' \<and> ipget_present s' = ipget_present s"

interpretation lt: step_rel later
  by unfold_locales (simp_all add: later_def)

lemma later_filter: "evolves later (get_filenames_requiring_download e pm ns)"
proof (induction ns)
  case (Cons n ns)
  have "evolves later (outdated e pm n)"
    by (auto simp: evolves_def later_def outdated_def io_op_def Let_def and_then_def lift_res_def ok_def map_ok_def expect_def
        rename_invalid_def split: option.splits result.splits prod.splits if_splits)
  with Cons show ?case by (auto intro!: lt.seq evolves_map_ok)
qed (simp add: lt.pure_ok)

lemma download_counts:
  "io_count s < io_count (snd (download_file_with_ipget e cid n a v s))"
  by (auto simp: download_file_with_ipget_def Let_def and_then_def map_err_def io_op_def ok_def err_def
      split: ipget_run.splits option.splits result.splits prod.splits if_splits)

lemma download_all_counts:
  "download_all e pm ns s = (Ok u, s') \<Longrightarrow> io_count s \<le> io_count s' \<and> (ns \<noteq> [] \<longrightarrow> io_count s < io_count s')"
proof (induction ns arbitrary: s)
  case (Cons n ns)
  then obtain v where v: "map_of pm n = Some v" by (cases "map_of pm n") (auto simp: and_then_def lift_res_def entry_of_def)
  with Cons.prems have "download_all e pm ns (snd (download_file_with_ipget e (pe_cid v) n None True s)) = (Ok u, s')"
    by (simp add: and_then_def lift_res_def entry_of_def)
  from Cons.IH[OF this] download_counts[of s e "pe_cid v" n None True] show ?case by auto
qed (simp add: ok_def)

lemma download_good:
  assumes "recovers e pm K" "K \<le> io_count s" "map_of pm n = Some v" "download_file_with_ipget e (pe_cid v) n None True s = (r, s')"
  shows "authentic e pm s' n \<and> (\<forall>m. authentic e pm s m \<longrightarrow> authentic e pm s' m) \<and> io_count s < io_count s'"
proof -
  from assms(1,2,3) obtain d where d: "ipget e (io_count s) [pe_cid v, ''-o'', cache_path e n] = Exited True (Some d)" "digest_of e d = pe_digest v"
    by (fastforce simp: recovers_def dest: map_of_SomeD)
  have quiet: "fault e (Suc (io_count s)) = None" "fault e (Suc (Suc (io_count s))) = None"
    using assms(1,2) by (auto simp: recovers_def)
  have "param_files s' = (param_files s)(n \<mapsto> d)" "io_count s < io_count s'"
    using assms(4) d quiet by (auto simp: download_file_with_ipget_def Let_def and_then_def map_err_def io_op_def ok_def)
  with d assms(3) show ?thesis by (auto simp: authentic_def)
qed

lemma download_all_good:
  assumes "recovers e pm K" "K \<le> io_count s" "set ns \<subseteq> fst ` set pm"
  shows "\<exists>s'. download_all e pm ns s = (Ok (), s') \<and> (\<forall>n\<in>set ns. authentic e pm s' n) \<and>
    (\<forall>m. authentic e pm s m \<longrightarrow> authentic e pm s' m) \<and> K \<le> io_count s'"
  using assms(2,3)
proof (induction ns arbitrary: s)
  case Nil
  then show ?case by (simp add: ok_def)
next
  case (Cons n ns)
  then obtain v where v: "map_of pm n = Some v" by (cases "map_of pm n") (auto simp: map_of_eq_None_iff)
  obtain r s1 where one: "download_file_with_ipget e (pe_cid v) n None True s = (r, s1)"
    by (cases "download_file_with_ipget e (pe_cid v) n None True s")
  note good = download_good[OF assms(1) Cons.prems(1) v one]
  from Cons.IH[of s1] Cons.prems good obtain s' where s': "download_all e pm ns s1 = (Ok (), s')" "\<forall>n\<in>set ns. authentic e pm s' n"
    "\<forall>m. authentic e pm s1 m \<longrightarrow> authentic e pm s' m" "K \<le> io_count s'" by auto
  with v one good show ?case by (auto simp: and_then_def lift_res_def entry_of_def)
qed

lemma filter_good:
  assumes "recovers e pm K" "K \<le> io_count s" "\<forall>n\<in>set ns. authentic e pm s n"
  shows "\<exists>s'. get_filenames_requiring_download e pm ns s = (Ok [], s')"
  using assms(2,3)
proof (induction ns arbitrary: s)
  case Nil
  then show ?case by (simp add: ok_def)
next
  case (Cons n ns)
  let ?s = "s\<lparr>io_count := Suc (io_count s)\<rparr>"
  have "outdated e pm n s = (Ok False, ?s)"
    using Cons.prems assms(1)
    by (auto simp: outdated_def authentic_def io_op_def Let_def ok_def and_then_def lift_res_def entry_of_def recovers_def)
  moreover have "\<forall>n\<in>set ns. authentic e pm ?s n" using Cons.prems(2) by (simp add: authentic_def)
  ultimately show ?case using Cons.IH[of ?s] Cons.prems(1) by (auto simp: and_then_def map_ok_def)
qed

lemma round_waits:
  assumes "download_round e pm (names, s) = (None, names', s')" "set names \<subseteq> fst ` set pm" "names \<noteq> []" "plain_names pm"
  shows "names' \<noteq> [] \<and> set names' \<subseteq> fst ` set pm \<and> io_count s < io_count s'"
proof -
  from assms(1) obtain u s1 where dl: "download_all e pm names s = (Ok u, s1)"
    and f: "get_filenames_requiring_download e pm names s1 = (Ok names', s')" and "names' \<noteq> []"
    by (auto simp: download_round_def and_then_def split: result.splits prod.splits list.splits)
  moreover have "io_count s < io_count s'"
    using download_all_counts[OF dl] evolves_Ok[OF later_filter f] assms(3) by (simp add: later_def)
  ultimately show ?thesis using filter_Ok[OF f assms(2,4)] assms(2) by auto
qed

lemma round_recovered:
  assumes "recovers e pm K" "K \<le> io_count s" "set names \<subseteq> fst ` set pm"
  shows "\<exists>s'. download_round e pm (names, s) = (Some (Ok ()), [], s')"
proof -
  from download_all_good[OF assms] obtain s1 where dl: "download_all e pm names s = (Ok (), s1)"
    "\<forall>n\<in>set names. authentic e pm s1 n" "K \<le> io_count s1" by blast
  from filter_good[OF assms(1) dl(3,2)] dl(1) show ?thesis by (auto simp: download_round_def and_then_def)
qed

lemma rounds_end:
  assumes "recovers e pm K" "plain_names pm" "set names \<subseteq> fst ` set pm" "names \<noteq> []"
  shows "poll_loop (download_round e pm) (names, s) \<noteq> None"
proof
  let ?step = "download_round e pm"
  assume "poll_loop ?step (names, s) = None"
  then have wait: "fst (?step (poll_state ?step k (names, s))) = None" for k
    by (auto simp: poll_loop_first Let_def split: if_splits)
  have "\<exists>ns t. poll_state ?step k (names, s) = (ns, t) \<and> ns \<noteq> [] \<and> set ns \<subseteq> fst ` set pm \<and> k \<le> io_count t" for k
  proof (induction k)
    case (Suc k)
    then obtain ns t where st: "poll_state ?step k (names, s) = (ns, t)" "ns \<noteq> []" "set ns \<subseteq> fst ` set pm" "k \<le> io_count t" by blast
    obtain ns' t' where next': "?step (ns, t) = (None, ns', t')" using wait[of k] st(1) by (cases "?step (ns, t)") auto
    from round_waits[OF next' st(3,2) assms(2)] st next' show ?case by (auto simp: poll_state_snoc simp del: poll_state_simps)
  qed (use assms in simp)
  then obtain ns t where st: "poll_state ?step K (names, s) = (ns, t)" "set ns \<subseteq> fst ` set pm" "K \<le> io_count t" by blast
  from round_recovered[OF assms(1) st(3,2)] wait[of K] st(1) show False by auto
qed

lemma filter_total:
  assumes "\<forall>k. fault e k = None" "set ns \<subseteq> fst ` set pm"
  shows "\<exists>r s'. get_filenames_requiring_download e pm ns s = (Ok r, s')"
  using assms(2)
proof (induction ns arbitrary: s)
  case (Cons n ns)
  then obtain v where v: "map_of pm n = Some v" by (cases "map_of pm n") (auto simp: map_of_eq_None_iff)
  have "\<exists>need s1. outdated e pm n s = (Ok need, s1)"
    using assms(1) v by (auto simp: outdated_def io_op_def Let_def ok_def and_then_def lift_res_def entry_of_def expect_def
        rename_invalid_def map_ok_def split: option.split)
  then obtain need s1 where one: "outdated e pm n s = (Ok need, s1)" by blast
  from Cons.IH[of s1] Cons.prems obtain r s' where "get_filenames_requiring_download e pm ns s1 = (Ok r, s')" by auto
  with one show ?case by (simp add: and_then_def map_ok_def)
qed (simp add: ok_def)

lemma download_all_total: "set ns \<subseteq> fst ` set pm \<Longrightarrow> \<exists>s'. download_all e pm ns s = (Ok (), s')"
proof (induction ns arbitrary: s)
  case (Cons n ns)
  then obtain v where v: "map_of pm n = Some v" by (cases "map_of pm n") (auto simp: map_of_eq_None_iff)
  with Cons show ?case by (auto simp: and_then_def lift_res_def entry_of_def)
qed (simp add: ok_def)

lemma round_total:
  assumes "\<forall>k. fault e k = None" "set names \<subseteq> fst ` set pm" "download_round e pm (names, s) = (r, y)"
  shows "r = None \<or> r = Some (Ok ())"
proof -
  obtain s1 where "download_all e pm names s = (Ok (), s1)" using download_all_total[OF assms(2)] by blast
  moreover obtain r s2 where "get_filenames_requiring_download e pm names s1 = (Ok r, s2)" using filter_total[OF assms(1,2)] by blast
  ultimately show ?thesis using assms(3) by (cases r) (auto simp: download_round_def and_then_def)
qed

lemma loop_Ok:
  assumes quiet: "\<forall>k. fault e k = None" and names: "set ns \<subseteq> fst ` set pm" "plain_names pm"
    and loop: "poll_loop (download_round e pm) (ns, s) = Some (r, y)"
  shows "r = Ok ()"
proof -
  have inv: "set (fst (ns, s)) \<subseteq> fst ` set pm" using names by simp
  have keep: "set (fst y) \<subseteq> fst ` set pm" if "set (fst x) \<subseteq> fst ` set pm" "download_round e pm x = (None, y)" for x y
  proof (cases "fst x = []")
    case True
    with that show ?thesis by (cases x) (simp add: download_round_def and_then_def ok_def)
  next
    case False
    with that round_waits[of e pm "fst x" "snd x" "fst y" "snd y"] names show ?thesis by simp
  qed
  show ?thesis
  proof (rule poll_loop_inv[where I = "\<lambda>x. set (fst x) \<subseteq> fst ` set pm" and Q = "\<lambda>r y. r = Ok ()", OF loop inv keep])
    fix x r y assume "set (fst x) \<subseteq> fst ` set pm" "download_round e pm x = (Some r, y)"
    with round_total[OF quiet, of "fst x" pm "snd x" "Some r" y] show "r = Ok ()" by simp
  qed
qed

text \<open>C21. If from some point on the file system works and \<open>ipget\<close> delivers the files of the list, the download
  loop ends, whatever has happened before; without any fault of the file system it ends with success.\<close>

theorem fetching_ends:
  assumes rec: "recovers e pm K" and names: "plain_names pm" and ip: "ipget_present s"
  shows "\<exists>r s'. download_sector_size e parse pm sizes s = Some (r, s') \<and> ((\<forall>k. fault e k = None) \<longrightarrow> r = Ok ())"
proof -
  let ?sel = "selected e pm sizes"
  obtain r0 s1 where f: "get_filenames_requiring_download e pm ?sel s = (r0, s1)"
    by (cases "get_filenames_requiring_download e pm ?sel s")
  have total: "(\<forall>k. fault e k = None) \<longrightarrow> (\<exists>ns. r0 = Ok ns)"
    using filter_total[of e ?sel pm s] selected_sub f by fastforce
  have ip1: "ipget_present s1"
    using evolves_Ok[OF later_filter f] ip by (simp add: later_def)
  show ?thesis
  proof (cases r0)
    case (Ok ns)
    note sub = filter_Ok[OF f[unfolded Ok] selected_sub names]
    then have ns: "set ns \<subseteq> fst ` set pm" using selected_sub by blast
    have prep: "prepare_ipget e parse s1 = (case fault e (io_count s1) of None \<Rightarrow> Ok ()
        | Some m \<Rightarrow> Panic (''failed to create param cache dir'' @ '': '' @ m), s1\<lparr>io_count := Suc (io_count s1)\<rparr>)"
      using ip1 by (simp add: prepare_ipget_def and_then_def ok_def expect_def io_op_def Let_def split: option.split)
    show ?thesis
    proof (cases "ns = [] \<or> fault e (io_count s1) \<noteq> None")
      case True
      with f Ok prep show ?thesis
        by (auto simp: download_sector_size_def split: list.split)
    next
      case False
      let ?s2 = "s1\<lparr>io_count := Suc (io_count s1)\<rparr>"
      from rounds_end[OF rec names ns] False obtain r y where loop: "poll_loop (download_round e pm) (ns, ?s2) = Some (r, y)" by fastforce
      with loop_Ok[OF _ ns names loop] f Ok prep False show ?thesis
        by (cases y) (auto simp: download_sector_size_def split: list.split)
    qed
  qed (use f total in \<open>auto simp: download_sector_size_def\<close>)
qed

text \<open>With sector sizes given no verifying key is ever fetched, whatever the sizes.\<close>

lemma no_verifying_key: "n \<in> set (selected e pm (Some sizes)) \<Longrightarrow> \<not> has_extension e n (vk_ext e)"
  by (simp add: selected_def)

text \<open>In the verbose mode, the only one used, a reply without a length leaves an empty archive.\<close>

lemma missing_length_panics:
  assumes "\<forall>k. http_get e k (ipget_url v) = Ok resp" "status_success resp" "content_length resp = None"
    and "\<forall>k. fault e k = None" "unpack e [] = None"
  shows "fst (download_ipget e parse v True s) = Panic ''failed to unzip and unarchive''"
  using assms by (simp add: download_ipget_def and_then_def io_op_def Let_def lift_res_def expect_def ok_def)

section \<open>Samples\<close>

text \<open>Two parameter files and a key; what is downloaded up to the tenth operation is rubbish.\<close>

definition demo_map :: parameter_map where
  "demo_map = [(''a.params'', \<lparr>pe_cid = ''Qa'', pe_digest = ''1'', pe_sector_size = 2048\<rparr>),
     (''a.vk'', \<lparr>pe_cid = ''Qv'', pe_digest = ''2'', pe_sector_size = 2048\<rparr>),
     (''b.params'', \<lparr>pe_cid = ''Qb'', pe_digest = ''3'', pe_sector_size = 512\<rparr>)]"

definition demo_fetch :: fetch_env where
  "demo_fetch = \<lparr>has_extension = (\<lambda>n x. suffix (CHR ''.'' # x) n), vk_ext = ''vk'', params_ext = ''params'',
     cache_path = (\<lambda>n. ''/var/tmp/'' @ n), digest_of = (\<lambda>d. if d = [49] then ''1'' else if d = [50] then ''2'' else if d = [51] then ''3'' else ''bad''),
     fault = (\<lambda>k. None),
     ipget = (\<lambda>k args. Exited True (Some (if k < 10 then [0] else if args ! 0 = ''Qa'' then [49] else if args ! 0 = ''Qv'' then [50] else [51]))),
     http_get = (\<lambda>k u. Err ''no route to host''), unpack = (\<lambda>b. None)\<rparr>"

definition demo_cache :: cache where
  "demo_cache = \<lparr>param_files = [''a.params'' \<mapsto> [7]], ipget_present = True, io_count = 0\<rparr>"

lemma demo_recovers: "recovers demo_fetch demo_map 10" "plain_names demo_map" "ipget_present demo_cache"
  by (auto simp: recovers_def demo_fetch_def demo_map_def demo_cache_def plain_names_def invalid_name_def)

lemma demo_selected: "selected demo_fetch demo_map (Some [2048]) = [''a.params'']"
  by (simp add: selected_def demo_fetch_def demo_map_def suffix_def)

theorem fetching_ends_witness:
  "\<exists>s'. download_sector_size demo_fetch (\<lambda>_. None) demo_map (Some [2048]) demo_cache = Some (Ok (), s')"
  using fetching_ends[OF demo_recovers, of "\<lambda>_. None" "Some [2048]"] by (auto simp: demo_fetch_def)

lemma demo_run:
  "\<exists>s'. download_sector_size demo_fetch (\<lambda>_. None) demo_map (Some [2048]) (demo_cache\<lparr>param_files := [''a.params'' \<mapsto> [49]], io_count := 10\<rparr>) = Some (Ok (), s')"
proof -
  let ?s = "demo_cache\<lparr>param_files := [''a.params'' \<mapsto> [49]], io_count := 10\<rparr>"
  have "\<forall>n\<in>set [''a.params'']. authentic demo_fetch demo_map ?s n"
    by (simp add: authentic_def demo_map_def demo_fetch_def)
  from filter_good[OF demo_recovers(1) _ this] obtain s' where
    "get_filenames_requiring_download demo_fetch demo_map [''a.params''] ?s = (Ok [], s')"
    by (auto simp del: get_filenames_requiring_download.simps)
  then show ?thesis by (simp add: download_sector_size_def demo_selected del: get_filenames_requiring_download.simps)
qed

theorem fetched_files_are_authentic_witness:
  "\<exists>s'. download_sector_size demo_fetch (\<lambda>_. None) demo_map (Some [2048]) (demo_cache\<lparr>param_files := [''a.params'' \<mapsto> [49]], io_count := 10\<rparr>) = Some (Ok (), s')
     \<and> authentic demo_fetch demo_map s' ''a.params''"
proof -
  obtain s' where run: "download_sector_size demo_fetch (\<lambda>_. None) demo_map (Some [2048]) (demo_cache\<lparr>param_files := [''a.params'' \<mapsto> [49]], io_count := 10\<rparr>) = Some (Ok (), s')"
    using demo_run by blast
  from fetched_files_are_authentic[OF run demo_recovers(2)] run show ?thesis by (simp add: demo_selected)
qed

end
