(* ===== verification/Command_Line.thy ===== *)
theory Command_Line
  imports C2_Plugin Operator_Cli Params_Fetch
begin

text \<open>
  The command lines of the three programs (\<open>gpuproxy/main.rs\<close>, \<open>gpuproxy_worker/main.rs\<close>, \<open>cluster_c2_plugin/main.rs\<close> and the
  commands under \<open>cli\<close>): what is declared, what each command reads, and how \<open>main\<close> dispatches. The parser \<open>clap\<close> is a library: what it returns
  is a value of type \<open>parsed\<close>, and \<open>complies\<close> says what its documentation promises about it. Help texts are left out.
\<close>

section \<open>Declarations\<close>

datatype value_parser = StringParser | UsizeParser | U64Parser | I32Parser | BoolParser

datatype arg_action = StoreValue | SetTrue | AppendValue

record arg_decl =
  ar_id :: string
  ar_long :: "string option"
  ar_env :: "string option"
  ar_default :: "string option"
  ar_global :: bool
  ar_required :: bool
  ar_multiple :: bool
  ar_last :: bool
  ar_action :: arg_action
  ar_parser :: value_parser

text \<open>\<open>Arg::new\<close>, and the two kinds of flags that occur most.\<close>

definition new_arg :: "string \<Rightarrow> arg_decl" where
  "new_arg i = \<lparr>ar_id = i, ar_long = None, ar_env = None, ar_default = None, ar_global = False, ar_required = False,
     ar_multiple = False, ar_last = False, ar_action = StoreValue, ar_parser = StringParser\<rparr>"

definition flag_arg :: "string \<Rightarrow> string \<Rightarrow> string \<Rightarrow> arg_decl" where
  "flag_arg i env dflt = (new_arg i)\<lparr>ar_long := Some i, ar_env := Some env, ar_default := Some dflt\<rparr>"

definition switch_arg :: "string \<Rightarrow> string \<Rightarrow> arg_decl" where
  "switch_arg i env = (new_arg i)\<lparr>ar_long := Some i, ar_env := Some env, ar_action := SetTrue, ar_parser := BoolParser\<rparr>"

datatype command = Command string (cmd_args: "arg_decl list") (cmd_subs: "command list")

fun cmd_name :: "command \<Rightarrow> string" where
  "cmd_name (Command n _ _) = n"

subsection \<open>The arguments all programs share\<close>

definition get_worker_arg :: "arg_decl list" where
  "get_worker_arg = [switch_arg ''no-gpu'' ''C2PROXY_NO_GPU'']"

definition allow_type_arg :: arg_decl where
  "allow_type_arg = (new_arg ''allow-type'')\<lparr>ar_long := Some ''allow-type'', ar_multiple := True, ar_parser := I32Parser\<rparr>"

subsection \<open>Subcommands\<close>

definition id_arg :: arg_decl where
  "id_arg = (new_arg ''id'')\<lparr>ar_last := True, ar_required := True\<rparr>"

definition task_cmds :: command where
  "task_cmds = Command ''task'' []
     [Command ''list'' [(new_arg ''state'')\<lparr>ar_long := Some ''state'', ar_multiple := True, ar_parser := I32Parser\<rparr>] [],
      Command ''update-state''
        [(new_arg ''state'')\<lparr>ar_long := Some ''state'', ar_required := True, ar_parser := I32Parser\<rparr>,
         id_arg\<lparr>ar_multiple := True\<rparr>] [],
      Command ''get'' [id_arg] []]"

definition worker_cmds :: command where
  "worker_cmds = Command ''worker'' []
     [Command ''list'' [] [], Command ''get'' [id_arg] [], Command ''delete'' [id_arg] [],
      Command ''offline'' [(new_arg ''dur'')\<lparr>ar_default := Some ''20m''\<rparr>] []]"

definition fetch_params_cmds :: command where
  "fetch_params_cmds = Command ''paramfetch''
     [(new_arg ''sector-size'')\<lparr>ar_long := Some ''sector-size'', ar_env := Some ''C2PROXY_SECTOR_SIZE'', ar_multiple := True,
        ar_action := AppendValue, ar_parser := U64Parser\<rparr>] []"

subsection \<open>The three programs\<close>

definition gpuproxy_app :: command where
  "gpuproxy_app = Command ''gpuproxy''
     [(flag_arg ''url'' ''C2PROXY_URL'' ''127.0.0.1:18888'')\<lparr>ar_global := True\<rparr>,
      (flag_arg ''log-level'' ''C2PROXY_LOG_LEVEL'' ''info'')\<lparr>ar_global := True\<rparr>]
     [Command ''run''
        ([flag_arg ''db-dsn'' ''C2PROXY_DSN'' ''sqlite://gpuproxy.db'',
          (flag_arg ''max-tasks'' ''C2PROXY_MAX_TASKS'' ''1'')\<lparr>ar_parser := UsizeParser\<rparr>,
          switch_arg ''disable-worker'' ''C2PROXY_DISABLE_WORKER'',
          flag_arg ''resource-type'' ''C2PROXY_RESOURCE_TYPE'' ''fs'',
          flag_arg ''fs-resource-path'' ''C2PROXY_FS_RESOURCE_PATH'' '''',
          allow_type_arg,
          switch_arg ''debug-sql'' ''C2PROXY_DEBUG_SQL''] @ get_worker_arg) [],
      task_cmds, fetch_params_cmds, worker_cmds]"

definition worker_app :: command where
  "worker_app = Command ''gpuproxy-worker'' []
     [Command ''run''
        ([flag_arg ''gpuproxy-url'' ''C2PROXY_LISTEN_URL'' ''http://127.0.0.1:18888'',
          flag_arg ''db-dsn'' ''C2PROXY_DSN'' ''sqlite://gpuproxy-worker.db'',
          (flag_arg ''max-tasks'' ''C2PROXY_MAX_TASKS'' ''1'')\<lparr>ar_parser := UsizeParser\<rparr>,
          flag_arg ''log-level'' ''C2PROXY_LOG_LEVEL'' ''info'',
          flag_arg ''resource-type'' ''C2PROXY_RESOURCE_TYPE'' ''rpc'',
          flag_arg ''fs-resource-path'' ''C2PROXY_FS_RESOURCE_PATH'' '''',
          allow_type_arg,
          switch_arg ''debug-sql'' ''C2PROXY_DEBUG_SQL'',
          (new_arg ''manual-ip'')\<lparr>ar_long := Some ''manual-ip'', ar_env := Some ''C2PROXY_MANUAL_IP''\<rparr>] @ get_worker_arg) []]"

definition plugin_app :: command where
  "plugin_app = Command ''cluster_c2_plugin'' []
     [Command ''run''
        ([flag_arg ''gpuproxy-url'' ''C2PROXY_LISTEN_URL'' ''http://127.0.0.1:18888'',
          (flag_arg ''poll-task-interval'' ''C2PROXY_POLL_TASK_INTERVAL'' ''60'')\<lparr>ar_parser := U64Parser\<rparr>,
          flag_arg ''log-level'' ''C2PROXY_LOG_LEVEL'' ''info''] @ get_worker_arg) []]"

text \<open>The arguments of the command at the end of a path, with the global ones of the commands above.\<close>

fun scope :: "arg_decl list \<Rightarrow> command \<Rightarrow> string list \<Rightarrow> arg_decl list option" where
  "scope inherited (Command _ args subs) [] = Some (inherited @ args)"
| "scope inherited (Command _ args subs) (s # path) =
     (case find (\<lambda>d. cmd_name d = s) subs of
        None \<Rightarrow> None
      | Some d \<Rightarrow> scope (inherited @ filter ar_global args) d path)"

section \<open>What the parser returns\<close>

datatype arg_value = VStr string | VUsize "64 word" | VU64 "64 word" | VI32 int | VBool bool

fun has_parser :: "value_parser \<Rightarrow> arg_value \<Rightarrow> bool" where
  "has_parser StringParser (VStr _) = True"
| "has_parser UsizeParser (VUsize _) = True"
| "has_parser U64Parser (VU64 _) = True"
| "has_parser I32Parser (VI32 _) = True"
| "has_parser BoolParser (VBool _) = True"
| "has_parser _ _ = False"

record parsed =
  pm_ids :: "string list"
  pm_vals :: "string \<Rightarrow> arg_value list"

text \<open>
  What \<open>clap\<close> documents about matches it returns: they know the declared ids, values have the type of the declared
  parser, an argument that is required or has a default or sets a switch has a value, and one that takes
  a single value has at most one.
\<close>

definition complies :: "arg_decl list \<Rightarrow> parsed \<Rightarrow> bool" where
  "complies decls m \<longleftrightarrow> pm_ids m = map ar_id decls \<and>
     (\<forall>a \<in> set decls.
        (ar_required a \<or> ar_default a \<noteq> None \<or> ar_action a = SetTrue \<longrightarrow> pm_vals m (ar_id a) \<noteq> []) \<and>
        list_all (has_parser (ar_parser a)) (pm_vals m (ar_id a)) \<and>
        (\<not> ar_multiple a \<longrightarrow> length (pm_vals m (ar_id a)) \<le> 1))"

text \<open>Access to an id that is not declared, or at another type, is a panic.\<close>

definition get_many :: "(arg_value \<Rightarrow> 'a option) \<Rightarrow> parsed \<Rightarrow> string \<Rightarrow> ('a list option, string) result" where
  "get_many conv m i =
     (if i \<notin> set (pm_ids m) then Panic (''`'' @ i @ ''` is not an id of an argument or a group'')
      else if pm_vals m i = [] then Ok None
      else case those (map conv (pm_vals m i)) of
        Some as \<Rightarrow> Ok (Some as)
      | None \<Rightarrow> Panic (''Mismatch between definition and access of `'' @ i @ ''`''))"

definition get_one :: "(arg_value \<Rightarrow> 'a option) \<Rightarrow> parsed \<Rightarrow> string \<Rightarrow> ('a option, string) result" where
  "get_one conv m i = res_map_ok (\<lambda>v. case v of Some (a # _) \<Rightarrow> Some a | _ \<Rightarrow> None) (get_many conv m i)"

definition as_string :: "arg_value \<Rightarrow> string option" where
  "as_string v = (case v of VStr s \<Rightarrow> Some s | _ \<Rightarrow> None)"

definition as_usize :: "arg_value \<Rightarrow> 64 word option" where
  "as_usize v = (case v of VUsize n \<Rightarrow> Some n | _ \<Rightarrow> None)"

definition as_u64 :: "arg_value \<Rightarrow> 64 word option" where
  "as_u64 v = (case v of VU64 n \<Rightarrow> Some n | _ \<Rightarrow> None)"

definition as_i32 :: "arg_value \<Rightarrow> int option" where
  "as_i32 v = (case v of VI32 n \<Rightarrow> Some n | _ \<Rightarrow> None)"

definition as_bool :: "arg_value \<Rightarrow> bool option" where
  "as_bool v = (case v of VBool b \<Rightarrow> Some b | _ \<Rightarrow> None)"

definition unwrap_opt :: "'a option \<Rightarrow> ('a, string) result" where
  "unwrap_opt v = (case v of Some a \<Rightarrow> Ok a | None \<Rightarrow> Panic ''called `Option::unwrap()` on a `None` value'')"

section \<open>What the commands read\<close>

text \<open>\<open>set_worker_env\<close> unwraps the flag.\<close>

definition no_gpu :: "parsed \<Rightarrow> (bool, string) result" where
  "no_gpu m = res_then (get_one as_bool m ''no-gpu'') unwrap_opt"

definition server_args :: "parsed \<Rightarrow> (run_args, string) result" where
  "server_args m =
     res_then (no_gpu m) (\<lambda>g.
     res_then (get_one as_string m ''url'') (\<lambda>url.
     res_then (get_one as_usize m ''max-tasks'') (\<lambda>max_tasks.
     res_then (get_one as_string m ''db-dsn'') (\<lambda>db_dsn.
     res_then (get_one as_string m ''log-level'') (\<lambda>log_level.
     res_then (get_one as_bool m ''debug-sql'') (\<lambda>debug_sql.
     res_then (get_one as_string m ''resource-type'') (\<lambda>resource_type.
     res_then (get_one as_string m ''fs-resource-path'') (\<lambda>fs_resource_path.
     res_then (get_one as_bool m ''disable-worker'') (\<lambda>disable_worker.
     res_map_ok (\<lambda>allow_type. \<lparr>a_url = url, a_max_tasks = max_tasks, a_db_dsn = db_dsn, a_log_level = log_level,
         a_debug_sql = debug_sql, a_resource_type = resource_type, a_fs_resource_path = fs_resource_path,
         a_disable_worker = disable_worker, a_allow_type = allow_type, a_manual_ip = None, a_no_gpu = g\<rparr>)
       (get_many as_i32 m ''allow-type''))))))))))"

definition worker_args :: "parsed \<Rightarrow> (run_args, string) result" where
  "worker_args m =
     res_then (no_gpu m) (\<lambda>g.
     res_then (get_one as_string m ''gpuproxy-url'') (\<lambda>url.
     res_then (get_one as_usize m ''max-tasks'') (\<lambda>max_tasks.
     res_then (get_one as_string m ''db-dsn'') (\<lambda>db_dsn.
     res_then (get_one as_string m ''log-level'') (\<lambda>log_level.
     res_then (get_one as_bool m ''debug-sql'') (\<lambda>debug_sql.
     res_then (get_one as_string m ''resource-type'') (\<lambda>resource_type.
     res_then (get_one as_string m ''fs-resource-path'') (\<lambda>fs_resource_path.
     res_then (get_many as_i32 m ''allow-type'') (\<lambda>allow_type.
     res_map_ok (\<lambda>manual_ip. \<lparr>a_url = url, a_max_tasks = max_tasks, a_db_dsn = db_dsn, a_log_level = log_level,
         a_debug_sql = debug_sql, a_resource_type = resource_type, a_fs_resource_path = fs_resource_path,
         a_disable_worker = None, a_allow_type = allow_type, a_manual_ip = manual_ip, a_no_gpu = g\<rparr>)
       (get_one as_string m ''manual-ip''))))))))))"

text \<open>The matches of an operator's command; a field that the command does not read stays empty.\<close>

definition no_matches :: arg_matches where
  "no_matches = \<lparr>am_url = None, am_id = None, am_ids = None, am_state = None, am_states = None, am_dur = None\<rparr>"

definition with_url :: "parsed \<Rightarrow> (arg_matches \<Rightarrow> (arg_matches, string) result) \<Rightarrow> (arg_matches, string) result" where
  "with_url m f = res_then (get_one as_string m ''url'') (\<lambda>url. f (no_matches\<lparr>am_url := url\<rparr>))"

definition task_matches :: "string \<Rightarrow> parsed \<Rightarrow> (arg_matches, string) result" where
  "task_matches sub m =
     (if sub = ''list'' then
        with_url m (\<lambda>am. res_map_ok (\<lambda>states. am\<lparr>am_states := states\<rparr>) (get_many as_i32 m ''state''))
      else if sub = ''update-state'' then
        with_url m (\<lambda>am. res_then (get_many as_string m ''id'') (\<lambda>tids.
          res_map_ok (\<lambda>state. am\<lparr>am_ids := tids, am_state := state\<rparr>) (get_one as_i32 m ''state'')))
      else if sub = ''get'' then
        with_url m (\<lambda>am. res_map_ok (\<lambda>i. am\<lparr>am_id := i\<rparr>) (get_one as_string m ''id''))
      else Ok no_matches)"

definition worker_matches :: "string \<Rightarrow> parsed \<Rightarrow> (arg_matches, string) result" where
  "worker_matches sub m =
     (if sub = ''list'' then with_url m Ok
      else if sub = ''get'' \<or> sub = ''delete'' then
        with_url m (\<lambda>am. res_map_ok (\<lambda>i. am\<lparr>am_id := i\<rparr>) (get_one as_string m ''id''))
      else if sub = ''offline'' then
        with_url m (\<lambda>am. res_map_ok (\<lambda>dur. am\<lparr>am_dur := dur\<rparr>) (get_one as_string m ''dur''))
      else Ok no_matches)"

definition sector_sizes :: "parsed \<Rightarrow> (nat list option, string) result" where
  "sector_sizes m = res_map_ok (map_option (map unat)) (get_many as_u64 m ''sector-size'')"

section \<open>The programs\<close>

text \<open>What \<open>main\<close> calls, with what it has read.\<close>

datatype invocation =
    StartServer run_args
  | TaskCommand "(string \<times> arg_matches) option"
  | WorkerCommand "(string \<times> arg_matches) option"
  | FetchParams "nat list option"
  | NoCommand

definition sub_matches ::
  "(string \<Rightarrow> parsed \<Rightarrow> (arg_matches, string) result) \<Rightarrow> string list \<Rightarrow> parsed \<Rightarrow> ((string \<times> arg_matches) option, string) result" where
  "sub_matches f path m = (case path of
     [] \<Rightarrow> Ok None
   | sub # _ \<Rightarrow> res_map_ok (\<lambda>am. Some (sub, am)) (f sub m))"

text \<open>\<open>app_m.subcommand()\<close> is the first name of the path the parser went.\<close>

definition gpuproxy_main :: "string list \<Rightarrow> parsed \<Rightarrow> (invocation, string) result" where
  "gpuproxy_main path m = (case path of
     sub # rest \<Rightarrow>
       (if sub = ''run'' then res_map_ok StartServer (server_args m)
        else if sub = ''task'' then res_map_ok TaskCommand (sub_matches task_matches rest m)
        else if sub = ''worker'' then res_map_ok WorkerCommand (sub_matches worker_matches rest m)
        else if sub = ''paramfetch'' then res_map_ok FetchParams (sector_sizes m)
        else Ok NoCommand)
   | [] \<Rightarrow> Ok NoCommand)"

definition worker_main :: "string list \<Rightarrow> parsed \<Rightarrow> (run_args option, string) result" where
  "worker_main path m = (case path of
     sub # _ \<Rightarrow> if sub = ''run'' then res_map_ok Some (worker_args m) else Ok None
   | [] \<Rightarrow> Ok None)"

definition plugin_main :: "string list \<Rightarrow> parsed \<Rightarrow> ((bool \<times> c2_plugin_cfg) option, string) result" where
  "plugin_main path m = (case path of
     sub # _ \<Rightarrow>
       if sub = ''run'' then
         res_then (no_gpu m) (\<lambda>g.
         res_then (res_then (get_one as_string m ''gpuproxy-url'') unwrap_opt) (\<lambda>url.
         res_map_ok (\<lambda>n. Some (g, \<lparr>cfg_url = url, pool_task_interval = n\<rparr>))
           (res_then (get_one as_u64 m ''poll-task-interval'') unwrap_opt)))
       else Ok None
   | [] \<Rightarrow> Ok None)"

section \<open>Every argument that is read is declared\<close>

text \<open>A read succeeds if the type is the declared one, and finds a value if the declaration guarantees one.\<close>

definition converts :: "value_parser \<Rightarrow> (arg_value \<Rightarrow> 'a option) \<Rightarrow> bool" where
  "converts p conv \<longleftrightarrow> (\<forall>v. has_parser p v \<longrightarrow> conv v \<noteq> None)"

lemma converters [simp]:
  "converts StringParser as_string" "converts UsizeParser as_usize" "converts U64Parser as_u64"
  "converts I32Parser as_i32" "converts BoolParser as_bool"
  by (auto simp: converts_def as_string_def as_usize_def as_u64_def as_i32_def as_bool_def split: arg_value.splits)

lemma those_converts: "list_all (has_parser p) vs \<Longrightarrow> converts p conv \<Longrightarrow> \<exists>as. those (map conv vs) = Some as \<and> length as = length vs"
  by (induction vs) (auto simp: converts_def)

lemma get_many_declared:
  assumes "complies decls m" "a \<in> set decls" "converts (ar_parser a) conv" "ar_id a = i"
  shows "\<exists>v. get_many conv m i = Ok v \<and>
    (ar_required a \<or> ar_default a \<noteq> None \<or> ar_action a = SetTrue \<longrightarrow> v \<noteq> None \<and> v \<noteq> Some [])"
proof -
  from assms(1,2) have a: "i \<in> set (pm_ids m)" "list_all (has_parser (ar_parser a)) (pm_vals m i)"
    "ar_required a \<or> ar_default a \<noteq> None \<or> ar_action a = SetTrue \<longrightarrow> pm_vals m i \<noteq> []"
    using assms(4) by (auto simp: complies_def)
  from those_converts[OF a(2) assms(3)] obtain as where as: "those (map conv (pm_vals m i)) = Some as" "length as = length (pm_vals m i)"
    by blast
  show ?thesis
  proof (cases "pm_vals m i = []")
    case True
    with a show ?thesis by (auto simp: get_many_def)
  next
    case False
    with as have "as \<noteq> []" by auto
    with False a(1) as show ?thesis by (auto simp: get_many_def)
  qed
qed

lemma get_one_declared:
  assumes "complies decls m" "a \<in> set decls" "converts (ar_parser a) conv" "ar_id a = i"
  shows "\<exists>v. get_one conv m i = Ok v \<and> (ar_required a \<or> ar_default a \<noteq> None \<or> ar_action a = SetTrue \<longrightarrow> v \<noteq> None)"
proof -
  from get_many_declared[OF assms] obtain v where v: "get_many conv m i = Ok v"
    "ar_required a \<or> ar_default a \<noteq> None \<or> ar_action a = SetTrue \<longrightarrow> v \<noteq> None \<and> v \<noteq> Some []" by blast
  then show ?thesis by (auto simp: get_one_def split: option.splits list.splits)
qed

text \<open>Declared, of the type it is read at, and with or without a guaranteed value.\<close>

definition readable :: "(arg_value \<Rightarrow> 'a option) \<Rightarrow> arg_decl list \<Rightarrow> string \<Rightarrow> bool" where
  "readable conv decls i \<longleftrightarrow> (\<exists>a \<in> set decls. ar_id a = i \<and> converts (ar_parser a) conv)"

definition supplied :: "(arg_value \<Rightarrow> 'a option) \<Rightarrow> arg_decl list \<Rightarrow> string \<Rightarrow> bool" where
  "supplied conv decls i \<longleftrightarrow> (\<exists>a \<in> set decls. ar_id a = i \<and> converts (ar_parser a) conv \<and>
     (ar_required a \<or> ar_default a \<noteq> None \<or> ar_action a = SetTrue))"

lemma reads:
  assumes "complies decls m"
  shows "readable conv decls i \<Longrightarrow> \<exists>v. get_many conv m i = Ok v"
    and "readable conv decls i \<Longrightarrow> \<exists>v. get_one conv m i = Ok v"
    and "supplied conv decls i \<Longrightarrow> \<exists>v. get_many conv m i = Ok (Some v)"
    and "supplied conv decls i \<Longrightarrow> \<exists>v. get_one conv m i = Ok (Some v)"
  using get_many_declared[OF assms] get_one_declared[OF assms] unfolding readable_def supplied_def by blast+

lemmas arg_defs = new_arg_def flag_arg_def switch_arg_def id_arg_def allow_type_arg_def get_worker_arg_def

lemmas app_defs = gpuproxy_app_def worker_app_def plugin_app_def task_cmds_def worker_cmds_def fetch_params_cmds_def

text \<open>The commands a command line can end in.\<close>

fun leaves :: "command \<Rightarrow> string list list" where
  "leaves (Command _ _ subs) = (if subs = [] then [[]] else concat (map (\<lambda>d. map (Cons (cmd_name d)) (leaves d)) subs))"

lemma gpuproxy_leaves: "leaves gpuproxy_app =
  [[''run''], [''task'', ''list''], [''task'', ''update-state''], [''task'', ''get''], [''paramfetch''],
   [''worker'', ''list''], [''worker'', ''get''], [''worker'', ''delete''], [''worker'', ''offline'']]"
  by (simp add: app_defs)

text \<open>What each command needs of its arguments.\<close>

definition complete :: "invocation \<Rightarrow> bool" where
  "complete call = (case call of
     StartServer a \<Rightarrow> \<forall>msg. service_config_of_args a \<noteq> Err msg
   | TaskCommand (Some (sub, am)) \<Rightarrow> am_url am \<noteq> None \<and>
       (sub = ''list'' \<or> sub = ''update-state'' \<and> am_ids am \<noteq> None \<and> am_state am \<noteq> None \<or> sub = ''get'' \<and> am_id am \<noteq> None)
   | WorkerCommand (Some (sub, am)) \<Rightarrow> am_url am \<noteq> None \<and>
       (sub = ''list'' \<or> (sub = ''get'' \<or> sub = ''delete'') \<and> am_id am \<noteq> None \<or> sub = ''offline'' \<and> am_dur am \<noteq> None)
   | FetchParams _ \<Rightarrow> True
   | _ \<Rightarrow> False)"

lemma try_types_no_Err: "try_types ns \<noteq> Err msg"
  by (induction ns) (auto simp: res_map_ok_def split: result.splits)

lemma allow_types_no_Err: "allow_types_of v \<noteq> Err msg"
  using try_types_no_Err by (auto simp: allow_types_of_def res_map_ok_def split: option.splits result.splits)

lemma server_args_found:
  assumes "scope [] gpuproxy_app [''run''] = Some decls" "complies decls m"
  shows "\<exists>a. server_args m = Ok a \<and> (\<forall>msg. service_config_of_args a \<noteq> Err msg)"
proof -
  have decls: "decls = the (scope [] gpuproxy_app [''run''])" using assms(1) by simp
  note r = reads[OF assms(2)]
  have "supplied as_string decls i" if "i \<in> {''url'', ''db-dsn'', ''log-level'', ''resource-type'', ''fs-resource-path''}" for i
    using that unfolding decls by (auto simp: supplied_def app_defs arg_defs)
  moreover have "supplied as_bool decls i" if "i \<in> {''no-gpu'', ''debug-sql'', ''disable-worker''}" for i
    using that unfolding decls by (auto simp: supplied_def app_defs arg_defs)
  moreover have "supplied as_usize decls ''max-tasks''" "readable as_i32 decls ''allow-type''"
    unfolding decls by (simp_all add: supplied_def readable_def app_defs arg_defs)
  ultimately obtain g url n dsn l q rt fs dw ts where
    "get_one as_bool m ''no-gpu'' = Ok (Some g)" "get_one as_string m ''url'' = Ok (Some url)" "get_one as_usize m ''max-tasks'' = Ok (Some n)"
    "get_one as_string m ''db-dsn'' = Ok (Some dsn)" "get_one as_string m ''log-level'' = Ok (Some l)"
    "get_one as_bool m ''debug-sql'' = Ok (Some q)" "get_one as_string m ''resource-type'' = Ok (Some rt)"
    "get_one as_string m ''fs-resource-path'' = Ok (Some fs)" "get_one as_bool m ''disable-worker'' = Ok (Some dw)"
    "get_many as_i32 m ''allow-type'' = Ok ts"
    using r(1,4) by (metis insertCI)
  then show ?thesis
    using allow_types_no_Err by (simp add: server_args_def no_gpu_def res_then_def unwrap_opt_def service_config_of_args_def flag_def
        split: result.split)
qed

lemma worker_args_found:
  assumes "scope [] worker_app [''run''] = Some decls" "complies decls m"
  shows "\<exists>a. worker_args m = Ok a \<and> (\<forall>msg. worker_config_of_args a \<noteq> Err msg)"
proof -
  have decls: "decls = the (scope [] worker_app [''run''])" using assms(1) by simp
  note r = reads[OF assms(2)]
  have "supplied as_string decls i" if "i \<in> {''gpuproxy-url'', ''db-dsn'', ''log-level'', ''resource-type'', ''fs-resource-path''}" for i
    using that unfolding decls by (auto simp: supplied_def app_defs arg_defs)
  moreover have "supplied as_bool decls i" if "i \<in> {''no-gpu'', ''debug-sql''}" for i
    using that unfolding decls by (auto simp: supplied_def app_defs arg_defs)
  moreover have "supplied as_usize decls ''max-tasks''" "readable as_i32 decls ''allow-type''" "readable as_string decls ''manual-ip''"
    unfolding decls by (simp_all add: supplied_def readable_def app_defs arg_defs)
  ultimately obtain g url n dsn l q rt fs ip ts where
    "get_one as_bool m ''no-gpu'' = Ok (Some g)" "get_one as_string m ''gpuproxy-url'' = Ok (Some url)" "get_one as_usize m ''max-tasks'' = Ok (Some n)"
    "get_one as_string m ''db-dsn'' = Ok (Some dsn)" "get_one as_string m ''log-level'' = Ok (Some l)"
    "get_one as_bool m ''debug-sql'' = Ok (Some q)" "get_one as_string m ''resource-type'' = Ok (Some rt)"
    "get_one as_string m ''fs-resource-path'' = Ok (Some fs)" "get_one as_string m ''manual-ip'' = Ok ip"
    "get_many as_i32 m ''allow-type'' = Ok ts"
    using r(1,2,4) by (metis insertCI)
  then show ?thesis
    using allow_types_no_Err by (simp add: worker_args_def no_gpu_def res_then_def unwrap_opt_def worker_config_of_args_def flag_def
        split: result.split)
qed

lemma plugin_args_found:
  assumes "scope [] plugin_app [''run''] = Some decls" "complies decls m"
  shows "\<exists>g cfg. plugin_main [''run''] m = Ok (Some (g, cfg))"
proof -
  have decls: "decls = the (scope [] plugin_app [''run''])" using assms(1) by simp
  note r = reads[OF assms(2)]
  have "supplied as_bool decls ''no-gpu''" "supplied as_string decls ''gpuproxy-url''" "supplied as_u64 decls ''poll-task-interval''"
    unfolding decls by (simp_all add: supplied_def app_defs arg_defs)
  from this[THEN r(4)] show ?thesis by (auto simp: plugin_main_def no_gpu_def res_then_def unwrap_opt_def)
qed

lemma operator_args_found:
  assumes path: "path \<in> {[''task'', ''list''], [''task'', ''update-state''], [''task'', ''get''],
      [''worker'', ''list''], [''worker'', ''get''], [''worker'', ''delete''], [''worker'', ''offline'']}"
    and "scope [] gpuproxy_app path = Some decls" "complies decls m"
  shows "\<exists>call. gpuproxy_main path m = Ok call \<and> complete call"
proof -
  have decls: "decls = the (scope [] gpuproxy_app path)" using assms(2) by simp
  note r = reads[OF assms(3)]
  have url: "supplied as_string decls ''url''"
    using path unfolding decls by (elim insertE emptyE; simp add: supplied_def app_defs arg_defs)
  then obtain url where url: "get_one as_string m ''url'' = Ok (Some url)" using r(4) by blast
  have i: "\<exists>i. get_one as_string m ''id'' = Ok (Some i)" if "path \<in> {[''task'', ''get''], [''worker'', ''get''], [''worker'', ''delete'']}"
    using that unfolding decls by (intro r(4)) (elim insertE emptyE; simp add: decls supplied_def app_defs arg_defs)
  have up: "(\<exists>i. get_many as_string m ''id'' = Ok (Some i)) \<and> (\<exists>n. get_one as_i32 m ''state'' = Ok (Some n))"
    if "path = [''task'', ''update-state'']"
    using that by (intro conjI r(3,4)) (simp_all add: decls supplied_def app_defs arg_defs)
  have lst: "\<exists>v. get_many as_i32 m ''state'' = Ok v" if "path = [''task'', ''list'']"
    using that by (intro r(1)) (simp add: decls readable_def app_defs arg_defs)
  have dur: "\<exists>v. get_one as_string m ''dur'' = Ok (Some v)" if "path = [''worker'', ''offline'']"
    using that by (intro r(4)) (simp add: decls supplied_def app_defs arg_defs)
  note defs = gpuproxy_main_def sub_matches_def task_matches_def worker_matches_def with_url_def url res_then_def complete_def no_matches_def
  from path show ?thesis
    by (elim insertE emptyE; hypsubst)
      (use i up lst dur in \<open>simp add: defs; elim exE conjE; simp\<close>)+
qed

lemma paramfetch_args_found:
  assumes "scope [] gpuproxy_app [''paramfetch''] = Some decls" "complies decls m"
  shows "\<exists>v. gpuproxy_main [''paramfetch''] m = Ok (FetchParams v) \<and> (v = None \<longleftrightarrow> pm_vals m ''sector-size'' = [])"
proof -
  have decls: "decls = the (scope [] gpuproxy_app [''paramfetch''])" using assms(1) by simp
  have "readable as_u64 decls ''sector-size''" unfolding decls by (simp add: readable_def app_defs arg_defs)
  then obtain v where v: "get_many as_u64 m ''sector-size'' = Ok v" using reads(1)[OF assms(2)] by blast
  then have "v = None \<longleftrightarrow> pm_vals m ''sector-size'' = []"
    by (cases v) (auto simp: get_many_def split: if_split_asm option.split_asm)
  with v show ?thesis by (simp add: gpuproxy_main_def sector_sizes_def)
qed

text \<open>C33. Whatever command of the three programs the parser accepts, every argument the code reads is declared, with the type
  it is read at, and is present where the code needs it: starting the server, a worker or the plugin and every operator command
  never stop at a missing flag or at a type mismatch. Only \<open>paramfetch\<close> may find no sector size.\<close>

theorem arguments_complete:
  "(\<forall>path \<in> set (leaves gpuproxy_app). \<forall>decls m. scope [] gpuproxy_app path = Some decls \<and> complies decls m \<longrightarrow>
      (\<exists>call. gpuproxy_main path m = Ok call \<and> complete call)) \<and>
   (\<forall>decls m. scope [] worker_app [''run''] = Some decls \<and> complies decls m \<longrightarrow>
      (\<exists>a. worker_main [''run''] m = Ok (Some a) \<and> (\<forall>msg. worker_config_of_args a \<noteq> Err msg))) \<and>
   (\<forall>decls m. scope [] plugin_app [''run''] = Some decls \<and> complies decls m \<longrightarrow>
      (\<exists>g cfg. plugin_main [''run''] m = Ok (Some (g, cfg))))"
proof (intro conjI allI ballI impI; (elim conjE)?)
  fix path decls m
  assume path: "path \<in> set (leaves gpuproxy_app)" and d: "scope [] gpuproxy_app path = Some decls" "complies decls m"
  then consider (run) "path = [''run'']" | (params) "path = [''paramfetch'']"
    | (operator) "path \<in> {[''task'', ''list''], [''task'', ''update-state''], [''task'', ''get''],
      [''worker'', ''list''], [''worker'', ''get''], [''worker'', ''delete''], [''worker'', ''offline'']}"
    by (simp only: gpuproxy_leaves list.set insert_iff empty_iff) (elim disjE; simp only: simp_thms)
  then show "\<exists>call. gpuproxy_main path m = Ok call \<and> complete call"
  proof cases
    case run
    from server_args_found[OF d[unfolded run]] obtain a where "server_args m = Ok a" "\<forall>msg. service_config_of_args a \<noteq> Err msg"
      by blast
    with run show ?thesis by (simp add: gpuproxy_main_def complete_def)
  next
    case params
    from paramfetch_args_found[OF d[unfolded params]] obtain v where "gpuproxy_main [''paramfetch''] m = Ok (FetchParams v)" by blast
    with params show ?thesis by (simp add: complete_def)
  next
    case operator
    from operator_args_found[OF this d] show ?thesis .
  qed
next
  fix decls m assume "scope [] worker_app [''run''] = Some decls" "complies decls m"
  from worker_args_found[OF this]
  show "\<exists>a. worker_main [''run''] m = Ok (Some a) \<and> (\<forall>msg. worker_config_of_args a \<noteq> Err msg)"
    by (auto simp: worker_main_def)
qed (rule plugin_args_found)

section \<open>Started with nothing on the command line\<close>

definition parse_u64 :: "string \<Rightarrow> 64 word option" where
  "parse_u64 s =
     (let ds = (case s of [] \<Rightarrow> [] | c # r \<Rightarrow> if c = CHR ''+'' then r else s) in
      if ds = [] \<or> \<not> list_all (\<lambda>c. c \<in> set ''0123456789'') ds then None
      else let n = foldl (\<lambda>n c. 10 * n + (of_char c - 48 :: int)) 0 ds in
        if n < 2 ^ 64 then Some (word_of_int n) else None)"

text \<open>The value a default text stands for. No default is declared for other types.\<close>

fun parse_value :: "value_parser \<Rightarrow> string \<Rightarrow> arg_value option" where
  "parse_value StringParser s = Some (VStr s)"
| "parse_value UsizeParser s = map_option VUsize (parse_u64 s)"
| "parse_value U64Parser s = map_option VU64 (parse_u64 s)"
| "parse_value _ s = None"

text \<open>The matches when no argument is given and no variable is set: switches are off, defaults are parsed.\<close>

definition bare_values :: "arg_decl \<Rightarrow> arg_value list" where
  "bare_values a = (if ar_action a = SetTrue then [VBool False]
     else case ar_default a of None \<Rightarrow> [] | Some s \<Rightarrow> (case parse_value (ar_parser a) s of None \<Rightarrow> [] | Some v \<Rightarrow> [v]))"

definition bare :: "arg_decl list \<Rightarrow> parsed" where
  "bare decls = \<lparr>pm_ids = map ar_id decls,
     pm_vals = (\<lambda>i. case find (\<lambda>a. ar_id a = i) decls of None \<Rightarrow> [] | Some a \<Rightarrow> bare_values a)\<rparr>"

definition bare_run :: "command \<Rightarrow> parsed" where
  "bare_run app = bare (the (scope [] app [''run'']))"

definition default_service :: service_config where
  "default_service = \<lparr>sc_url = ''127.0.0.1:18888'', sc_db_dsn = ''sqlite://gpuproxy.db'', sc_disable_worker = False,
     sc_max_tasks = 1, sc_allow_types = None, sc_log_level = ''info'', sc_resource = FS [], sc_debug_sql = False\<rparr>"

definition default_worker :: worker_config where
  "default_worker = \<lparr>wcf_url = ''http://127.0.0.1:18888'', wcf_db_dsn = ''sqlite://gpuproxy-worker.db'', wcf_max_tasks = 1,
     wcf_allow_types = None, wcf_log_level = ''info'', wcf_resource = RPC, wcf_debug_sql = False, wcf_manual_ip = None\<rparr>"

definition default_plugin :: c2_plugin_cfg where
  "default_plugin = \<lparr>cfg_url = ''http://127.0.0.1:18888'', pool_task_interval = 60\<rparr>"

lemma bare_complies:
  "complies (the (scope [] gpuproxy_app [''run''])) (bare_run gpuproxy_app)"
  "complies (the (scope [] worker_app [''run''])) (bare_run worker_app)"
  "complies (the (scope [] plugin_app [''run''])) (bare_run plugin_app)"
  by (code_simp)+

text \<open>Started with nothing on their command lines and no environment variables, the server keeps parameters in files of its working
  directory, the worker reads them over RPC, and the worker and the plugin connect to the very address the server listens on.\<close>

theorem default_programs:
  assumes "uri_has_scheme p ''127.0.0.1:18888'' = Ok False" "uri_has_scheme p ''http://127.0.0.1:18888'' = Ok True"
  shows "(\<exists>a. gpuproxy_main [''run''] (bare_run gpuproxy_app) = Ok (StartServer a) \<and> service_config_of_args a = Ok default_service) \<and>
    (\<exists>a. worker_main [''run''] (bare_run worker_app) = Ok (Some a) \<and> worker_config_of_args a = Ok default_worker) \<and>
    plugin_main [''run''] (bare_run plugin_app) = Ok (Some (False, default_plugin)) \<and>
    get_proxy_api p (wcf_url default_worker) = get_proxy_api p (sc_url default_service) \<and>
    get_proxy_api p (cfg_url default_plugin) = get_proxy_api p (sc_url default_service) \<and>
    service_backend (sc_resource default_service) = Ok (FileResource []) \<and>
    worker_source_of (wcf_resource default_worker) = Ok OverRpc"
proof -
  have "gpuproxy_main [''run''] (bare_run gpuproxy_app) =
      Ok (StartServer \<lparr>a_url = Some ''127.0.0.1:18888'', a_max_tasks = Some 1, a_db_dsn = Some ''sqlite://gpuproxy.db'',
        a_log_level = Some ''info'', a_debug_sql = Some False, a_resource_type = Some ''fs'', a_fs_resource_path = Some [],
        a_disable_worker = Some False, a_allow_type = None, a_manual_ip = None, a_no_gpu = False\<rparr>)" by code_simp
  moreover have "worker_main [''run''] (bare_run worker_app) =
      Ok (Some \<lparr>a_url = Some ''http://127.0.0.1:18888'', a_max_tasks = Some 1, a_db_dsn = Some ''sqlite://gpuproxy-worker.db'',
        a_log_level = Some ''info'', a_debug_sql = Some False, a_resource_type = Some ''rpc'', a_fs_resource_path = Some [],
        a_disable_worker = None, a_allow_type = None, a_manual_ip = None, a_no_gpu = False\<rparr>)" by code_simp
  moreover have "plugin_main [''run''] (bare_run plugin_app) = Ok (Some (False, default_plugin))" by code_simp
  ultimately show ?thesis using assms
    by (simp add: service_config_of_args_def worker_config_of_args_def allow_types_of_def service_config_new_def worker_config_new_def
        resource_of_type_def default_service_def default_worker_def default_plugin_def flag_def res_then_def get_proxy_api_def
        service_backend_def worker_source_of_def)
qed

theorem default_programs_witness:
  "get_proxy_api demo_platform (wcf_url default_worker) = get_proxy_api demo_platform (sc_url default_service)"
proof -
  have s: "uri_has_scheme demo_platform ''127.0.0.1:18888'' = Ok False" "uri_has_scheme demo_platform ''http://127.0.0.1:18888'' = Ok True"
    by (simp_all add: demo_platform_def)
  from default_programs[OF s] show ?thesis by blast
qed

theorem arguments_complete_witness:
  "\<exists>call. gpuproxy_main [''run''] (bare_run gpuproxy_app) = Ok call \<and> complete call"
proof -
  have "[''run''] \<in> set (leaves gpuproxy_app)" by (simp add: gpuproxy_leaves)
  moreover have "\<exists>decls. scope [] gpuproxy_app [''run''] = Some decls" by (simp add: app_defs)
  then obtain decls where "scope [] gpuproxy_app [''run''] = Some decls" by blast
  moreover from this bare_complies(1) have "complies decls (bare_run gpuproxy_app)" by simp
  ultimately show ?thesis using arguments_complete by blast
qed

end
