(* ===== verification/Program_Runs.thy ===== *)
theory Program_Runs
  imports Service_Config
begin

text \<open>
  The two programs from their start to their end: \<open>start_server\<close> and \<open>run_worker\<close> wait for a signal, then the server stops
  its listener, and the process ends with whatever its tasks were doing. What carries over to the next run is in the databases.
\<close>

section \<open>Waiting for the end\<close>

datatype os_signal = Interrupt | Terminate | CtrlC

text \<open>Whether a handler can be installed, the first signal that comes, if one ever does, and \<open>HttpServerHandle::stop\<close> of \<open>jsonrpsee\<close>.\<close>

record os_env =
  install :: "os_signal \<Rightarrow> (unit, string) result"
  first_signal :: "os_signal option"
  stop_listening :: "(unit, string) result"

text \<open>The end of \<open>start_server\<close>; \<open>None\<close> if no signal comes. The future \<open>ctrl_c()\<close> also ends when its own handler cannot be installed.\<close>

definition end_server :: "os_env \<Rightarrow> (unit, string) result option" where
  "end_server env = (case res_then (install env Interrupt) (\<lambda>_. install env Terminate) of
     Ok _ \<Rightarrow> (if first_signal env = None \<and> is_ok (install env CtrlC) then None else Some (stop_listening env))
   | r \<Rightarrow> Some r)"

text \<open>The end of \<open>run_worker\<close>.\<close>

definition end_worker :: "os_env \<Rightarrow> (unit, string) result option" where
  "end_worker env = (case res_then (install env Interrupt) (\<lambda>_. install env Terminate) of
     Ok _ \<Rightarrow> (if first_signal env \<in> {Some Interrupt, Some Terminate} then Some (Ok ()) else None)
   | r \<Rightarrow> Some r)"

section \<open>The next run\<close>

lemma run_worker_id:
  assumes single: "wi_single w" and run: "run_worker x e p a w = (Ok (src, lw, info, m), w')"
  shows "\<exists>r. wi_tab w' = [r] \<and> (wi_tab w = [r] \<and> uuid_parse_str x (wi_id r) = Ok (lw_worker_id lw) \<or>
      wi_tab w = [] \<and> wi_id r = lw_worker_id lw \<and> lw_worker_id lw \<in> range (uuid4 e))"
    "process_tasks lw w' = Ok m"
proof -
  from run have "\<exists>url w1. ensure_db_file e url w = (Ok (), w1) \<and> get_worker_id x e w1 = (Ok (lw_worker_id lw), w') \<and>
      process_tasks lw w' = Ok m"
    by (auto simp: run_worker_def stmt_Ok_iff Let_def map_ok_Ok_iff run_local_worker_Ok local_worker_new_def) (rule exI, rule exI, rule conjI, assumption, assumption)
  then obtain url w1 where f: "ensure_db_file e url w = (Ok (), w1)"
    and i: "get_worker_id x e w1 = (Ok (lw_worker_id lw), w')" and m: "process_tasks lw w' = Ok m" by blast
  have "wi_tab w1 = wi_tab w" using ensure_db_file_tabs[OF f] by (simp add: same_tabs_def)
  then show "\<exists>r. wi_tab w' = [r] \<and> (wi_tab w = [r] \<and> uuid_parse_str x (wi_id r) = Ok (lw_worker_id lw) \<or>
      wi_tab w = [] \<and> wi_id r = lw_worker_id lw \<and> lw_worker_id lw \<in> range (uuid4 e))"
    using get_worker_id_Ok[OF i] single by (simp add: wi_single_def)
  show "process_tasks lw w' = Ok m" by (rule m)
qed

text \<open>C16. A worker program that ends, by a signal or a crash, and is run again on the same database of its own, with whatever
  arguments, is the same worker to the server: it has its old id, and the first thing it takes on is exactly the set of tasks
  that are running under that id on the server, so that none of the tasks it was given is lost.\<close>

theorem restarted_worker_resumes:
  assumes single: "wi_single w0" and first: "run_worker x e p a w0 = (Ok (src, lw, info, m), w1)"
    and kept: "wi_tab w2 = wi_tab w1" and again: "run_worker x e' p' a' w2 = (Ok (src', lw', info', m'), w3)"
    and canonical: "\<And>k. uuid_parse_str x (uuid4 e k) = Ok (uuid4 e k)"
    and step: "worker_step x e'' b res seals rs lw' allowed (m'\<lparr>wld := w\<rparr>) m2" "fet m2 = Waiting ts"
  shows "lw_worker_id lw' = lw_worker_id lw \<and> set ts = {t \<in> set (task_tab w). tk_state t = Running \<and> tk_worker_id t = lw_worker_id lw}"
proof -
  from run_worker_id(1)[OF single first] canonical obtain r where
    r: "wi_tab w1 = [r]" "uuid_parse_str x (wi_id r) = Ok (lw_worker_id lw)" by fastforce
  then have "wi_single w2" using kept by (simp add: wi_single_def)
  note second = run_worker_id[OF this again]
  from second(1) r kept have same: "lw_worker_id lw' = lw_worker_id lw" by auto
  have "fet m' = Starting" using second(2) by (auto simp: process_tasks_def split: if_splits)
  with step obtain w' where "wc_fetch_uncompleted x e'' b (lw_worker_id lw') w = (Ok ts, w')"
    by cases auto
  from uncompleted_tasks(2)[OF this] same show ?thesis by simp
qed


lemma demo_uncompleted: "\<exists>ts w'. wc_fetch_uncompleted demo_ext quiet DbResource wk w = (Ok ts, w')"
  by (simp add: wc_fetch_uncompleted_def and_then_def rpc_call_def map_ok_def fetch_uncompleted_def internal_call_error_def
      map_err_def db_fetch_uncompleted_def find_all_def sql_def expect_tasks_def ok_def quiet_def)

abbreviation demo_run :: "run_args \<Rightarrow> world \<Rightarrow> (worker_source \<times> local_worker \<times> (string \<times> string) \<times> machine, string) result \<times> world" where
  "demo_run \<equiv> run_worker demo_ext quiet demo_platform"

text \<open>The second run is allowed three tasks at a time; meanwhile the server has a task that the first one was given.\<close>

theorem restarted_worker_resumes_witness:
  "\<exists>src lw info m w1 src' lw' info' m' w2. demo_run demo_args empty_world = (Ok (src, lw, info, m), w1) \<and>
     demo_run (demo_args\<lparr>a_max_tasks := Some 3\<rparr>) w1 = (Ok (src', lw', info', m'), w2) \<and> lw_worker_id lw' = lw_worker_id lw \<and>
     (\<exists>ts w'. worker_step demo_ext quiet DbResource (worker_resource demo_ext quiet DbResource src') demo_seals 5 lw' (\<lambda>_. False)
         (m'\<lparr>wld := busy_world\<lparr>task_tab := [mk_task ''t3'' ''r3'' Running (lw_worker_id lw) 5]\<rparr>\<rparr>) (m'\<lparr>wld := w', fet := Waiting ts\<rparr>) \<and>
       set ts = {mk_task ''t3'' ''r3'' Running (lw_worker_id lw) 5})"
proof -
  have "is_ok (fst (demo_run demo_args empty_world))" by code_simp
  from run_ok[OF this] obtain src lw info m w1 where first: "demo_run demo_args empty_world = (Ok (src, lw, info, m), w1)" by auto
  have "is_ok (fst (demo_run (demo_args\<lparr>a_max_tasks := Some 3\<rparr>) (snd (demo_run demo_args empty_world))))" by code_simp
  then have "is_ok (fst (demo_run (demo_args\<lparr>a_max_tasks := Some 3\<rparr>) w1))" by (simp add: first)
  from run_ok[OF this] obtain src' lw' info' m' w2 where
    again: "demo_run (demo_args\<lparr>a_max_tasks := Some 3\<rparr>) w1 = (Ok (src', lw', info', m'), w2)" by auto
  have single: "wi_single empty_world" by (simp add: wi_single_def empty_world_def)
  have canonical: "uuid_parse_str demo_ext (uuid4 quiet k) = Ok (uuid4 quiet k)" for k by (simp add: demo_ext_def)
  let ?t = "mk_task ''t3'' ''r3'' Running (lw_worker_id lw) 5"
  let ?w = "busy_world\<lparr>task_tab := [?t]\<rparr>"
  obtain ts w' where fetched: "wc_fetch_uncompleted demo_ext quiet DbResource (lw_worker_id lw') ?w = (Ok ts, w')"
    using demo_uncompleted by blast
  have "wi_single w1" using run_worker_id(1)[OF single first] by (auto simp: wi_single_def)
  then have "fet m' = Starting" using run_worker_id(2)[OF _ again] by (auto simp: process_tasks_def split: if_splits)
  then have step: "worker_step demo_ext quiet DbResource (worker_resource demo_ext quiet DbResource src') demo_seals 5 lw' (\<lambda>_. False)
      (m'\<lparr>wld := ?w\<rparr>) (m'\<lparr>wld := w', fet := Waiting ts\<rparr>)"
    using worker_step.resume[of "m'\<lparr>wld := ?w\<rparr>"] fetched by simp
  have fet: "fet (m'\<lparr>wld := w', fet := Waiting ts\<rparr>) = Waiting ts" by simp
  have same: "lw_worker_id lw' = lw_worker_id lw" and "set ts = {t \<in> set (task_tab ?w). tk_state t = Running \<and> tk_worker_id t = lw_worker_id lw}"
    using restarted_worker_resumes[OF single first refl again canonical step fet] by blast+
  moreover have "task_tab ?w = [?t]" "tk_state ?t = Running" "tk_worker_id ?t = lw_worker_id lw" by (simp_all add: mk_task_def)
  ultimately have "set ts = {?t}" by (simp only: list.set) blast
  with step have "\<exists>ts w'. worker_step demo_ext quiet DbResource (worker_resource demo_ext quiet DbResource src') demo_seals 5 lw' (\<lambda>_. False)
      (m'\<lparr>wld := ?w\<rparr>) (m'\<lparr>wld := w', fet := Waiting ts\<rparr>) \<and> set ts = {?t}" by blast
  with first again same show ?thesis
    by (intro exI[of _ src] exI[of _ lw] exI[of _ info] exI[of _ m] exI[of _ w1] exI[of _ src'] exI[of _ lw'] exI[of _ info']
        exI[of _ m'] exI[of _ w2] conjI)
qed

end
