(* ===== verification/Migrations.thy ===== *)
theory Migrations
  imports Proxy_Prelude
begin

text \<open>
  The schema the server needs (the crate \<open>migration\<close>): four migrations, each a few DDL statements against the schema
  of the database, and the columns the entities of the crate \<open>entity\<close> read and write.
  A DDL statement may fail (\<open>ddl_fault\<close>, numbered by the statements issued so far), without effect or with only its
  answer lost; the record of a migration that succeeded may fail as well (\<open>record_fault\<close>). The texts of the database's
  own errors are fields of the environment, since \<open>ignore_exist\<close> decides by them.
\<close>

section \<open>Schemas and statements\<close>

text \<open>The column types in use: \<open>string()\<close>, \<open>Text\<close>, \<open>Binary\<close> of either size, 32-bit and 64-bit integers.\<close>

datatype col_type = StringCol | TextCol | BlobLongCol | BinaryCol | IntegerCol | BigIntegerCol

record column =
  col_name :: string
  col_type :: col_type
  col_not_null :: bool
  col_primary :: bool
  col_default :: "string option"

text \<open>\<open>stmts\<close> counts the statements issued.\<close>

record schema =
  tables :: "(string \<times> column list) list"
  indexes :: "(string \<times> string \<times> string list) list"
  stmts :: nat

text \<open>A fault has a text; with \<open>True\<close> the statement took effect and only its answer was lost.\<close>

record schema_env =
  ddl_fault :: "nat \<Rightarrow> (string \<times> bool) option"
  record_fault :: "string \<Rightarrow> string option"
  duplicate_index :: "string \<Rightarrow> string"
  duplicate_column :: "string \<Rightarrow> string"
  no_such_table :: "string \<Rightarrow> string"

type_synonym 'a ddl = "(schema, 'a, string) prog"

text \<open>One statement.\<close>

definition ddl :: "schema_env \<Rightarrow> unit ddl \<Rightarrow> unit ddl" where
  "ddl e f s = (let s' = s\<lparr>stmts := Suc (stmts s)\<rparr> in
     case ddl_fault e (stmts s) of
       Some (m, took_effect) \<Rightarrow> (Err m, if took_effect then snd (f s') else s')
     | None \<Rightarrow> f s')"

definition create_table_if_not_exists :: "schema_env \<Rightarrow> string \<Rightarrow> column list \<Rightarrow> unit ddl" where
  "create_table_if_not_exists e t cols = ddl e (\<lambda>s.
     if map_of (tables s) t \<noteq> None then (Ok (), s) else (Ok (), s\<lparr>tables := tables s @ [(t, cols)]\<rparr>))"

definition create_index :: "schema_env \<Rightarrow> string \<Rightarrow> string \<Rightarrow> string list \<Rightarrow> unit ddl" where
  "create_index e t name cols = ddl e (\<lambda>s.
     if map_of (tables s) t = None then (Err (no_such_table e t), s)
     else if map_of (indexes s) name \<noteq> None then (Err (duplicate_index e name), s)
     else (Ok (), s\<lparr>indexes := indexes s @ [(name, t, cols)]\<rparr>))"

definition add_column :: "schema_env \<Rightarrow> string \<Rightarrow> column \<Rightarrow> unit ddl" where
  "add_column e t c = ddl e (\<lambda>s.
     case map_of (tables s) t of
       None \<Rightarrow> (Err (no_such_table e t), s)
     | Some cols \<Rightarrow>
         if col_name c \<in> col_name ` set cols then (Err (duplicate_column e (col_name c)), s)
         else (Ok (), s\<lparr>tables := map (\<lambda>(n, cs). if n = t then (n, cs @ [c]) else (n, cs)) (tables s)\<rparr>))"

text \<open>A sequence of awaited statements, each followed by a question mark.\<close>

fun each :: "('x \<Rightarrow> ('s, unit, 'e) prog) \<Rightarrow> 'x list \<Rightarrow> ('s, unit, 'e) prog" where
  "each f [] = ok ()"
| "each f (x # xs) = and_then (f x) (\<lambda>_. each f xs)"

section \<open>The migrations\<close>

definition pk :: "string \<Rightarrow> column" where
  "pk n = \<lparr>col_name = n, col_type = StringCol, col_not_null = True, col_primary = True, col_default = None\<rparr>"

definition required :: "string \<Rightarrow> col_type \<Rightarrow> column" where
  "required n t = \<lparr>col_name = n, col_type = t, col_not_null = True, col_primary = False, col_default = None\<rparr>"

definition m20220101_up :: "schema_env \<Rightarrow> unit ddl" where
  "m20220101_up e =
     and_then (create_table_if_not_exists e ''resource_infos''
       [pk ''id'', required ''data'' BlobLongCol, required ''create_at'' IntegerCol]) (\<lambda>_.
     and_then (create_table_if_not_exists e ''worker_infos'' [pk ''id'']) (\<lambda>_.
     create_table_if_not_exists e ''tasks''
       [pk ''id'', required ''miner'' StringCol, required ''resource_id'' StringCol, required ''proof'' BinaryCol,
        required ''worker_id'' StringCol, required ''task_type'' IntegerCol, required ''error_msg'' StringCol,
        required ''state'' IntegerCol, required ''create_at'' IntegerCol, required ''start_at'' IntegerCol,
        required ''complete_at'' IntegerCol]))"

text \<open>The decision is made by the text of the error.\<close>

definition ignore_exist :: "(unit, string) result \<Rightarrow> (unit, string) result" where
  "ignore_exist r = (case r of
     Err e_str \<Rightarrow> if str_contains e_str ''Duplicate key name'' then Ok () else Err e_str
   | _ \<Rightarrow> Ok ())"

definition ignoring_exist :: "unit ddl \<Rightarrow> unit ddl" where
  "ignoring_exist m s = (case m s of (r, s') \<Rightarrow> (ignore_exist r, s'))"

definition task_indexes :: "(string \<times> string list) list" where
  "task_indexes = [(''tasks_create_at'', [''create_at'']), (''tasks_start_at'', [''start_at'']),
     (''tasks_complete_at'', [''complete_at'']), (''tasks_state'', [''state'']),
     (''tasks_tasktype'', [''task_type'']), (''tasks_worker_id'', [''worker_id'']),
     (''tasks_workerid_state'', [''worker_id'', ''state'']),
     (''tasks_workerid_tasktype'', [''worker_id'', ''task_type''])]"

definition m20220426_up :: "schema_env \<Rightarrow> unit ddl" where
  "m20220426_up e = each (\<lambda>(n, cols). ignoring_exist (create_index e ''tasks'' n cols)) task_indexes"

definition m20230111_up :: "schema_env \<Rightarrow> unit ddl" where
  "m20230111_up e = create_table_if_not_exists e ''workers_states''
     [pk ''id'', required ''worker_id'' StringCol, required ''ips'' StringCol, required ''support_types'' StringCol,
      required ''create_at'' IntegerCol, required ''update_at'' IntegerCol]"

definition m20230113_up :: "schema_env \<Rightarrow> unit ddl" where
  "m20230113_up e = add_column e ''tasks''
     \<lparr>col_name = ''comment'', col_type = StringCol, col_not_null = True, col_primary = False, col_default = Some ''''\<rparr>"

definition migrations :: "(string \<times> (schema_env \<Rightarrow> unit ddl)) list" where
  "migrations = [(''m20220101_000001_create_table'', m20220101_up), (''m20220426_000001_create_table'', m20220426_up),
     (''m20230111_000001_create_table'', m20230111_up), (''m20230113_000001_create_table'', m20230113_up)]"

definition down :: "schema_env \<Rightarrow> unit ddl" where
  "down e = lift_res (Panic ''not yet implemented'')"

text \<open>What the migration library does with the list: the pending migrations run in its order, each one that succeeds
  is recorded by an insert of the library, the first that fails or cannot be recorded ends the run; the names that are
  left are returned.\<close>

fun migrate :: "schema_env \<Rightarrow> (string \<times> (schema_env \<Rightarrow> unit ddl)) list \<Rightarrow> schema \<Rightarrow>
    (unit, string) result \<times> string list \<times> schema" where
  "migrate e [] s = (Ok (), [], s)"
| "migrate e ((n, up) # rest) s = (case up e s of
     (Ok _, s') \<Rightarrow> (case record_fault e n of
         None \<Rightarrow> migrate e rest s'
       | Some m \<Rightarrow> (Err m, n # map fst rest, s'))
   | (r, s') \<Rightarrow> (r, n # map fst rest, s'))"

definition pending :: "string list \<Rightarrow> (string \<times> (schema_env \<Rightarrow> unit ddl)) list" where
  "pending names = filter (\<lambda>(n, _). n \<in> set names) migrations"

section \<open>What the entities need\<close>

text \<open>The fields of the four \<open>Model\<close>s with the column types the entities declare: the \<open>column_type\<close> attributes,
  \<open>String\<close> otherwise for a string, \<open>BigInteger\<close> for an \<open>i64\<close>, and the \<open>db_type\<close> of the two enumerations.\<close>

definition resource_info_entity :: "(string \<times> col_type) list" where
  "resource_info_entity = [(''id'', TextCol), (''data'', BlobLongCol), (''create_at'', BigIntegerCol)]"

definition worker_info_entity :: "(string \<times> col_type) list" where
  "worker_info_entity = [(''id'', TextCol)]"

definition task_entity :: "(string \<times> col_type) list" where
  "task_entity = [(''id'', TextCol), (''miner'', StringCol), (''resource_id'', StringCol), (''proof'', BlobLongCol),
     (''worker_id'', StringCol), (''task_type'', IntegerCol), (''error_msg'', StringCol), (''comment'', StringCol),
     (''state'', IntegerCol), (''create_at'', BigIntegerCol), (''start_at'', BigIntegerCol), (''complete_at'', BigIntegerCol)]"

definition workers_state_entity :: "(string \<times> col_type) list" where
  "workers_state_entity = [(''id'', TextCol), (''worker_id'', StringCol), (''ips'', StringCol),
     (''support_types'', StringCol), (''update_at'', BigIntegerCol), (''create_at'', BigIntegerCol)]"

definition entity_columns :: "(string \<times> (string \<times> col_type) list) list" where
  "entity_columns = [(''resource_infos'', resource_info_entity), (''worker_infos'', worker_info_entity),
     (''tasks'', task_entity), (''workers_states'', workers_state_entity)]"

lemmas entity_fields = entity_columns_def resource_info_entity_def worker_info_entity_def task_entity_def
  workers_state_entity_def

text \<open>The columns are the fields, each once, none of them null, and \<open>id\<close> is the primary key.\<close>

definition same_columns :: "column list \<Rightarrow> (string \<times> col_type) list \<Rightarrow> bool" where
  "same_columns cols flds \<longleftrightarrow> set (map col_name cols) = fst ` set flds \<and> distinct (map col_name cols) \<and>
     list_all col_not_null cols \<and> map col_name (filter col_primary cols) = [''id'']"

text \<open>The columns kept in another type than the entity declares: table, column, type of the field, type of the column.\<close>

definition type_differences :: "schema \<Rightarrow> (string \<times> string \<times> col_type \<times> col_type) list" where
  "type_differences s = concat (map (\<lambda>(t, flds). case map_of (tables s) t of
       None \<Rightarrow> []
     | Some cols \<Rightarrow> concat (map (\<lambda>(n, ty). map (\<lambda>c. (t, n, ty, col_type c))
         (filter (\<lambda>c. col_name c = n \<and> col_type c \<noteq> ty) cols)) flds)) entity_columns)"

definition has_entity_columns :: "schema \<Rightarrow> bool" where
  "has_entity_columns s \<longleftrightarrow> list_all (\<lambda>(t, flds). case map_of (tables s) t of
     None \<Rightarrow> False | Some cols \<Rightarrow> same_columns cols flds) entity_columns"

text \<open>The ids are \<open>Text\<close> in the entities and \<open>string()\<close> in the tables; the times and the proof are narrower in the
  tables than in the entities.\<close>

definition known_differences :: "(string \<times> string \<times> col_type \<times> col_type) list" where
  "known_differences =
     [(''resource_infos'', ''id'', TextCol, StringCol), (''resource_infos'', ''create_at'', BigIntegerCol, IntegerCol),
      (''worker_infos'', ''id'', TextCol, StringCol), (''tasks'', ''id'', TextCol, StringCol),
      (''tasks'', ''proof'', BlobLongCol, BinaryCol), (''tasks'', ''create_at'', BigIntegerCol, IntegerCol),
      (''tasks'', ''start_at'', BigIntegerCol, IntegerCol), (''tasks'', ''complete_at'', BigIntegerCol, IntegerCol),
      (''workers_states'', ''id'', TextCol, StringCol), (''workers_states'', ''update_at'', BigIntegerCol, IntegerCol),
      (''workers_states'', ''create_at'', BigIntegerCol, IntegerCol)]"

definition fits_entities :: "schema \<Rightarrow> bool" where
  "fits_entities s \<longleftrightarrow> has_entity_columns s \<and> type_differences s = known_differences"

definition no_schema :: "nat \<Rightarrow> schema" where
  "no_schema n = \<lparr>tables = [], indexes = [], stmts = n\<rparr>"

section \<open>What a migration leaves behind\<close>

abbreviation tab :: "schema \<Rightarrow> string \<Rightarrow> column list option" where
  "tab s \<equiv> map_of (tables s)"

lemma create_table_outcome:
  assumes "tab s \<subseteq>\<^sub>m T" "T t = Some cols" "create_table_if_not_exists e t cols s = (r, s')"
  shows "indexes s' = indexes s \<and> tab s \<subseteq>\<^sub>m tab s' \<and> tab s' \<subseteq>\<^sub>m T \<and> (r = Ok () \<longrightarrow> tab s' t = Some cols) \<and>
    (ddl_fault e (stmts s) = None \<longrightarrow> r = Ok ())"
proof (cases "ddl_fault e (stmts s)")
  case None
  have app: "map_of (tables s @ [(t, cols)]) = (tab s)(t \<mapsto> cols)" if "tab s t = None"
    using that by (auto simp: map_add_def fun_eq_iff split: option.splits)
  have "tab s t = None \<or> tab s t = Some cols" using assms(1,2) by (cases "tab s t") (auto simp: map_le_def dom_def)
  with None assms app show ?thesis
    by (auto simp: create_table_if_not_exists_def ddl_def Let_def map_le_def dom_def split: if_splits)
next
  case (Some f)
  have app: "map_of (tables s @ [(t, cols)]) = (tab s)(t \<mapsto> cols)" if "tab s t = None"
    using that by (auto simp: map_add_def fun_eq_iff split: option.splits)
  obtain m b where f: "f = (m, b)" by (cases f)
  have "tab s t = None \<or> tab s t = Some cols" using assms(1,2) by (cases "tab s t") (auto simp: map_le_def dom_def)
  with Some f assms app show ?thesis
    by (auto simp: create_table_if_not_exists_def ddl_def Let_def map_le_def dom_def split: if_splits)
qed

text \<open>How MySQL words its errors: the error of an existing index, and only that one, has these words.\<close>

definition mysql_texts :: "schema_env \<Rightarrow> bool" where
  "mysql_texts e \<longleftrightarrow> (\<forall>n. str_contains (duplicate_index e n) ''Duplicate key name'') \<and>
     (\<forall>k m b. ddl_fault e k = Some (m, b) \<longrightarrow> \<not> str_contains m ''Duplicate key name'')"

definition task_index :: "string \<times> string list \<Rightarrow> string \<times> string \<times> string list" where
  "task_index = (\<lambda>(n, cols). (n, ''tasks'', cols))"

lemma create_index_raw:
  assumes "tab s ''tasks'' \<noteq> None" "create_index e ''tasks'' n cols s = (r, s')"
  shows "tables s' = tables s \<and> (indexes s' = indexes s \<or> indexes s' = indexes s @ [(n, ''tasks'', cols)]) \<and>
    (r = Ok () \<and> n \<in> fst ` set (indexes s') \<or>
     r = Err (duplicate_index e n) \<and> n \<in> fst ` set (indexes s') \<or> (\<exists>m b. ddl_fault e (stmts s) = Some (m, b) \<and> r = Err m))"
proof (cases "ddl_fault e (stmts s)")
  case None
  have "n \<in> fst ` set (indexes s)" if "map_of (indexes s) n \<noteq> None"
    using that by (simp add: dom_map_of_conv_image_fst[symmetric] domIff)
  with None assms show ?thesis by (auto simp: create_index_def ddl_def Let_def split: if_splits)
next
  case (Some f)
  with assms show ?thesis by (cases f) (auto simp: create_index_def ddl_def Let_def split: if_splits)
qed

lemma create_index_outcome:
  assumes "mysql_texts e" "tab s ''tasks'' \<noteq> None" "ignoring_exist (create_index e ''tasks'' n cols) s = (r, s')"
  shows "tables s' = tables s \<and> set (indexes s) \<subseteq> set (indexes s') \<and> set (indexes s') \<subseteq> insert (n, ''tasks'', cols) (set (indexes s)) \<and>
    (r = Ok () \<longrightarrow> n \<in> fst ` set (indexes s')) \<and> (ddl_fault e (stmts s) = None \<longrightarrow> r = Ok ())"
proof -
  obtain r0 where raw: "create_index e ''tasks'' n cols s = (r0, s')" and r: "r = ignore_exist r0"
    using assms(3) by (cases "create_index e ''tasks'' n cols s") (auto simp: ignoring_exist_def)
  note out = create_index_raw[OF assms(2) raw]
  have other: "\<not> str_contains m ''Duplicate key name''" if "ddl_fault e (stmts s) = Some (m, b)" for m b
    using that assms(1) unfolding mysql_texts_def by blast
  have "str_contains (duplicate_index e n) ''Duplicate key name''" using assms(1) by (simp add: mysql_texts_def)
  then have "(r = Ok () \<longrightarrow> n \<in> fst ` set (indexes s')) \<and> (ddl_fault e (stmts s) = None \<longrightarrow> r = Ok ())"
    using out r by (elim conjE disjE exE) (auto simp: ignore_exist_def dest: other simp del: image_iff)
  with out show ?thesis by auto
qed

lemma each_index_outcome:
  assumes "mysql_texts e" "tab s ''tasks'' \<noteq> None"
    and "each (\<lambda>(n, cols). ignoring_exist (create_index e ''tasks'' n cols)) is s = (r, s')"
  shows "tables s' = tables s \<and> set (indexes s) \<subseteq> set (indexes s') \<and> set (indexes s') \<subseteq> set (indexes s) \<union> task_index ` set is \<and>
    (r = Ok () \<longrightarrow> fst ` set is \<subseteq> fst ` set (indexes s')) \<and> ((\<forall>k. ddl_fault e k = None) \<longrightarrow> r = Ok ())"
  using assms(2,3)
proof (induction "is" arbitrary: s r)
  case Nil
  then show ?case by (simp add: ok_def)
next
  case (Cons i rest)
  obtain n cols where i: "i = (n, cols)" by (cases i)
  obtain r1 s1 where one: "ignoring_exist (create_index e ''tasks'' n cols) s = (r1, s1)"
    by (cases "ignoring_exist (create_index e ''tasks'' n cols) s")
  note first = create_index_outcome[OF assms(1) Cons.prems(1) one]
  show ?case
  proof (cases "r1 = Ok ()")
    case True
    with Cons.prems i one have "each (\<lambda>(n, cols). ignoring_exist (create_index e ''tasks'' n cols)) rest s1 = (r, s')"
      by (simp add: and_then_def)
    moreover have "tab s1 ''tasks'' \<noteq> None" using first Cons.prems(1) by simp
    ultimately have "tables s' = tables s1 \<and> set (indexes s1) \<subseteq> set (indexes s') \<and>
      set (indexes s') \<subseteq> set (indexes s1) \<union> task_index ` set rest \<and>
      (r = Ok () \<longrightarrow> fst ` set rest \<subseteq> fst ` set (indexes s')) \<and> ((\<forall>k. ddl_fault e k = None) \<longrightarrow> r = Ok ())"
      using Cons.IH by blast
    with first True i show ?thesis by (auto simp: task_index_def)
  next
    case False
    with Cons.prems i one have "s' = s1" "r \<noteq> Ok ()" by (auto simp: and_then_def split: result.splits)
    with first False i show ?thesis by (auto simp: task_index_def)
  qed
qed

definition base_tables :: "(string \<times> column list) list" where
  "base_tables =
     [(''resource_infos'', [pk ''id'', required ''data'' BlobLongCol, required ''create_at'' IntegerCol]),
      (''worker_infos'', [pk ''id'']),
      (''tasks'', [pk ''id'', required ''miner'' StringCol, required ''resource_id'' StringCol, required ''proof'' BinaryCol,
        required ''worker_id'' StringCol, required ''task_type'' IntegerCol, required ''error_msg'' StringCol,
        required ''state'' IntegerCol, required ''create_at'' IntegerCol, required ''start_at'' IntegerCol,
        required ''complete_at'' IntegerCol])]"

definition workers_states_columns :: "column list" where
  "workers_states_columns = [pk ''id'', required ''worker_id'' StringCol, required ''ips'' StringCol,
     required ''support_types'' StringCol, required ''create_at'' IntegerCol, required ''update_at'' IntegerCol]"

definition comment_column :: column where
  "comment_column = \<lparr>col_name = ''comment'', col_type = StringCol, col_not_null = True, col_primary = False, col_default = Some []\<rparr>"

abbreviation tables_1 :: "string \<Rightarrow> column list option" where "tables_1 \<equiv> map_of base_tables"
abbreviation tables_3 :: "string \<Rightarrow> column list option" where "tables_3 \<equiv> tables_1(''workers_states'' \<mapsto> workers_states_columns)"
abbreviation tables_4 :: "string \<Rightarrow> column list option" where
  "tables_4 \<equiv> tables_3(''tasks'' \<mapsto> the (tables_1 ''tasks'') @ [comment_column])"

text \<open>What holds before migration \<open>i\<close>, also after a failed attempt at it.\<close>

definition stage :: "nat \<Rightarrow> schema \<Rightarrow> bool" where
  "stage i s \<longleftrightarrow> set (indexes s) \<subseteq> task_index ` set task_indexes \<and>
     (2 \<le> i \<longrightarrow> fst ` set task_indexes \<subseteq> fst ` set (indexes s)) \<and>
     (if i = 0 then tab s \<subseteq>\<^sub>m tables_1 else if i = 1 then tab s = tables_1
      else if i = 2 then tables_1 \<subseteq>\<^sub>m tab s \<and> tab s \<subseteq>\<^sub>m tables_3 else if i = 3 then tab s = tables_3 else tab s = tables_4)"

text \<open>A migration leads to the next stage, and what is left when it fails or is not recorded is its own stage still;
  only the last one may be past its stage without having been recorded.\<close>

definition advances :: "nat \<Rightarrow> (schema_env \<Rightarrow> unit ddl) \<Rightarrow> bool" where
  "advances i up \<longleftrightarrow> (\<forall>e s r s'. mysql_texts e \<longrightarrow> stage i s \<longrightarrow> up e s = (r, s') \<longrightarrow>
     (r = Ok () \<longrightarrow> stage (Suc i) s') \<and> (i < 3 \<longrightarrow> stage i s') \<and> (stage i s' \<or> stage (Suc i) s') \<and>
     ((\<forall>k. ddl_fault e k = None) \<longrightarrow> r = Ok ()))"

lemma base_lookup:
  "tables_1 ''resource_infos'' = Some [pk ''id'', required ''data'' BlobLongCol, required ''create_at'' IntegerCol]"
  "tables_1 ''worker_infos'' = Some [pk ''id'']" "tables_1 ''tasks'' \<noteq> None" "tables_1 ''workers_states'' = None"
  by (simp_all add: base_tables_def)

lemma each_table_outcome:
  assumes "tab s \<subseteq>\<^sub>m T" "\<forall>(t, cols)\<in>set ts. T t = Some cols"
    and "each (\<lambda>(t, cols). create_table_if_not_exists e t cols) ts s = (r, s')"
  shows "indexes s' = indexes s \<and> tab s \<subseteq>\<^sub>m tab s' \<and> tab s' \<subseteq>\<^sub>m T \<and>
    (r = Ok () \<longrightarrow> fst ` set ts \<subseteq> dom (tab s')) \<and> ((\<forall>k. ddl_fault e k = None) \<longrightarrow> r = Ok ())"
  using assms
proof (induction ts arbitrary: s r)
  case Nil
  then show ?case by (simp add: ok_def)
next
  case (Cons i rest)
  obtain t cols where i: "i = (t, cols)" by (cases i)
  obtain r1 s1 where one: "create_table_if_not_exists e t cols s = (r1, s1)"
    by (cases "create_table_if_not_exists e t cols s")
  have "T t = Some cols" using Cons.prems(2) i by auto
  note first = create_table_outcome[OF Cons.prems(1) this one]
  show ?case
  proof (cases "r1 = Ok ()")
    case True
    with Cons.prems i one have "each (\<lambda>(t, cols). create_table_if_not_exists e t cols) rest s1 = (r, s')"
      by (simp add: and_then_def)
    moreover have "tab s1 \<subseteq>\<^sub>m T" using first by simp
    ultimately have rest: "indexes s' = indexes s1 \<and> tab s1 \<subseteq>\<^sub>m tab s' \<and> tab s' \<subseteq>\<^sub>m T \<and>
      (r = Ok () \<longrightarrow> fst ` set rest \<subseteq> dom (tab s')) \<and> ((\<forall>k. ddl_fault e k = None) \<longrightarrow> r = Ok ())"
      using Cons.IH Cons.prems(2) by simp
    then have "t \<in> dom (tab s')" using first True by (auto simp: map_le_def dom_def)
    moreover have "tab s \<subseteq>\<^sub>m tab s'" using rest first map_le_trans by blast
    ultimately show ?thesis using first rest True i by auto
  next
    case False
    with Cons.prems i one have "s' = s1" "r \<noteq> Ok ()" by (auto simp: and_then_def split: result.splits)
    with first False i show ?thesis by auto
  qed
qed

lemma and_then_ok: "and_then m ok = (m :: ('s, unit, 'e) prog)"
  by (auto simp: and_then_def ok_def fun_eq_iff split: prod.splits result.splits)

lemma m20220101_tables: "m20220101_up e = each (\<lambda>(t, cols). create_table_if_not_exists e t cols) base_tables"
  by (simp add: m20220101_up_def base_tables_def and_then_ok)

lemma map_le_dom_eq:
  assumes "m \<subseteq>\<^sub>m T" "dom T \<subseteq> dom m"
  shows "m = T"
proof
  fix x
  show "m x = T x"
    using assms by (cases "m x"; cases "T x") (force simp: map_le_def)+
qed

lemma m1_advances: "advances 0 m20220101_up"
  unfolding advances_def
proof (intro allI impI)
  fix e s r s' assume st: "stage 0 s" and up: "m20220101_up e s = (r, s')"
  have le: "tab s \<subseteq>\<^sub>m tables_1" using st by (simp add: stage_def)
  have "\<forall>(t, cols)\<in>set base_tables. tables_1 t = Some cols" by (simp add: base_tables_def)
  note out = each_table_outcome[OF le this up[unfolded m20220101_tables]]
  have "r = Ok () \<longrightarrow> tab s' = tables_1"
  proof
    assume "r = Ok ()"
    with out have "dom tables_1 \<subseteq> dom (tab s')" by (simp add: dom_map_of_conv_image_fst)
    with out show "tab s' = tables_1" using map_le_dom_eq by blast
  qed
  with out st show "(r = Ok () \<longrightarrow> stage (Suc 0) s') \<and> (0 < (3::nat) \<longrightarrow> stage 0 s') \<and>
    (stage 0 s' \<or> stage (Suc 0) s') \<and> ((\<forall>k. ddl_fault e k = None) \<longrightarrow> r = Ok ())"
    by (simp add: stage_def)
qed

lemma m2_advances: "advances 1 m20220426_up"
  unfolding advances_def
proof (intro allI impI)
  fix e s r s' assume my: "mysql_texts e" and st: "stage 1 s" and up: "m20220426_up e s = (r, s')"
  have t: "tab s = tables_1" using st by (simp add: stage_def)
  then have "tab s ''tasks'' \<noteq> None" by (simp add: base_tables_def)
  note out = each_index_outcome[OF my this up[unfolded m20220426_up_def]]
  show "(r = Ok () \<longrightarrow> stage (Suc 1) s') \<and> (1 < (3::nat) \<longrightarrow> stage 1 s') \<and>
    (stage 1 s' \<or> stage (Suc 1) s') \<and> ((\<forall>k. ddl_fault e k = None) \<longrightarrow> r = Ok ())"
    using out st t by (auto simp: stage_def map_le_def base_tables_def)
qed

lemma m3_advances: "advances 2 m20230111_up"
  unfolding advances_def
proof (intro allI impI)
  fix e s r s' assume st: "stage 2 s" and up: "m20230111_up e s = (r, s')"
  have le: "tables_1 \<subseteq>\<^sub>m tab s" "tab s \<subseteq>\<^sub>m tables_3" using st by (simp_all add: stage_def)
  have up': "create_table_if_not_exists e ''workers_states'' workers_states_columns s = (r, s')"
    using up by (simp add: m20230111_up_def workers_states_columns_def)
  have "tables_3 ''workers_states'' = Some workers_states_columns" by simp
  note out = create_table_outcome[OF le(2) this up']
  have ge: "tables_1 \<subseteq>\<^sub>m tab s'" using out le(1) map_le_trans by blast
  have "r = Ok () \<longrightarrow> tab s' = tables_3"
  proof
    assume "r = Ok ()"
    with ge out have "tables_3 \<subseteq>\<^sub>m tab s'" by (auto simp: map_le_def)
    with out show "tab s' = tables_3" by (blast intro: map_le_antisym)
  qed
  with out st ge show "(r = Ok () \<longrightarrow> stage (Suc 2) s') \<and> (2 < (3::nat) \<longrightarrow> stage 2 s') \<and>
    (stage 2 s' \<or> stage (Suc 2) s') \<and> ((\<forall>k. ddl_fault e k = None) \<longrightarrow> r = Ok ())"
    by (simp add: stage_def del: fun_upd_apply)
qed

lemma map_of_add_column:
  "map_of (map (\<lambda>(n, cs). if n = t then (n, cs @ [c]) else (n, cs)) ts) =
   (case map_of ts t of None \<Rightarrow> map_of ts | Some cols \<Rightarrow> (map_of ts)(t \<mapsto> cols @ [c]))"
  by (induction ts) (auto simp: fun_eq_iff split: option.splits)

lemma m4_advances: "advances 3 m20230113_up"
  unfolding advances_def
proof (intro allI impI)
  fix e s r s' assume st: "stage 3 s" and up: "m20230113_up e s = (r, s')"
  have t: "tab s = tables_3" using st by (simp add: stage_def)
  have cols: "tables_1 ''tasks'' = Some (the (tables_1 ''tasks''))"
    and new: "''comment'' \<notin> col_name ` set (the (tables_1 ''tasks''))"
    by (simp_all add: base_tables_def pk_def required_def)
  have "indexes s' = indexes s \<and> (tab s' = tables_4 \<or> tab s' = tables_3 \<and> r \<noteq> Ok ()) \<and>
    ((\<forall>k. ddl_fault e k = None) \<longrightarrow> r = Ok ())"
    using up t cols new
    by (cases "ddl_fault e (stmts s)")
      (auto simp: m20230113_up_def add_column_def ddl_def Let_def map_of_add_column comment_column_def
        split: option.splits if_splits)
  with st show "(r = Ok () \<longrightarrow> stage (Suc 3) s') \<and> (3 < (3::nat) \<longrightarrow> stage 3 s') \<and>
    (stage 3 s' \<or> stage (Suc 3) s') \<and> ((\<forall>k. ddl_fault e k = None) \<longrightarrow> r = Ok ())"
    by (auto simp add: stage_def simp del: fun_upd_apply)
qed

section \<open>The whole chain\<close>

lemma migrations_advance: "i < 4 \<Longrightarrow> advances i (snd (migrations ! i))"
  using m1_advances m2_advances m3_advances m4_advances
  by (cases i rule: nat.exhaust; auto simp: migrations_def less_Suc_eq numeral_eq_Suc)

definition no_faults :: "schema_env \<Rightarrow> bool" where
  "no_faults e \<longleftrightarrow> (\<forall>k. ddl_fault e k = None) \<and> (\<forall>n. record_fault e n = None)"

text \<open>What an interrupted run can leave: the names that are pending are a suffix of the list, and the schema is at the
  stage of the first of them, or past the last one.\<close>

definition resumable :: "string list \<Rightarrow> schema \<Rightarrow> bool" where
  "resumable names s \<longleftrightarrow> (\<exists>j\<le>4. names = map fst (drop j migrations) \<and> (stage j s \<or> j = 3 \<and> stage 4 s))"

lemma resumableI: "j \<le> 4 \<Longrightarrow> names = map fst (drop j migrations) \<Longrightarrow> stage j s \<or> j = 3 \<and> stage 4 s \<Longrightarrow> resumable names s"
  by (auto simp: resumable_def)

lemma migrate_from:
  assumes "mysql_texts e"
  shows "n + i = 4 \<Longrightarrow> stage i s \<Longrightarrow> migrate e (drop i migrations) s = (r, left, s') \<Longrightarrow>
    resumable left s' \<and> (r = Ok () \<longrightarrow> left = [] \<and> stage 4 s') \<and> (no_faults e \<longrightarrow> r = Ok ())"
proof (induction n arbitrary: i s)
  case 0
  then have "drop i migrations = []" by (simp add: migrations_def)
  with 0 show ?case by (auto intro: resumableI[of 4])
next
  case (Suc n)
  have len: "length migrations = 4" by (simp add: migrations_def)
  have i: "i < 4" using Suc.prems(1) by simp
  obtain name up where m: "migrations ! i = (name, up)" by (cases "migrations ! i")
  have drop: "drop i migrations = (name, up) # drop (Suc i) migrations"
    using Cons_nth_drop_Suc[of i migrations] i len m by simp
  obtain r1 s1 where one: "up e s = (r1, s1)" by (cases "up e s")
  have up: "advances i up" using migrations_advance[OF i] m by simp
  have adv: "r1 = Ok () \<longrightarrow> stage (Suc i) s1" "i < 3 \<longrightarrow> stage i s1" "stage i s1 \<or> stage (Suc i) s1"
    "no_faults e \<longrightarrow> r1 = Ok ()"
    using up assms Suc.prems(2) one unfolding advances_def no_faults_def by blast+
  have "stage i s1 \<or> i = 3 \<and> stage 4 s1" using adv(2,3) i by (cases "i = 3") simp_all
  then have kept: "resumable (map fst (drop i migrations)) s1" using i by (intro resumableI[of i]) simp_all
  show ?case
  proof (cases "r1 = Ok () \<and> record_fault e name = None")
    case True
    with Suc.prems(3) drop one have "migrate e (drop (Suc i) migrations) s1 = (r, left, s')" by simp
    with Suc.IH[of "Suc i" s1] adv True Suc.prems(1) show ?thesis by simp
  next
    case False
    with Suc.prems(3) drop one have "r \<noteq> Ok ()" "s' = s1" "left = map fst (drop i migrations)"
      by (auto split: result.splits option.splits)
    with False kept adv show ?thesis by (auto simp: no_faults_def)
  qed
qed

lemma pending_suffix: "pending (map fst (drop j migrations)) = drop j migrations"
proof (cases "j < 4")
  case True
  then have "j = 0 \<or> j = 1 \<or> j = 2 \<or> j = 3" by auto
  then show ?thesis by (elim disjE) (simp_all add: pending_def migrations_def)
next
  case False
  then show ?thesis by (simp add: pending_def migrations_def)
qed

lemma tables_4_fit:
  assumes "tab s = tables_4"
  shows "has_entity_columns s \<and> type_differences s = known_differences"
proof -
  let ?c = "the (tables_1 ''tasks'') @ [comment_column]"
  have look: "tab s ''resource_infos'' = tables_1 ''resource_infos''" "tab s ''worker_infos'' = tables_1 ''worker_infos''"
    "tab s ''tasks'' = Some ?c" "tab s ''workers_states'' = Some workers_states_columns"
    using assms by simp_all
  have "has_entity_columns s"
    unfolding has_entity_columns_def entity_fields list.pred_inject prod.case look
    by (simp add: base_tables_def workers_states_columns_def comment_column_def pk_def required_def same_columns_def insert_commute)
  moreover have "type_differences s = known_differences"
    unfolding type_differences_def entity_fields list.map prod.case look
    by (simp add: base_tables_def workers_states_columns_def comment_column_def pk_def required_def known_differences_def)
  ultimately show ?thesis by blast
qed

lemma final_stage:
  assumes "stage 4 s"
  shows "fits_entities s \<and> fst ` set (indexes s) = fst ` set task_indexes"
proof
  have "tab s = tables_4" using assms by (simp add: stage_def)
  then show "fits_entities s" using tables_4_fit by (simp add: fits_entities_def)
  have "fst ` task_index ` X = fst ` X" for X by (force simp: task_index_def)
  moreover have "set (indexes s) \<subseteq> task_index ` set task_indexes" and ge: "fst ` set task_indexes \<subseteq> fst ` set (indexes s)"
    using assms by (simp_all add: stage_def)
  ultimately have "fst ` set (indexes s) \<subseteq> fst ` set task_indexes" by (metis image_mono)
  with ge show "fst ` set (indexes s) = fst ` set task_indexes" by (rule equalityI[rotated])
qed

lemma no_schema_stage: "stage 0 (no_schema n)"
  by (simp add: stage_def no_schema_def)

lemma fresh_run:
  assumes "no_faults e"
  shows "\<exists>s. migrate e migrations (no_schema n) = (Ok (), [], s) \<and> indexes s = map task_index task_indexes \<and>
    tables s = map (\<lambda>(t, cols). (t, if t = ''tasks'' then cols @ [comment_column] else cols))
      (base_tables @ [(''workers_states'', workers_states_columns)])"
  using assms
  by (simp add: no_faults_def migrations_def m20220101_tables base_tables_def m20220426_up_def task_indexes_def task_index_def
      m20230111_up_def m20230113_up_def add_column_def workers_states_columns_def comment_column_def
      and_then_def ok_def create_table_if_not_exists_def create_index_def ddl_def Let_def ignoring_exist_def
      ignore_exist_def no_schema_def pk_def required_def)

lemma fresh_tables:
  "map_of (map (\<lambda>(t, cols). (t, if t = ''tasks'' then cols @ [c] else cols)) (base_tables @ [(''workers_states'', w)])) =
    tables_1(''workers_states'' \<mapsto> w, ''tasks'' \<mapsto> the (tables_1 ''tasks'') @ [c])"
  unfolding base_tables_def by (rule ext) simp

text \<open>C35. On an empty database, if no statement and no record of a migration fails, the migrations go through and leave, for each entity, a table
  with exactly the fields of the entity as its columns, each there once and not null, with \<open>id\<close> as the primary key, and
  the eight indexes of the task table on the columns meant. Each column has the type its entity declares but for
  eleven: the four ids, which are \<open>Text\<close> in the entities and \<open>string()\<close> in the tables, the proof, a plain \<open>binary\<close>
  where the entity has \<open>Binary(Long)\<close>, and the six times, 32-bit integers where the entities have \<open>i64\<close>.\<close>

theorem fresh_schema_fits:
  assumes "no_faults e"
  shows "\<exists>s. migrate e migrations (no_schema n) = (Ok (), [], s) \<and> has_entity_columns s \<and>
    type_differences s = known_differences \<and> indexes s = map task_index task_indexes"
proof -
  obtain s where s: "migrate e migrations (no_schema n) = (Ok (), [], s)" "indexes s = map task_index task_indexes"
    "tables s = map (\<lambda>(t, cols). (t, if t = ''tasks'' then cols @ [comment_column] else cols))
      (base_tables @ [(''workers_states'', workers_states_columns)])"
    using fresh_run[OF assms] by blast
  have "tab s = tables_4" unfolding s(3) fresh_tables ..
  with s tables_4_fit show ?thesis by blast
qed

section \<open>Interrupted migrations\<close>

text \<open>The last migration has added its column but is still pending: its answer or its record was lost.\<close>

definition comment_unrecorded :: "string list \<Rightarrow> schema \<Rightarrow> bool" where
  "comment_unrecorded names s \<longleftrightarrow> names = [''m20230113_000001_create_table''] \<and>
     (case map_of (tables s) ''tasks'' of None \<Rightarrow> False | Some cols \<Rightarrow> ''comment'' \<in> col_name ` set cols)"

text \<open>The server is started again and again, each time in an environment of its own.\<close>

fun attempts :: "schema_env list \<Rightarrow> string list \<Rightarrow> schema \<Rightarrow> string list \<times> schema" where
  "attempts [] names s = (names, s)"
| "attempts (e # es) names s = (case migrate e (pending names) s of (_, names', s') \<Rightarrow> attempts es names' s')"

lemma comment_blocks:
  assumes "comment_unrecorded names s"
  shows "\<exists>m k. migrate e (pending names) s = (Err m, names, s\<lparr>stmts := k\<rparr>) \<and>
    ((\<forall>k. ddl_fault e k = None) \<longrightarrow> m = duplicate_column e ''comment'')"
proof -
  obtain cols where "tab s ''tasks'' = Some cols" "''comment'' \<in> col_name ` set cols"
    using assms by (auto simp: comment_unrecorded_def split: option.splits)
  moreover have names: "names = map fst (drop 3 migrations)"
    using assms by (simp add: comment_unrecorded_def migrations_def)
  moreover have "pending names = [(''m20230113_000001_create_table'', m20230113_up)]"
    unfolding names pending_suffix by (simp add: migrations_def)
  moreover have "names = [''m20230113_000001_create_table'']" using names by (simp add: migrations_def)
  ultimately show ?thesis
    by (cases "ddl_fault e (stmts s)") (auto simp: m20230113_up_def add_column_def ddl_def Let_def)
qed

lemma comment_stays_unrecorded: "comment_unrecorded names (s\<lparr>stmts := k\<rparr>) = comment_unrecorded names s"
  by (simp add: comment_unrecorded_def)

lemma resumable_cases:
  assumes "resumable names s"
  obtains "comment_unrecorded names s" "names = map fst (drop 3 migrations)" "stage 4 s"
  | j where "\<not> comment_unrecorded names s" "j \<le> 4" "names = map fst (drop j migrations)" "stage j s"
proof -
  obtain j where j: "j \<le> 4" "names = map fst (drop j migrations)" "stage j s \<or> j = 3 \<and> stage 4 s"
    using assms by (auto simp: resumable_def)
  have full: "comment_unrecorded (map fst (drop 3 migrations)) s" if "stage 4 s"
    using that by (simp add: stage_def comment_unrecorded_def migrations_def base_tables_def comment_column_def)
  have last: "stage 4 s" if "comment_unrecorded names s"
  proof -
    have "j = 3" using that j by (auto simp: comment_unrecorded_def migrations_def less_Suc_eq le_Suc_eq numeral_eq_Suc)
    moreover have "\<not> stage 3 s"
      using that by (auto simp: stage_def comment_unrecorded_def base_tables_def pk_def required_def)
    ultimately show ?thesis using j by simp
  qed
  show ?thesis
  proof (cases "comment_unrecorded names s")
    case True
    with that(1) last show ?thesis by (simp add: comment_unrecorded_def migrations_def)
  next
    case False
    with full j have "stage j s" by auto
    with that(2) False j show ?thesis by blast
  qed
qed

lemma migrate_resumable:
  assumes "mysql_texts e" "resumable names s" "migrate e (pending names) s = (r, left, s')"
  shows "resumable left s'"
  using assms(2)
proof (cases rule: resumable_cases)
  case 1
  have "stage 4 (s\<lparr>stmts := k\<rparr>)" for k using 1 by (simp add: stage_def)
  moreover obtain m k where "migrate e (pending names) s = (Err m, names, s\<lparr>stmts := k\<rparr>)"
    using comment_blocks[OF 1(1), of e] by auto
  ultimately show ?thesis using 1 assms(3) by (auto intro: resumableI[of 3])
next
  case (2 j)
  with migrate_from[OF assms(1), of "4 - j" j s r left s'] assms(3) show ?thesis by (simp add: pending_suffix)
qed

lemma attempts_resumable:
  "\<lbrakk>list_all mysql_texts es; resumable names s; attempts es names s = (left, s')\<rbrakk> \<Longrightarrow> resumable left s'"
proof (induction es arbitrary: names s)
  case (Cons e es)
  obtain r names1 s1 where "migrate e (pending names) s = (r, names1, s1)" by (cases "migrate e (pending names) s") auto
  with Cons show ?case using migrate_resumable[of e names s r names1 s1] by simp
qed simp

lemma no_schema_resumable: "resumable (map fst migrations) (no_schema n)"
  using no_schema_stage by (intro resumableI[of 0]) simp_all

text \<open>C22. However often the migration of an empty MySQL database is interrupted, by statements that fail or take effect
  without an answer and by records of migrations that are lost, what is left is one of two things. If the column of the
  last migration was added and its record lost, every later run fails at that column and leaves it like this: without
  further faults with the database's error for the duplicate column. Otherwise a run without faults of the pending
  migrations completes the schema, since tables are created only if missing and the error for an index that is
  already there is ignored. The condition \<open>mysql_texts\<close> is on the texts of the errors: that the database words
  the error for an existing index as MySQL does.\<close>

theorem interrupted_migration_resumes:
  assumes "list_all mysql_texts es" "attempts es (map fst migrations) (no_schema n) = (left, s)"
  shows "if comment_unrecorded left s
    then \<forall>e'. \<exists>m s'. migrate e' (pending left) s = (Err m, left, s') \<and> comment_unrecorded left s' \<and>
      ((\<forall>k. ddl_fault e' k = None) \<longrightarrow> m = duplicate_column e' ''comment'')
    else \<forall>e'. mysql_texts e' \<and> no_faults e' \<longrightarrow> (\<exists>s'. migrate e' (pending left) s = (Ok (), [], s') \<and>
      fits_entities s' \<and> fst ` set (indexes s') = fst ` set task_indexes)"
proof -
  have "resumable left s" using attempts_resumable[OF assms(1) no_schema_resumable assms(2)] .
  then show ?thesis
  proof (cases rule: resumable_cases)
    case 1
    have "\<exists>m s'. migrate e' (pending left) s = (Err m, left, s') \<and> comment_unrecorded left s' \<and>
      ((\<forall>k. ddl_fault e' k = None) \<longrightarrow> m = duplicate_column e' ''comment'')" for e'
      using comment_blocks[OF 1(1), of e'] 1(1) comment_stays_unrecorded by metis
    with 1(1) show ?thesis by simp
  next
    case (2 j)
    have "\<exists>s'. migrate e' (pending left) s = (Ok (), [], s') \<and> fits_entities s' \<and> fst ` set (indexes s') = fst ` set task_indexes"
      if "mysql_texts e'" "no_faults e'" for e'
    proof -
      obtain r names s' where run: "migrate e' (pending left) s = (r, names, s')" by (cases "migrate e' (pending left) s") auto
      with migrate_from[OF that(1), of "4 - j" j s r names s'] 2 that(2) final_stage show ?thesis by (simp add: pending_suffix)
    qed
    with 2(1) show ?thesis by simp
  qed
qed

text \<open>A database with other words for an existing index (SQLite says that the index already exists) never gets past
  an index migration that was interrupted.\<close>

lemma other_text_blocks:
  assumes "\<not> str_contains (duplicate_index e ''tasks_create_at'') ''Duplicate key name''" "ddl_fault e (stmts s) = None"
    and "tab s ''tasks'' \<noteq> None" "map_of (indexes s) ''tasks_create_at'' \<noteq> None"
  shows "fst (m20220426_up e s) = Err (duplicate_index e ''tasks_create_at'')"
  using assms by (auto simp: m20220426_up_def task_indexes_def and_then_def ignoring_exist_def ignore_exist_def create_index_def ddl_def Let_def)

definition mysql_env :: "(nat \<Rightarrow> (string \<times> bool) option) \<Rightarrow> (string \<Rightarrow> string option) \<Rightarrow> schema_env" where
  "mysql_env faults lost = \<lparr>ddl_fault = faults, record_fault = lost, duplicate_index = (\<lambda>n. ''Duplicate key name '' @ n),
     duplicate_column = (\<lambda>n. ''Duplicate column name''), no_such_table = (\<lambda>n. ''no table'')\<rparr>"

lemma fresh_schema_fits_witness:
  "\<exists>s. migrate (mysql_env (\<lambda>_. None) (\<lambda>_. None)) migrations (no_schema 0) = (Ok (), [], s) \<and> has_entity_columns s \<and>
    type_differences s = known_differences \<and> indexes s = map task_index task_indexes"
  by (rule fresh_schema_fits) (simp add: no_faults_def mysql_env_def)

definition lost_at :: "nat \<Rightarrow> nat \<Rightarrow> (string \<times> bool) option" where
  "lost_at n = (\<lambda>k. if k = n then Some (''connection lost'', True) else None)"

lemma mysql_lost: "mysql_texts (mysql_env (lost_at n) l)" "mysql_texts (mysql_env (\<lambda>_. None) l)"
  by (auto simp: mysql_texts_def mysql_env_def str_contains_def lost_at_def sublist_def Cons_eq_append_conv append_eq_Cons_conv
      split: if_splits)

lemma other_text: "\<not> str_contains ''connection lost'' ''Duplicate key name''"
  by (simp add: str_contains_def sublist_def Cons_eq_append_conv append_eq_Cons_conv)

lemmas migration_defs = migrations_def m20220101_tables base_tables_def m20220426_up_def task_indexes_def
  m20230111_up_def m20230113_up_def add_column_def and_then_def ok_def create_table_if_not_exists_def create_index_def
  ddl_def Let_def ignoring_exist_def ignore_exist_def pk_def required_def

lemma all_pending: "pending (map fst migrations) = migrations"
  using pending_suffix[of 0] by simp

text \<open>The connection is lost after the second index was created.\<close>

lemma lost_run:
  "\<exists>s. attempts [mysql_env (lost_at 4) (\<lambda>_. None)] (map fst migrations) (no_schema 0) = (map fst (drop 1 migrations), s) \<and>
     map fst (indexes s) = [''tasks_create_at'', ''tasks_start_at'']"
  by (simp add: all_pending) (simp add: migration_defs mysql_env_def lost_at_def no_schema_def other_text[simplified])

text \<open>The record of the last migration is lost.\<close>

lemma lost_record_run:
  "\<exists>s. attempts [mysql_env (\<lambda>_. None) (\<lambda>n. if n = ''m20230113_000001_create_table'' then Some ''connection lost'' else None)]
     (map fst migrations) (no_schema 0) = ([''m20230113_000001_create_table''], s) \<and>
     comment_unrecorded [''m20230113_000001_create_table''] s"
  by (simp add: all_pending) (simp add: migration_defs mysql_env_def no_schema_def comment_unrecorded_def)

lemma interrupted_migration_resumes_witness:
  "(\<exists>s s'. attempts [mysql_env (lost_at 4) (\<lambda>_. None)] (map fst migrations) (no_schema 0) = (map fst (drop 1 migrations), s) \<and>
     migrate (mysql_env (\<lambda>_. None) (\<lambda>_. None)) (pending (map fst (drop 1 migrations))) s = (Ok (), [], s') \<and> fits_entities s' \<and>
     fst ` set (indexes s') = fst ` set task_indexes) \<and>
   (\<exists>s s'. attempts [mysql_env (\<lambda>_. None) (\<lambda>n. if n = ''m20230113_000001_create_table'' then Some ''connection lost'' else None)]
       (map fst migrations) (no_schema 0) = ([''m20230113_000001_create_table''], s) \<and>
     migrate (mysql_env (\<lambda>_. None) (\<lambda>_. None)) (pending [''m20230113_000001_create_table'']) s =
       (Err ''Duplicate column name'', [''m20230113_000001_create_table''], s'))"
proof
  obtain s where s: "attempts [mysql_env (lost_at 4) (\<lambda>_. None)] (map fst migrations) (no_schema 0) = (map fst (drop 1 migrations), s)"
    using lost_run by blast
  have none: "\<forall>k. ddl_fault (mysql_env (\<lambda>_. None) (\<lambda>_. None)) k = None" by (simp add: mysql_env_def)
  have env: "mysql_texts (mysql_env (\<lambda>_. None) (\<lambda>_. None)) \<and> no_faults (mysql_env (\<lambda>_. None) (\<lambda>_. None))"
    using mysql_lost(2) by (simp add: no_faults_def mysql_env_def)
  have my: "list_all mysql_texts [mysql_env (lost_at 4) (\<lambda>_. None)]" using mysql_lost by simp
  have "\<not> comment_unrecorded (map fst (drop 1 migrations)) s" by (simp add: comment_unrecorded_def migrations_def)
  with interrupted_migration_resumes[OF my s] env s
  show "\<exists>s s'. attempts [mysql_env (lost_at 4) (\<lambda>_. None)] (map fst migrations) (no_schema 0) = (map fst (drop 1 migrations), s) \<and>
     migrate (mysql_env (\<lambda>_. None) (\<lambda>_. None)) (pending (map fst (drop 1 migrations))) s = (Ok (), [], s') \<and> fits_entities s' \<and>
     fst ` set (indexes s') = fst ` set task_indexes" by (simp only: if_False) blast
  let ?rec = "\<lambda>n. if n = ''m20230113_000001_create_table'' then Some ''connection lost'' else None"
  let ?e = "mysql_env (\<lambda>_. None) ?rec" and ?n = "[''m20230113_000001_create_table'']"
  obtain s where s: "attempts [?e] (map fst migrations) (no_schema 0) = (?n, s)" "comment_unrecorded ?n s"
    using lost_record_run by blast
  have my: "list_all mysql_texts [?e]" using mysql_lost by simp
  have "\<forall>e'. \<exists>m s'. migrate e' (pending ?n) s = (Err m, ?n, s') \<and> comment_unrecorded ?n s' \<and>
      ((\<forall>k. ddl_fault e' k = None) \<longrightarrow> m = duplicate_column e' ''comment'')"
    using interrupted_migration_resumes[OF my s(1)] s(2) by simp
  then obtain m s' where "migrate (mysql_env (\<lambda>_. None) (\<lambda>_. None)) (pending ?n) s = (Err m, ?n, s')"
    "m = duplicate_column (mysql_env (\<lambda>_. None) (\<lambda>_. None)) ''comment''" using none by metis
  then have "migrate (mysql_env (\<lambda>_. None) (\<lambda>_. None)) (pending ?n) s = (Err ''Duplicate column name'', ?n, s')"
    by (simp add: mysql_env_def)
  with s(1) show "\<exists>s s'. attempts [?e] (map fst migrations) (no_schema 0) = (?n, s) \<and>
     migrate (mysql_env (\<lambda>_. None) (\<lambda>_. None)) (pending ?n) s = (Err ''Duplicate column name'', ?n, s')" by blast
qed

end
