(* ===== verification/Http_Server.thy ===== *)
theory Http_Server
  imports Proxy_Prelude
begin

text \<open>
  The HTTP side of the JSON-RPC server (\<open>gpuproxy/src/http_server\<close>, a patched copy of the server of \<open>jsonrpsee\<close>): the
  test of method and content type, the answer to a single request, to a batch and to notifications, and
  the builder that opens the listener. The library \<open>gpuproxy\<close> exports this server; the program \<open>gpuproxy\<close> itself names the one of
  \<open>jsonrpsee\<close> in \<open>start_api\<close> (see \<open>Service_Config\<close>). The registered methods with their callbacks, the resource limits, reading
  the body and all JSON are fields of \<open>http_env\<close>. An answer comes with the events it has caused: calls, messages
  sent into the channel of the answer, and reports to the middleware. What a callback sends is given by the
  position of its request, so nothing is said about what concurrent callbacks do to each other; the order of
  their steps is the \<open>schedule\<close>. Starting and stopping the task that runs the listener is in \<open>Http_Lifecycle\<close>.
\<close>

section \<open>Responses\<close>

record http_reply =
  status :: nat
  content_type :: string
  reply_body :: string

datatype error_code = MethodNotFound | ServerIsBusy | InternalError | InvalidRequest | ParseError | OversizedRequest

definition json_type :: string where
  "json_type = ''application/json; charset=utf-8''"

definition text_type :: string where
  "text_type = ''text/plain''"

definition from_template :: "nat \<Rightarrow> string \<Rightarrow> string \<Rightarrow> http_reply" where
  "from_template st body ct = \<lparr>status = st, content_type = ct, reply_body = body\<rparr>"

definition ok_response :: "string \<Rightarrow> http_reply" where
  "ok_response body = from_template 200 body json_type"

text \<open>A request with its id and parameters as raw JSON.\<close>

record rpc_message =
  rm_id :: string
  rm_method :: string
  rm_params :: "string option"

datatype method_kind = Sync | Async | Subscription

datatype transport_error = TooLarge | Malformed | Inner string

text \<open>\<open>hr_header\<close> is \<open>HeaderMap::get\<close>.\<close>

record http_request =
  hr_method :: string
  hr_header :: "string \<Rightarrow> string option"
  hr_body :: bytes

text \<open>\<open>read_body\<close> yields the body and whether it is a single object. \<open>claim\<close>, \<open>callback\<close>: the number is the position in the batch.\<close>

record http_env =
  header_to_str :: "string \<Rightarrow> string option"
  read_body :: "http_request \<Rightarrow> nat \<Rightarrow> (bytes \<times> bool, transport_error) result"
  as_request :: "bytes \<Rightarrow> rpc_message option"
  is_notification :: "bytes \<Rightarrow> bool"
  as_batch :: "bytes \<Rightarrow> rpc_message list option"
  is_notification_batch :: "bytes \<Rightarrow> bool"
  prepare_error :: "bytes \<Rightarrow> string \<times> error_code"
  error_object :: "string \<Rightarrow> error_code \<Rightarrow> string"
  collect_batch_response :: "string list \<Rightarrow> string"
  method_with_name :: "string \<Rightarrow> (string \<times> method_kind) option"
  claim :: "nat \<Rightarrow> string \<Rightarrow> bool"
  callback :: "nat \<Rightarrow> string \<Rightarrow> string \<Rightarrow> string option \<Rightarrow> string list"
  schedule :: "nat list"
  debug_enabled :: bool

definition null_id :: string where
  "null_id = ''null''"

definition internal_error :: "http_env \<Rightarrow> http_reply" where
  "internal_error e = from_template 500 (error_object e null_id InternalError) json_type"

text \<open>This and the next but one are in the source, but nothing uses them.\<close>

definition host_not_allowed :: http_reply where
  "host_not_allowed = from_template 403 (''Provided Host header is not whitelisted.'' @ [CHR 0x0A]) text_type"

definition method_not_allowed :: http_reply where
  "method_not_allowed = from_template 405 (''Used HTTP Method is not allowed. POST or OPTIONS is required'' @ [CHR 0x0A]) text_type"

definition invalid_allow_origin :: http_reply where
  "invalid_allow_origin = from_template 403 (''Origin of the request is not whitelisted. CORS headers would not be sent and any side-effects were cancelled as well.'' @ [CHR 0x0A]) text_type"

definition invalid_allow_headers :: http_reply where
  "invalid_allow_headers = from_template 403 (''Requested headers are not allowed for CORS. CORS headers would not be sent and any side-effects were cancelled as well.'' @ [CHR 0x0A]) text_type"

definition too_large :: "http_env \<Rightarrow> http_reply" where
  "too_large e = from_template 413 (error_object e null_id OversizedRequest) json_type"

definition malformed :: "http_env \<Rightarrow> http_reply" where
  "malformed e = from_template 400 (error_object e null_id ParseError) json_type"

definition unsupported_content_type :: http_reply where
  "unsupported_content_type = from_template 415 (''Supplied content type is not allowed. Content-Type: application/json is required'' @ [CHR 0x0A]) text_type"

section \<open>Headers\<close>

definition ascii_lower :: "char \<Rightarrow> char" where
  "ascii_lower c = (let n = (of_char c :: nat) in if 65 \<le> n \<and> n \<le> 90 then char_of (n + 32) else c)"

definition eq_ignore_ascii_case :: "string \<Rightarrow> string \<Rightarrow> bool" where
  "eq_ignore_ascii_case s t \<longleftrightarrow> map ascii_lower s = map ascii_lower t"

text \<open>\<open>header_to_str\<close> is \<open>HeaderValue::to_str\<close>.\<close>

definition is_json :: "http_env \<Rightarrow> string option \<Rightarrow> bool" where
  "is_json e content = (case Option.bind content (header_to_str e) of
     Some c \<Rightarrow> eq_ignore_ascii_case c ''application/json'' \<or> eq_ignore_ascii_case c ''application/json; charset=utf-8''
       \<or> eq_ignore_ascii_case c ''application/json;charset=utf-8''
   | None \<Rightarrow> False)"

definition content_type_is_json :: "http_env \<Rightarrow> http_request \<Rightarrow> bool" where
  "content_type_is_json e rq = is_json e (hr_header rq ''content-type'')"

definition return_origin_if_different_from_host :: "http_request \<Rightarrow> string option" where
  "return_origin_if_different_from_host rq = (case (hr_header rq ''origin'', hr_header rq ''host'') of
     (Some origin, Some host) \<Rightarrow> if origin \<noteq> host then Some origin else None
   | _ \<Rightarrow> None)"

section \<open>Calls\<close>

datatype event = OnRequest | OnResult | Called string string | Sent string

fun sent :: "event list \<Rightarrow> string list" where
  "sent [] = []"
| "sent (Sent m # es) = m # sent es"
| "sent (_ # es) = sent es"

definition send_error :: "http_env \<Rightarrow> string \<Rightarrow> error_code \<Rightarrow> event list" where
  "send_error e i code = [Sent (error_object e i code)]"

text \<open>Running a callback: what it sends goes to the channel.\<close>

definition call :: "http_env \<Rightarrow> nat \<Rightarrow> string \<Rightarrow> rpc_message \<Rightarrow> event list" where
  "call e k name m = Called name (rm_id m) # map Sent (callback e k name (rm_id m) (rm_params m))"

definition single_request :: "http_env \<Rightarrow> rpc_message \<Rightarrow> event list" where
  "single_request e m =
     (case method_with_name e (rm_method m) of
        None \<Rightarrow> send_error e (rm_id m) MethodNotFound
      | Some (name, Sync) \<Rightarrow> if claim e 0 (rm_method m) then call e 0 name m else send_error e (rm_id m) ServerIsBusy
      | Some (name, Async) \<Rightarrow> if claim e 0 name then call e 0 name m else send_error e (rm_id m) ServerIsBusy
      | Some (name, Subscription) \<Rightarrow> send_error e (rm_id m) InternalError) @ [OnResult]"

text \<open>Of a batch: the events while the requests are gone through, and the futures that are left.\<close>

definition batch_step :: "http_env \<Rightarrow> nat \<Rightarrow> rpc_message \<Rightarrow> event list \<times> event list option" where
  "batch_step e k m =
     (case method_with_name e (rm_method m) of
        None \<Rightarrow> (send_error e (rm_id m) MethodNotFound, None)
      | Some (name, Sync) \<Rightarrow>
          if claim e k name then (call e k name m @ [OnResult], None) else (send_error e (rm_id m) ServerIsBusy @ [OnResult], None)
      | Some (name, Async) \<Rightarrow>
          if claim e k name then ([], Some (call e k name m @ [OnResult])) else (send_error e (rm_id m) ServerIsBusy @ [OnResult], None)
      | Some (name, Subscription) \<Rightarrow> (send_error e (rm_id m) InternalError @ [OnResult], None))"

fun batch_steps :: "http_env \<Rightarrow> nat \<Rightarrow> rpc_message list \<Rightarrow> event list \<times> event list list" where
  "batch_steps e k [] = ([], [])"
| "batch_steps e k (m # ms) =
     (case batch_step e k m of (now, later) \<Rightarrow>
      case batch_steps e (Suc k) ms of (es, fs) \<Rightarrow>
        (now @ es, (case later of Some f \<Rightarrow> f # fs | None \<Rightarrow> fs)))"

text \<open>The futures run concurrently; the schedule says which of them makes the next step.\<close>

fun join_all :: "nat list \<Rightarrow> 'a list list \<Rightarrow> 'a list" where
  "join_all [] fs = concat fs"
| "join_all (k # ks) fs =
     (if k < length fs then
        (case fs ! k of [] \<Rightarrow> join_all ks fs | x # xs \<Rightarrow> x # join_all ks (fs[k := xs]))
      else join_all ks fs)"

definition boundary :: "string \<Rightarrow> nat \<Rightarrow> bool" where
  "boundary s i \<longleftrightarrow> i = 0 \<or> i = length s \<or>
     (i < length s \<and> ((of_char (s ! i) :: nat) < 128 \<or> 192 \<le> (of_char (s ! i) :: nat)))"

text \<open>The slice in the log line is only taken if the line is.\<close>

definition send_back :: "http_env \<Rightarrow> string \<Rightarrow> (http_reply, string) result" where
  "send_back e response =
     (if debug_enabled e \<and> \<not> boundary response (min (length response) 1024)
      then Panic ''byte index is not a char boundary''
      else Ok (ok_response response))"

definition respond :: "http_env \<Rightarrow> bool \<Rightarrow> event list \<Rightarrow> (http_reply, string) result" where
  "respond e is_single es =
     (case (if is_single then (case sent es of m # _ \<Rightarrow> Some m | [] \<Rightarrow> None) else Some (collect_batch_response e (sent es))) of
        None \<Rightarrow> Panic ''Sender is still alive managed by us above; qed''
      | Some response \<Rightarrow> send_back e response)"

text \<open>The answer and the events, of the whole request.\<close>

definition process_validated_request :: "http_env \<Rightarrow> nat \<Rightarrow> http_request \<Rightarrow> (http_reply, string) result \<times> event list" where
  "process_validated_request e max_request_body_size rq =
     (case read_body e rq max_request_body_size of
        Err TooLarge \<Rightarrow> (Ok (too_large e), [])
      | Err Malformed \<Rightarrow> (Ok (malformed e), [])
      | Err (Inner m) \<Rightarrow> (Ok (internal_error e), [])
      | Panic m \<Rightarrow> (Panic m, [])
      | Ok (body, is_single) \<Rightarrow>
          (let answer = (\<lambda>single es. (respond e single es, OnRequest # es)) in
           if is_single then
             (case as_request e body of
                Some m \<Rightarrow> answer True (single_request e m)
              | None \<Rightarrow>
                  if is_notification e body then (Ok (ok_response []), [OnRequest])
                  else (case prepare_error e body of (i, code) \<Rightarrow> answer True (send_error e i code)))
           else
             (case as_batch e body of
                Some batch \<Rightarrow>
                  if batch \<noteq> [] then
                    (case batch_steps e 0 batch of (es, fs) \<Rightarrow> answer False (es @ join_all (schedule e) fs))
                  else answer True (send_error e null_id InvalidRequest)
              | None \<Rightarrow>
                  if is_notification_batch e body then (Ok (ok_response []), [OnRequest])
                  else (case prepare_error e body of (i, code) \<Rightarrow> answer True (send_error e i code)))))"

text \<open>The closure of \<open>start\<close>. The origin is computed and not used.\<close>

definition service :: "http_env \<Rightarrow> nat \<Rightarrow> http_request \<Rightarrow> (http_reply, string) result \<times> event list" where
  "service e max_request_body_size rq =
     (if hr_method rq = ''POST'' \<and> content_type_is_json e rq then
        (let origin = return_origin_if_different_from_host rq in
         process_validated_request e max_request_body_size rq)
      else if hr_method rq = ''POST'' then (Ok unsupported_content_type, [])
      else (Ok method_not_allowed, []))"

section \<open>The builder\<close>

record builder =
  b_resources :: "(string \<times> nat \<times> nat) list"
  b_max_request_body_size :: nat
  b_keep_alive :: bool
  b_tokio_runtime :: "string option"
  b_middleware :: string

definition builder_default :: builder where
  "builder_default = \<lparr>b_resources = [], b_max_request_body_size = 10 * 1024 * 1024, b_keep_alive = True,
     b_tokio_runtime = None, b_middleware = ''()''\<rparr>"

definition set_middleware :: "string \<Rightarrow> builder \<Rightarrow> builder" where
  "set_middleware mw b = b\<lparr>b_middleware := mw\<rparr>"

definition set_max_request_body_size :: "nat \<Rightarrow> builder \<Rightarrow> builder" where
  "set_max_request_body_size n b = b\<lparr>b_max_request_body_size := n\<rparr>"

definition set_keep_alive :: "bool \<Rightarrow> builder \<Rightarrow> builder" where
  "set_keep_alive k b = b\<lparr>b_keep_alive := k\<rparr>"

definition custom_tokio_runtime :: "string \<Rightarrow> builder \<Rightarrow> builder" where
  "custom_tokio_runtime rt b = b\<lparr>b_tokio_runtime := Some rt\<rparr>"

datatype socket_op = NewSocket | SetNodelay | SetReuseAddress | SetNonblocking | SetKeepalive bool | BindTo | Listen nat | FromTcp

text \<open>The eight fallible steps to a listener, \<open>ToSocketAddrs\<close> and the resource table.\<close>

record net_env =
  addrs_of :: "string \<Rightarrow> (string list, string) result"
  socket :: "string \<Rightarrow> socket_op \<Rightarrow> (unit, string) result"
  bound_addr :: "string \<Rightarrow> string option"
  resources_register :: "(string \<times> nat \<times> nat) list \<Rightarrow> string \<Rightarrow> nat \<Rightarrow> nat \<Rightarrow> ((string \<times> nat \<times> nat) list, string) result"

definition register_resource :: "net_env \<Rightarrow> string \<Rightarrow> nat \<Rightarrow> nat \<Rightarrow> builder \<Rightarrow> (builder, string) result" where
  "register_resource n label capacity def b =
     res_map_ok (\<lambda>r. b\<lparr>b_resources := r\<rparr>) (resources_register n (b_resources b) label capacity def)"

record server =
  s_addr :: string
  s_local_addr :: "string option"
  s_max_request_body_size :: nat
  s_resources :: "(string \<times> nat \<times> nat) list"
  s_tokio_runtime :: "string option"
  s_middleware :: string

text \<open>Results joined by question marks.\<close>

fun in_turn :: "(unit, 'e) result list \<Rightarrow> (unit, 'e) result" where
  "in_turn [] = Ok ()"
| "in_turn (Ok _ # rs) = in_turn rs"
| "in_turn (Err m # rs) = Err m"
| "in_turn (Panic m # rs) = Panic m"

definition inner_builder :: "net_env \<Rightarrow> builder \<Rightarrow> string \<Rightarrow> (string option, string) result" where
  "inner_builder n b addr = res_map_ok (\<lambda>_. bound_addr n addr)
     (in_turn (map (socket n addr) [NewSocket, SetNodelay, SetReuseAddress, SetNonblocking, SetKeepalive (b_keep_alive b),
        BindTo, Listen 128, FromTcp]))"

fun try_addrs :: "net_env \<Rightarrow> builder \<Rightarrow> string option \<Rightarrow> string list \<Rightarrow> (server, string) result" where
  "try_addrs n b er [] = Err (case er of Some m \<Rightarrow> m | None \<Rightarrow> ''No address found'')"
| "try_addrs n b er (addr # addrs) = (case inner_builder n b addr of
     Ok local \<Rightarrow> Ok \<lparr>s_addr = addr, s_local_addr = local, s_max_request_body_size = b_max_request_body_size b,
       s_resources = b_resources b, s_tokio_runtime = b_tokio_runtime b, s_middleware = b_middleware b\<rparr>
   | Err m \<Rightarrow> try_addrs n b (Some m) addrs
   | Panic m \<Rightarrow> Panic m)"

definition build :: "net_env \<Rightarrow> builder \<Rightarrow> string \<Rightarrow> (server, string) result" where
  "build n b addrs = (case addrs_of n addrs of Ok as \<Rightarrow> try_addrs n b None as | Err m \<Rightarrow> Err m | Panic m \<Rightarrow> Panic m)"

definition local_addr :: "server \<Rightarrow> (string, string) result" where
  "local_addr s = (case s_local_addr s of Some a \<Rightarrow> Ok a | None \<Rightarrow> Err ''Local address not found'')"

section \<open>Messages of interleaved futures\<close>

definition is_sent :: "event \<Rightarrow> bool" where
  "is_sent ev = (case ev of Sent m \<Rightarrow> True | _ \<Rightarrow> False)"

definition sent_text :: "event \<Rightarrow> string" where
  "sent_text ev = (case ev of Sent m \<Rightarrow> m | _ \<Rightarrow> [])"

lemma sent_filter: "sent es = map sent_text (filter is_sent es)"
  by (induction es rule: sent.induct) (simp_all add: is_sent_def sent_text_def)

lemma sent_append [simp]: "sent (es @ es') = sent es @ sent es'"
  by (simp add: sent_filter)

lemma sent_mset: "mset es = mset es' \<Longrightarrow> mset (sent es) = mset (sent es')"
  by (metis mset_filter mset_map sent_filter)

lemma mset_concat_update:
  "k < length fs \<Longrightarrow> fs ! k = x # xs \<Longrightarrow> mset (concat fs) = add_mset x (mset (concat (fs[k := xs])))"
proof (induction fs arbitrary: k)
  case (Cons f fs)
  then show ?case by (cases k) auto
qed simp

lemma mset_join_all: "mset (join_all ks fs) = mset (concat fs)"
proof (induction ks fs rule: join_all.induct)
  case (2 k ks fs)
  show ?case
  proof (cases "k < length fs")
    case True
    then show ?thesis using 2 mset_concat_update[OF True] by (cases "fs ! k") auto
  next
    case False
    with 2 show ?thesis by simp
  qed
qed simp

section \<open>One answer for each request\<close>

text \<open>What \<open>jsonrpsee\<close> says of its callbacks and its method table.\<close>

definition one_answer :: "http_env \<Rightarrow> bool" where
  "one_answer e \<longleftrightarrow> (\<forall>k name i ps. \<exists>m. callback e k name i ps = [m])"

definition keyed_methods :: "http_env \<Rightarrow> bool" where
  "keyed_methods e \<longleftrightarrow> (\<forall>n name kind. method_with_name e n = Some (name, kind) \<longrightarrow> name = n)"

text \<open>The reference: what one request of a batch deserves.\<close>

definition answer_of :: "http_env \<Rightarrow> nat \<Rightarrow> rpc_message \<Rightarrow> string" where
  "answer_of e k m = (case method_with_name e (rm_method m) of
     None \<Rightarrow> error_object e (rm_id m) MethodNotFound
   | Some (name, kind) \<Rightarrow>
       if kind = Subscription then error_object e (rm_id m) InternalError
       else if claim e k name then hd (callback e k name (rm_id m) (rm_params m))
       else error_object e (rm_id m) ServerIsBusy)"

lemma sent_call: "one_answer e \<Longrightarrow> sent (call e k name m) = [hd (callback e k name (rm_id m) (rm_params m))]"
proof -
  assume "one_answer e"
  then obtain x where "callback e k name (rm_id m) (rm_params m) = [x]" unfolding one_answer_def by blast
  then show ?thesis by (simp add: call_def)
qed

lemma sent_single:
  assumes "one_answer e" "keyed_methods e"
  shows "sent (single_request e m) = [answer_of e 0 m]"
  using assms sent_call[OF assms(1)]
  by (auto simp: single_request_def answer_of_def send_error_def keyed_methods_def split: option.splits method_kind.splits)

lemma batch_step_sent:
  assumes "one_answer e" "batch_step e k m = (now, later)"
  shows "sent now @ (case later of Some f \<Rightarrow> sent f | None \<Rightarrow> []) = [answer_of e k m]"
  using assms sent_call[OF assms(1)]
  by (auto simp: batch_step_def answer_of_def send_error_def split: option.splits method_kind.splits if_splits)

lemma batch_steps_sent:
  assumes "one_answer e" "batch_steps e k ms = (es, fs)"
  shows "mset (sent es) + mset (sent (concat fs)) = mset (map (\<lambda>(j, m). answer_of e j m) (enumerate k ms))"
  using assms(2)
proof (induction ms arbitrary: k es fs)
  case (Cons m ms)
  obtain now later where one: "batch_step e k m = (now, later)" by (cases "batch_step e k m")
  obtain es1 fs1 where rest: "batch_steps e (Suc k) ms = (es1, fs1)" by (cases "batch_steps e (Suc k) ms")
  from Cons.prems one rest have es: "es = now @ es1" "fs = (case later of Some f \<Rightarrow> f # fs1 | None \<Rightarrow> fs1)" by auto
  have first: "mset (sent now) + mset (case later of Some f \<Rightarrow> sent f | None \<Rightarrow> []) = {#answer_of e k m#}"
    using batch_step_sent[OF assms(1) one] by (metis mset_append mset_single_iff)
  have "mset (sent es) + mset (sent (concat fs)) =
      (mset (sent now) + mset (case later of Some f \<Rightarrow> sent f | None \<Rightarrow> [])) + (mset (sent es1) + mset (sent (concat fs1)))"
    by (cases later) (simp_all add: es ac_simps)
  then show ?case unfolding first Cons.IH[OF rest] by simp
qed simp

text \<open>C39. The answer to a single request that is posted as JSON is the message its method sends, or the error object for its id if the
  method is unknown, a subscription or over its resource limit. For a batch this holds for every request of
  it: whatever the schedule, the answers are the reference answers, each exactly once. The answer is sent back, except that with
  debug logging on and byte 1024 of it inside a character the log line panics and it is lost. It is assumed of the library that
  each method sends exactly one message and that a method is found under the name that is looked up.\<close>

theorem each_request_answered:
  assumes lib: "one_answer e" "keyed_methods e"
    and post: "hr_method rq = ''POST''" "content_type_is_json e rq"
  shows "(read_body e rq n = Ok (body, True) \<longrightarrow> as_request e body = Some m \<longrightarrow>
      (\<exists>answer. answer = answer_of e 0 m \<and>
        fst (service e n rq) = (if debug_enabled e \<and> \<not> boundary answer (min (length answer) 1024)
          then Panic ''byte index is not a char boundary'' else Ok (ok_response answer)))) \<and>
    (read_body e rq n = Ok (body, False) \<longrightarrow> as_batch e body = Some ms \<longrightarrow> ms \<noteq> [] \<longrightarrow>
      (\<exists>answers answer. answer = collect_batch_response e answers \<and>
        mset answers = mset (map (\<lambda>(k, m). answer_of e k m) (enumerate 0 ms)) \<and>
        fst (service e n rq) = (if debug_enabled e \<and> \<not> boundary answer (min (length answer) 1024)
          then Panic ''byte index is not a char boundary'' else Ok (ok_response answer))))"
proof (intro conjI impI)
  assume "read_body e rq n = Ok (body, True)" "as_request e body = Some m"
  with assms have "fst (service e n rq) = send_back e (answer_of e 0 m)"
    by (simp add: service_def process_validated_request_def Let_def respond_def sent_single)
  then show "\<exists>answer. answer = answer_of e 0 m \<and>
        fst (service e n rq) = (if debug_enabled e \<and> \<not> boundary answer (min (length answer) 1024)
          then Panic ''byte index is not a char boundary'' else Ok (ok_response answer))"
    by (simp add: send_back_def)
next
  assume run: "read_body e rq n = Ok (body, False)" "as_batch e body = Some ms" "ms \<noteq> []"
  obtain es fs where steps: "batch_steps e 0 ms = (es, fs)" by (cases "batch_steps e 0 ms")
  let ?answers = "sent es @ sent (join_all (schedule e) fs)"
  have "fst (service e n rq) = send_back e (collect_batch_response e ?answers)"
    using run steps post by (simp add: service_def process_validated_request_def Let_def respond_def)
  moreover have "mset ?answers = mset (map (\<lambda>(k, m). answer_of e k m) (enumerate 0 ms))"
    using batch_steps_sent[OF lib(1) steps] sent_mset[OF mset_join_all] by (metis mset_append)
  ultimately show "\<exists>answers answer. answer = collect_batch_response e answers \<and>
        mset answers = mset (map (\<lambda>(k, m). answer_of e k m) (enumerate 0 ms)) \<and>
        fst (service e n rq) = (if debug_enabled e \<and> \<not> boundary answer (min (length answer) 1024)
          then Panic ''byte index is not a char boundary'' else Ok (ok_response answer))"
    unfolding send_back_def by blast
qed

section \<open>Which requests reach a method\<close>

lemma call_events: "Called nm i \<in> set (call e k name m) \<longleftrightarrow> nm = name \<and> i = rm_id m"
  by (auto simp: call_def)

definition callable :: "http_env \<Rightarrow> string \<Rightarrow> rpc_message \<Rightarrow> bool" where
  "callable e name m \<longleftrightarrow> (\<exists>kind. method_with_name e (rm_method m) = Some (name, kind) \<and> kind \<noteq> Subscription)"

lemma single_called: "Called name i \<in> set (single_request e m) \<Longrightarrow> i = rm_id m \<and> callable e name m"
proof (cases "method_with_name e (rm_method m)")
  case (Some nk)
  moreover obtain nm kind where "nk = (nm, kind)" by (cases nk)
  ultimately show "Called name i \<in> set (single_request e m) \<Longrightarrow> i = rm_id m \<and> callable e name m"
    by (cases kind) (auto simp: single_request_def call_events send_error_def callable_def split: if_splits)
qed (simp add: single_request_def send_error_def)

lemma batch_step_called:
  "batch_step e k m = (now, later) \<Longrightarrow> Called name i \<in> set now \<or> (\<exists>f. later = Some f \<and> Called name i \<in> set f) \<Longrightarrow>
   i = rm_id m \<and> callable e name m"
  by (auto simp: batch_step_def call_events send_error_def callable_def split: option.splits method_kind.splits if_splits)

lemma batch_called:
  "batch_steps e k ms = (es, fs) \<Longrightarrow> Called name i \<in> set es \<union> set (concat fs) \<Longrightarrow> \<exists>m\<in>set ms. i = rm_id m \<and> callable e name m"
proof (induction ms arbitrary: k es fs)
  case (Cons m ms)
  obtain now later where one: "batch_step e k m = (now, later)" by (cases "batch_step e k m")
  obtain es1 fs1 where rest: "batch_steps e (Suc k) ms = (es1, fs1)" by (cases "batch_steps e (Suc k) ms")
  from Cons.prems one rest have "Called name i \<in> set now \<or> (\<exists>f. later = Some f \<and> Called name i \<in> set f) \<or>
      Called name i \<in> set es1 \<union> set (concat fs1)"
    by (cases later) auto
  then consider
      "Called name i \<in> set now \<or> (\<exists>f. later = Some f \<and> Called name i \<in> set f)" | "Called name i \<in> set es1 \<union> set (concat fs1)"
    by blast
  then show ?case
  proof cases
    case 1
    from batch_step_called[OF one this] show ?thesis by simp
  next
    case 2
    from Cons.IH[OF rest this] show ?thesis by auto
  qed
qed simp

lemma set_join_all: "set (join_all ks fs) = set (concat fs)"
  using mset_join_all[of ks fs] by (metis set_mset_mset)

text \<open>C40. Anything but POST is refused with status 405, a POST that is not declared as JSON with 415, an oversized one
  with 413, all without calling a method. A method is called only for a request of a well-formed body of a JSON
  POST that names it, and never a subscription.\<close>

theorem http_gate:
  "(hr_method rq \<noteq> ''POST'' \<longrightarrow> service e n rq = (Ok method_not_allowed, [])) \<and>
   (hr_method rq = ''POST'' \<and> \<not> content_type_is_json e rq \<longrightarrow> service e n rq = (Ok unsupported_content_type, [])) \<and>
   (read_body e rq n = Err TooLarge \<and> hr_method rq = ''POST'' \<and> content_type_is_json e rq \<longrightarrow> service e n rq = (Ok (too_large e), [])) \<and>
   (\<forall>name i. Called name i \<in> set (snd (service e n rq)) \<longrightarrow>
      hr_method rq = ''POST'' \<and> content_type_is_json e rq \<and>
      (\<exists>body single m. read_body e rq n = Ok (body, single) \<and> i = rm_id m \<and> callable e name m \<and>
         (if single then as_request e body = Some m else \<exists>ms. as_batch e body = Some ms \<and> m \<in> set ms)))"
proof (intro conjI allI impI)
  fix name i assume called: "Called name i \<in> set (snd (service e n rq))"
  then have gate: "hr_method rq = ''POST''" "content_type_is_json e rq"
    by (auto simp: service_def split: if_splits)
  then show "hr_method rq = ''POST''" "content_type_is_json e rq" .
  from called gate have ev: "Called name i \<in> set (snd (process_validated_request e n rq))" by (simp add: service_def)
  show "\<exists>body single m. read_body e rq n = Ok (body, single) \<and> i = rm_id m \<and> callable e name m \<and>
         (if single then as_request e body = Some m else \<exists>ms. as_batch e body = Some ms \<and> m \<in> set ms)"
  proof (cases "read_body e rq n")
    case (Ok bs)
    obtain body single where bs: "bs = (body, single)" by (cases bs)
    show ?thesis
    proof (cases single)
      case True
      with ev Ok bs obtain m where "as_request e body = Some m" "Called name i \<in> set (single_request e m)"
        by (auto simp: process_validated_request_def Let_def send_error_def split: option.splits prod.splits if_splits)
      with single_called[OF this(2)] Ok bs True show ?thesis by auto
    next
      case False
      with ev Ok bs obtain ms es fs where ms: "as_batch e body = Some ms" "batch_steps e 0 ms = (es, fs)"
        "Called name i \<in> set es \<union> set (concat fs)"
        by (auto simp: process_validated_request_def Let_def send_error_def set_join_all split: option.splits prod.splits if_splits)
      with batch_called[OF ms(2,3)] Ok bs False show ?thesis by auto
    qed
  next
    case (Err er)
    with ev show ?thesis by (cases er) (auto simp: process_validated_request_def)
  next
    case (Panic q)
    with ev show ?thesis by (auto simp: process_validated_request_def)
  qed
qed (auto simp: service_def process_validated_request_def)

section \<open>Divergences and the listener\<close>

lemma no_result_sent: "count (image_mset Sent ms) OnResult = 0"
  by (induction ms) auto

text \<open>Every request of a batch is reported to the middleware unless its method is unknown; alone it would be.\<close>

lemma results_of_batch:
  "batch_steps e k ms = (es, fs) \<Longrightarrow>
   count (mset es + mset (concat fs)) OnResult = length (filter (\<lambda>m. method_with_name e (rm_method m) \<noteq> None) ms)"
proof (induction ms arbitrary: k es fs)
  case (Cons m ms)
  note no = no_result_sent
  obtain now later where one: "batch_step e k m = (now, later)" by (cases "batch_step e k m")
  obtain es1 fs1 where rest: "batch_steps e (Suc k) ms = (es1, fs1)" by (cases "batch_steps e (Suc k) ms")
  from Cons.prems one rest Cons.IH[OF rest] show ?case
    by (auto simp: batch_step_def call_def send_error_def no split: option.splits method_kind.splits if_splits)
qed simp

lemma result_of_single: "count (mset (single_request e m)) OnResult = 1"
proof -
  note no = no_result_sent
  show ?thesis
    by (auto simp: single_request_def call_def send_error_def no split: option.splits method_kind.splits)
qed

text \<open>With debug logging a long answer can be cut inside a character, and the request is lost.\<close>

lemma debug_log_panics:
  "debug_enabled e \<Longrightarrow> sent es = m # ms \<Longrightarrow> 1024 < length m \<Longrightarrow> \<not> boundary m 1024 \<Longrightarrow>
   respond e True es = Panic ''byte index is not a char boundary''"
  by (simp add: respond_def send_back_def min_def)

text \<open>The listener sits on the first address that can be bound.\<close>

lemma try_addrs_first:
  "try_addrs n b er addrs = Ok s \<Longrightarrow> \<exists>pre post. addrs = pre @ s_addr s # post \<and>
     (\<forall>a\<in>set pre. \<exists>m. inner_builder n b a = Err m) \<and> inner_builder n b (s_addr s) = Ok (s_local_addr s) \<and>
     s_max_request_body_size s = b_max_request_body_size b"
proof (induction addrs arbitrary: er)
  case (Cons a addrs)
  show ?case
  proof (cases "inner_builder n b a")
    case (Err m)
    with Cons.prems Cons.IH[of "Some m"] obtain pre post where "addrs = pre @ s_addr s # post"
      "\<forall>a\<in>set pre. \<exists>m. inner_builder n b a = Err m" "inner_builder n b (s_addr s) = Ok (s_local_addr s)"
      "s_max_request_body_size s = b_max_request_body_size b" by auto
    with Err show ?thesis by (intro exI[of _ "a # pre"] exI[of _ post]) auto
  qed (use Cons.prems in \<open>auto intro: exI[of _ "[]"]\<close>)
qed simp

section \<open>Samples\<close>

definition demo_http :: http_env where
  "demo_http = \<lparr>header_to_str = Some, read_body = (\<lambda>rq n. if n < length (hr_body rq) then Err TooLarge else Ok (hr_body rq, length (hr_body rq) = 1)),
     as_request = (\<lambda>b. Some \<lparr>rm_id = ''1'', rm_method = ''Proof.GetTask'', rm_params = None\<rparr>),
     is_notification = (\<lambda>b. False),
     as_batch = (\<lambda>b. Some [\<lparr>rm_id = ''1'', rm_method = ''Proof.GetTask'', rm_params = None\<rparr>, \<lparr>rm_id = ''2'', rm_method = ''nope'', rm_params = None\<rparr>]),
     is_notification_batch = (\<lambda>b. False), prepare_error = (\<lambda>b. (null_id, ParseError)),
     error_object = (\<lambda>i c. if c = MethodNotFound then i @ ''!'' else i), collect_batch_response = concat,
     method_with_name = (\<lambda>n. if n = ''Proof.GetTask'' then Some (n, Async) else None), claim = (\<lambda>k n. True),
     callback = (\<lambda>k n i p. [i @ ''ok'']), schedule = [], debug_enabled = False\<rparr>"

definition demo_post :: "bytes \<Rightarrow> http_request" where
  "demo_post b = \<lparr>hr_method = ''POST'', hr_header = [''content-type'' \<mapsto> ''application/JSON''], hr_body = b\<rparr>"

lemma demo_http_laws: "one_answer demo_http" "keyed_methods demo_http"
    "hr_method (demo_post b) = ''POST''" "content_type_is_json demo_http (demo_post b)"
proof -
  have "eq_ignore_ascii_case ''application/JSON'' ''application/json''" by code_simp
  then show "content_type_is_json demo_http (demo_post b)"
    by (simp add: demo_http_def demo_post_def content_type_is_json_def is_json_def)
qed (simp_all add: one_answer_def keyed_methods_def demo_http_def demo_post_def)

theorem each_request_answered_witness:
  "fst (service demo_http 10 (demo_post [1])) = Ok (ok_response ''1ok'') \<and>
   (\<exists>answers. fst (service demo_http 10 (demo_post [1, 2])) = Ok (ok_response (concat answers)) \<and> mset answers = {#''1ok'', ''2!''#})"
  using each_request_answered[OF demo_http_laws, of "[1]" 10 "[1]" "\<lparr>rm_id = ''1'', rm_method = ''Proof.GetTask'', rm_params = None\<rparr>" "[]"]
    each_request_answered[OF demo_http_laws, of "[1, 2]" 10 "[1, 2]" undefined
      "[\<lparr>rm_id = ''1'', rm_method = ''Proof.GetTask'', rm_params = None\<rparr>, \<lparr>rm_id = ''2'', rm_method = ''nope'', rm_params = None\<rparr>]"]
  by (simp add: demo_http_def demo_post_def answer_of_def) blast

theorem http_gate_witness:
  "service demo_http 0 (demo_post [1]) = (Ok (too_large demo_http), []) \<and>
   service demo_http 9 ((demo_post [1])\<lparr>hr_method := ''OPTIONS''\<rparr>) = (Ok method_not_allowed, [])"
proof -
  have "read_body demo_http (demo_post [1]) 0 = Err TooLarge" by (simp add: demo_http_def demo_post_def)
  with http_gate[of "demo_post [1]" demo_http 0] http_gate[of "(demo_post [1])\<lparr>hr_method := ''OPTIONS''\<rparr>" demo_http 9]
    demo_http_laws(3,4) show ?thesis by simp
qed

end
