(* ===== verification/Http_Lifecycle.thy ===== *)
theory Http_Lifecycle
  imports Http_Server
begin

text \<open>
  The life of a started server (\<open>Server::start\<close> and \<open>ServerHandle\<close> of \<open>gpuproxy/src/http_server/server.rs\<close>):
  the task that serves the listener until the channel of the handle says stop, and the handle, with which the owner
  stops the task or waits for its end. The listener, with its connections, is a parameter: one poll of it, given
  whether the shutdown has been signalled, yields its next state and whether it has ended.
\<close>

section \<open>The channel\<close>

text \<open>\<open>mpsc::channel(1)\<close>: one message for the buffer and one for the sender.\<close>

record stop_channel =
  ch_messages :: nat
  ch_sender :: bool
  ch_receiver :: bool

definition channel_one :: stop_channel where
  "channel_one = \<lparr>ch_messages = 0, ch_sender = True, ch_receiver = True\<rparr>"

definition try_send :: "stop_channel \<Rightarrow> (stop_channel, string) result" where
  "try_send ch =
     (if \<not> ch_receiver ch then Err ''disconnected''
      else if 2 \<le> ch_messages ch then Err ''full''
      else Ok (ch\<lparr>ch_messages := Suc (ch_messages ch)\<rparr>))"

text \<open>\<open>rx.next()\<close>: a message, the end of the channel, or nothing yet.\<close>

datatype 'a poll = Pending | Ready 'a

definition rx_next :: "stop_channel \<Rightarrow> unit option poll \<times> stop_channel" where
  "rx_next ch =
     (if 0 < ch_messages ch then (Ready (Some ()), ch\<lparr>ch_messages := ch_messages ch - 1\<rparr>)
      else if \<not> ch_sender ch then (Ready None, ch) else (Pending, ch))"

section \<open>The task\<close>

text \<open>The future given to \<open>with_graceful_shutdown\<close>: it ends with a message or with the channel, and drops the receiver.\<close>

definition shutdown_signal :: "stop_channel \<Rightarrow> unit poll \<times> stop_channel" where
  "shutdown_signal ch = (case rx_next ch of
     (Ready _, ch') \<Rightarrow> (Ready (), ch'\<lparr>ch_receiver := False\<rparr>)
   | (Pending, ch') \<Rightarrow> (Pending, ch'))"

text \<open>\<open>st_signalled\<close>: that future has ended, and is not polled again.\<close>

record 'h server_task =
  st_listener :: 'h
  st_channel :: stop_channel
  st_signalled :: bool
  st_ended :: bool

definition poll_task :: "(bool \<Rightarrow> 'h \<Rightarrow> 'h \<times> bool) \<Rightarrow> 'h server_task \<Rightarrow> 'h server_task" where
  "poll_task serve t =
     (if st_ended t then t
      else let (sig, ch) = (if st_signalled t then (Ready (), st_channel t) else shutdown_signal (st_channel t));
               signalled = (sig = Ready ());
               (listener, ended) = serve signalled (st_listener t) in
        \<lparr>st_listener = listener, st_channel = (if ended then ch\<lparr>ch_receiver := False\<rparr> else ch),
         st_signalled = signalled, st_ended = ended\<rparr>)"

section \<open>The handle\<close>

record server_handle =
  join_handle :: "string option"

text \<open>The runtime is the builder's, or the current one; \<open>spawn\<close> names the task.\<close>

definition start ::
  "(server \<Rightarrow> (unit, string) result) \<Rightarrow> string \<Rightarrow> (string \<Rightarrow> string) \<Rightarrow> (server \<Rightarrow> 'h) \<Rightarrow> server \<Rightarrow> (server_handle \<times> 'h server_task, string) result" where
  "start initialize_resources current_runtime spawn listen s =
     res_map_ok (\<lambda>_. let rt = (case s_tokio_runtime s of Some rt \<Rightarrow> rt | None \<Rightarrow> current_runtime) in
       (\<lparr>join_handle = Some (spawn rt)\<rparr>,
        \<lparr>st_listener = listen s, st_channel = channel_one, st_signalled = False, st_ended = False\<rparr>)) (initialize_resources s)"

text \<open>A handle that is dropped takes the sender with it.\<close>

definition drop_handle :: "'h server_task \<Rightarrow> 'h server_task" where
  "drop_handle t = t\<lparr>st_channel := (st_channel t)\<lparr>ch_sender := False\<rparr>\<rparr>"

text \<open>\<open>stop\<close> consumes the handle.\<close>

definition stop :: "server_handle \<Rightarrow> 'h server_task \<Rightarrow> (string, string) result \<times> 'h server_task" where
  "stop h t = (case try_send (st_channel t) of
     Ok ch \<Rightarrow> ((case join_handle h of Some j \<Rightarrow> Ok j | None \<Rightarrow> Err ''AlreadyStopped''), drop_handle (t\<lparr>st_channel := ch\<rparr>))
   | _ \<Rightarrow> (Err ''AlreadyStopped'', drop_handle t))"

definition poll_handle :: "server_handle \<Rightarrow> 'h server_task \<Rightarrow> unit poll" where
  "poll_handle h t = (case join_handle h of None \<Rightarrow> Ready () | Some _ \<Rightarrow> if st_ended t then Ready () else Pending)"

section \<open>Until it is told to stop\<close>

definition polls :: "(bool \<Rightarrow> 'h \<Rightarrow> 'h \<times> bool) \<Rightarrow> nat \<Rightarrow> 'h server_task \<Rightarrow> 'h server_task" where
  "polls serve n t = (poll_task serve ^^ n) t"

lemma polls_simps [simp]: "polls serve 0 t = t" "polls serve (Suc n) t = polls serve n (poll_task serve t)"
  by (simp_all add: polls_def funpow_swap1)

text \<open>The task that has a live handle and no message.\<close>

definition untold :: "'h server_task \<Rightarrow> bool" where
  "untold t \<longleftrightarrow> \<not> st_signalled t \<and> st_channel t = channel_one"

text \<open>What \<open>hyper\<close> documents of a server with graceful shutdown: it serves until the signal, if accepting connections
  does not fail, and once the signal is there it lets the connections finish and ends.\<close>

definition serves_on :: "(bool \<Rightarrow> 'h \<Rightarrow> 'h \<times> bool) \<Rightarrow> bool" where
  "serves_on serve \<longleftrightarrow> (\<forall>h. \<not> snd (serve False h))"

definition graceful :: "(bool \<Rightarrow> 'h \<Rightarrow> 'h \<times> bool) \<Rightarrow> bool" where
  "graceful serve \<longleftrightarrow> (\<forall>h. \<exists>n. snd (serve True (((fst \<circ> serve True) ^^ n) h)))"

lemma poll_untold:
  assumes "serves_on serve" "untold t" "\<not> st_ended t"
  shows "untold (poll_task serve t) \<and> \<not> st_ended (poll_task serve t)"
  using assms
  by (auto simp: poll_task_def untold_def serves_on_def shutdown_signal_def rx_next_def channel_one_def split: prod.splits)
    (metis snd_conv)+

lemma polls_untold: "serves_on serve \<Longrightarrow> untold t \<Longrightarrow> \<not> st_ended t \<Longrightarrow> untold (polls serve n t) \<and> \<not> st_ended (polls serve n t)"
  by (induction n arbitrary: t) (simp_all add: poll_untold)

text \<open>The channel of a task that has been told.\<close>

definition told :: "'h server_task \<Rightarrow> bool" where
  "told t \<longleftrightarrow> st_signalled t \<or> 0 < ch_messages (st_channel t) \<or> \<not> ch_sender (st_channel t)"

lemma poll_told:
  assumes "told t" "\<not> st_ended t"
  shows "st_ended (poll_task serve t) = snd (serve True (st_listener t))"
    "st_listener (poll_task serve t) = fst (serve True (st_listener t))" "told (poll_task serve t)"
  using assms by (auto simp: poll_task_def told_def shutdown_signal_def rx_next_def Let_def split: prod.splits)

lemma polls_told: "told t \<Longrightarrow> snd (serve True (((fst \<circ> serve True) ^^ n) (st_listener t))) \<Longrightarrow> st_ended (polls serve (Suc n) t)"
proof (induction n arbitrary: t)
  case 0
  then show ?case by (cases "st_ended t") (simp_all add: poll_told, simp add: poll_task_def)
next
  case (Suc n)
  show ?case
  proof (cases "st_ended t")
    case True
    then have keep: "polls serve k t = t" for k by (induction k) (simp_all add: poll_task_def)
    show ?thesis unfolding keep by (rule True)
  next
    case False
    note one = poll_told[OF Suc.prems(1) False, of serve]
    have "((fst \<circ> serve True) ^^ Suc n) (st_listener t) = ((fst \<circ> serve True) ^^ n) (st_listener (poll_task serve t))"
      by (simp add: funpow_Suc_right one(2) del: funpow.simps)
    from Suc.IH[OF one(3) Suc.prems(2)[unfolded this]] have "st_ended (polls serve (Suc n) (poll_task serve t))" .
    then show ?thesis by simp
  qed
qed

text \<open>A started server runs as long as its handle lives and does not stop it. Stopping it, which succeeds on a
  server that runs, and dropping the handle both bring it to its end, where waiting for the handle ends too. The
  server is on the first address that could be bound.\<close>

theorem server_lives_until_told:
  assumes "build n b addr = Ok s" "local_addr s = Ok a" "start init rt spawn listen s = Ok (h, t)"
    and "serves_on serve" "graceful serve"
  shows "(\<exists>addrs. addrs_of n addr = Ok addrs \<and> s_addr s \<in> set addrs \<and> inner_builder n b (s_addr s) = Ok (Some a)) \<and>
    poll_handle h (polls serve k t) = Pending \<and> fst (stop h (polls serve k t)) = Ok (the (join_handle h)) \<and>
    (\<exists>m. poll_handle h (polls serve m (snd (stop h (polls serve k t)))) = Ready ()) \<and>
    (\<exists>m. st_ended (polls serve m (drop_handle (polls serve k t))))"
proof (intro conjI)
  from assms(1) obtain addrs where addrs: "addrs_of n addr = Ok addrs" "try_addrs n b None addrs = Ok s"
    by (auto simp: build_def split: result.splits)
  from try_addrs_first[OF addrs(2)] have "s_addr s \<in> set addrs" "inner_builder n b (s_addr s) = Ok (s_local_addr s)" by auto
  moreover have "s_local_addr s = Some a" using assms(2) by (simp add: local_addr_def split: option.splits)
  ultimately show "\<exists>addrs. addrs_of n addr = Ok addrs \<and> s_addr s \<in> set addrs \<and> inner_builder n b (s_addr s) = Ok (Some a)"
    using addrs(1) by auto
next
  have h: "join_handle h \<noteq> None" and "untold t" "\<not> st_ended t"
    using assms(3) by (auto simp: start_def res_map_ok_eq_Ok untold_def Let_def)
  with polls_untold[OF assms(4)] have u: "untold (polls serve k t)" "\<not> st_ended (polls serve k t)" by blast+
  with h show "poll_handle h (polls serve k t) = Pending" "fst (stop h (polls serve k t)) = Ok (the (join_handle h))"
    by (auto simp: poll_handle_def stop_def try_send_def untold_def channel_one_def)
  have ends: "\<exists>m. st_ended (polls serve m t')" if "told t'" for t'
    using assms(5) polls_told[OF that] unfolding graceful_def by blast
  have "told (snd (stop h (polls serve k t)))" by (auto simp: stop_def drop_handle_def told_def split: result.split)
  from ends[OF this] show "\<exists>m. poll_handle h (polls serve m (snd (stop h (polls serve k t)))) = Ready ()"
    using h by (auto simp: poll_handle_def)
  show "\<exists>m. st_ended (polls serve m (drop_handle (polls serve k t)))" by (rule ends) (simp add: drop_handle_def told_def)
qed


text \<open>A listener with two connections open, which ends once it has been polled for each of them.\<close>

definition demo_serve :: "bool \<Rightarrow> nat \<Rightarrow> nat \<times> bool" where
  "demo_serve signalled n = (if signalled then (n - 1, n = 0) else (n, False))"

lemma demo_graceful: "serves_on demo_serve" "graceful demo_serve"
proof -
  have "((fst \<circ> demo_serve True) ^^ k) m = m - k" for k m by (induction k) (simp_all add: demo_serve_def)
  then show "graceful demo_serve" by (auto simp: graceful_def demo_serve_def intro: exI[of _ "m" for m])
qed (simp add: serves_on_def demo_serve_def)

definition demo_net :: net_env where
  "demo_net = \<lparr>addrs_of = (\<lambda>a. Ok [''taken'', a]), socket = (\<lambda>a op. if a = ''taken'' \<and> op = BindTo then Err ''in use'' else Ok ()),
     bound_addr = Some, resources_register = (\<lambda>rs l c d. Ok rs)\<rparr>"

theorem server_lives_until_told_witness:
  "\<exists>s h t. build demo_net builder_default ''here'' = Ok s \<and> s_addr s = ''here'' \<and>
     start (\<lambda>_. Ok ()) ''rt'' id (\<lambda>_. 2 :: nat) s = Ok (h, t) \<and> poll_handle h (polls demo_serve 5 t) = Pending \<and>
     (\<exists>m. poll_handle h (polls demo_serve m (snd (stop h (polls demo_serve 5 t)))) = Ready ())"
proof -
  obtain s where s: "build demo_net builder_default ''here'' = Ok s" "local_addr s = Ok ''here''" "s_addr s = ''here''"
    by (simp add: build_def demo_net_def inner_builder_def local_addr_def)
  obtain h t where "start (\<lambda>_. Ok ()) ''rt'' id (\<lambda>_. 2 :: nat) s = Ok (h, t)" by (simp add: start_def)
  from s this server_lives_until_told[OF s(1,2) this demo_graceful, of 5] show ?thesis by blast
qed

end
