(* ===== verification/Spec2Isabelle.thy ===== *)
theory Spec2Isabelle
  imports Plugin_Lines Task_Queue Wire Command_Line Program_Runs Migrations Http_Lifecycle
begin

text \<open>
  gpuproxy hands the second phase of a Filecoin commit proof (C2) to machines with a GPU. A client submits the output of
  phase one, the server keeps it as a task with its parameters, workers fetch tasks, compute proofs and report them,
  and the client polls until its task is decided. This development models the program below \<open>src/\<close> and proves what
  makes it correct. Paths are relative to \<open>gpuproxy/src\<close>, other crates are named.

  \<^bold>\<open>Parts and how they interact.\<close> The server is a JSON-RPC service (\<open>proxy_rpc/rpc.rs\<close>, trait \<open>ProxyRpc\<close>, struct \<open>ProxyImpl\<close>)
  over a repository of four SQL tables (\<open>proxy_rpc/db_ops.rs\<close>) and a store for parameters (\<open>resource/mod.rs\<close>), served
  over HTTP by the server of the library (\<open>start_api\<close>); the crate's own copy of such a server, \<open>http_server\<close>, is not
  started by any program. The client is \<open>WrapClient\<close>; it is used by the worker (\<open>proxy_rpc/worker.rs\<close>), the plugin of a
  sealing cluster (\<open>cluster_c2_plugin/main.rs\<close>) and the commands of an operator (\<open>cli\<close>). \<open>gpuproxy/main.rs\<close> and
  \<open>gpuproxy_worker/main.rs\<close> start the two programs from a configuration (\<open>config/mod.rs\<close>) after the migrations of
  the crate \<open>migration\<close> have prepared the database.

  \<^bold>\<open>Conventions.\<close> A Rust function with effects is a function from a state to an outcome and a state (\<open>prog\<close>): \<open>Ok\<close>, \<open>Err\<close> or
  \<open>Panic\<close>, with \<open>and_then\<close> for the question mark. The state is the record \<open>world\<close> (tables, files, a tick). What the
  world outside decides is asked at that tick of the oracle record \<open>env\<close>: time, random ids, faults of statements, files
  and the network, the order of rows a query does not order. Libraries whose code is not in the repository are
  fields of \<open>ext\<close>, \<open>platform\<close>, \<open>plugin_ext\<close>, \<open>cli_ext\<close>, \<open>fetch_env\<close> and \<open>http_env\<close>; theorems that depend on such code
  assume what its documentation says. \<open>i64\<close> and \<open>u32\<close> arithmetic wraps where the source's may. Characters are bytes, so
  strings are in UTF-8.

  \<^bold>\<open>Theories.\<close>
  \<^item> \<open>Proxy_Prelude\<close>: outcomes, programs, the calculus \<open>evolves R m\<close> (the states before and after are \<open>R\<close>-related; locale
    \<open>step_rel\<close>), rows in an order chosen by somebody else, small functions of the standard library.
  \<^item> \<open>Polling\<close>: a loop that repeats a step until it yields a result, by \<open>partial_function\<close>: when it returns, and its invariants.
  \<^item> \<open>Entities\<close> (crate \<open>entity\<close>): states and types with their codes, the rows of the four tables.
  \<^item> \<open>Storage\<close>: the world, SQL statements and transactions, files; locale \<open>world_rel\<close> for relations that every statement respects.
  \<^item> \<open>Proxy_Utils\<close> (\<open>utils\<close>): ids derived from contents, conversions of errors, base64.
  \<^item> \<open>Db_Ops\<close> (\<open>proxy_rpc/db_ops.rs\<close>): every method of the repositories, the invariants of the tables, and which
    table a method can change.
  \<^item> \<open>Resources\<close> (\<open>resource/mod.rs\<close>): the two stores behind one interface; a locale states their laws and both interpret it.
  \<^item> \<open>Proxy_Rpc\<close> (\<open>proxy_rpc/rpc.rs\<close>): the seventeen handlers, dispatch (\<open>serve\<close>) and the client (\<open>wc_...\<close>) over one exchange of
    messages that may get lost on either way (\<open>rpc_call\<close>).
  \<^item> \<open>Wire\<close>: the JSON values of parameters and replies. A call through them is \<open>rpc_call\<close>, and they are read back as they were.
  \<^item> \<open>Samples\<close>: concrete data for the witnesses.
  \<^item> \<open>Task_Handout\<close>: what \<open>FetchTodo\<close> hands out; that no task is handed out twice by any sequence of requests that do not reopen
    tasks, nor by two transactions whose statements interleave; tasks are never lost or rewritten.
  \<^item> \<open>Submission\<close>, \<open>Task_Results\<close>, \<open>Server_State\<close>: submitting and submitting again, recording proofs and errors, the transport, the
    parameters kept under the id of their contents, the identity of the server, worker reports. They also show
    three ways in which parameters are lost, and that they stay lost until they are submitted again.
  \<^item> \<open>Local_Worker\<close> (\<open>proxy_rpc/worker.rs\<close>): the worker as a transition system (\<open>worker_step\<close>) of fetcher, channel,
    executor and running computations, with other clients of the server in between. Reachable states never hold
    a task twice, respect the capacity of the channel and report only results computed from the parameters. The prover is
    randomised and may fail, so that each computation runs as one of a set of provers (\<open>proof_of\<close>).
  \<^item> \<open>Service_Config\<close>: configuration and the start of both programs, up to the transition system of the worker.
  \<^item> \<open>Program_Runs\<close>: the end of both programs by a signal, and the next run of a worker, which takes up what it was given.
  \<^item> \<open>C2_Plugin\<close>: the plugin, one request at a time. What it prints is the recorded outcome of the task derived from the request;
    when polling ends.
  \<^item> \<open>Proof_Authenticity\<close>, \<open>Deployment\<close>, \<open>End_To_End\<close>: the server with any number of workers that crash and restart, and other
    clients, composed (\<open>deploy_step\<close>). Tasks stay in one hand, and a completed task has the result for its own parameters.
  \<^item> \<open>Plugin_System\<close>: the plugin with concurrent jobs beside such a deployment, interleaved call by call (\<open>sys_step\<close>): what it answers
    is the result for the line it answers. A race between two jobs that makes two workers compute one task.
  \<^item> \<open>Plugin_Output\<close>: the standard output the jobs share (\<open>PluginOut\<close>), written piece by piece under its lock (\<open>write_step\<close>): a reader
    sees whole lines, each answer once. \<open>Plugin_Lines\<close> puts the two together: what the cluster reads (\<open>plugin_step\<close>).
  \<^item> \<open>Task_Queue\<close>: the abstract queue the task table implements, with the refinement of every request.
  \<^item> \<open>Command_Line\<close> (the three \<open>main\<close> functions and the \<open>..._cmds\<close> of \<open>cli\<close>): declared arguments, dispatch, and the values the commands
    read. Every argument that is read is declared with the type it is read at.
  \<^item> \<open>Operator_Cli\<close> (\<open>cli/tasks.rs\<close>, \<open>cli/worker_states.rs\<close>, \<open>cli/utils.rs\<close>): the commands and what they print.
  \<^item> \<open>Params_Fetch\<close> (\<open>cli/params_fetch\<close>): checking and downloading parameter files.
  \<^item> \<open>Http_Server\<close> (\<open>http_server\<close>): which requests reach a method, and one answer for each, whatever the schedule of a batch.
    \<open>Http_Lifecycle\<close>: the task that serves until its handle stops it or is dropped.
  \<^item> \<open>Migrations\<close> (crate \<open>migration\<close>): the schema after the migrations has the columns of the entities, with a list of those
    whose types differ; what interrupted runs leave behind, and the one interruption no later run gets past.

  \<^bold>\<open>Loops.\<close> Handlers do not loop. The retries of a worker are bounded by the width of their counter and proved to end unless
  \<open>RETRY_SUM\<close> is its largest value. The polling of the plugin and the downloads may run forever: both are \<open>poll_loop\<close>, whose
  result is \<open>None\<close> then, and a theorem each says when they return. The loops of fetcher and executor are the
  transition system, and so are the writers of the plugin. No fuel is used.

  \<^bold>\<open>Grain.\<close> A remote call and a handler are one step of the world, except in \<open>interleaved_claims_exclusive\<close>, where single
  statements of two transactions interleave. SQL is modelled with the isolation that a conditional update has by itself.
  A statement on the tables that fails has no effect, and a commit whose answer is lost is not modelled there (in
  \<open>Migrations\<close> a statement may take effect without an answer, and a remote call may be served without one).
  \<open>start_server\<close> takes the outcome of the migrations as a parameter and starts on tables that exist; \<open>Migrations\<close> says which.
  What callbacks of a batch do to each other is left open in \<open>Http_Server\<close>. Waiting times have no duration.

  \<^bold>\<open>Not modelled.\<close> Logging, progress bars, help texts and the layout of tables are output without state of their own. What
  \<open>clap\<close> does with the words of a command line is a hypothesis (\<open>complies\<close>) on what it returns. Sockets, signals
  and the scheduling of tasks belong to the runtime; so does the failure of a write to the standard output of the plugin, after
  which nothing is said about what follows it. Proof generation itself, the text of JSON, the HTTP transport and the database
  driver are libraries. The Go client beside the crates is not part of it.
\<close>

end
